(* ===== verification/Prelude.thy ===== *)
theory Prelude
  imports Main "HOL-Library.Sublist"
begin

text \<open>
  Shared vocabulary of the development: Go strings and the functions of package
  \<open>strings\<close> the source calls, Go error values, formatted messages, and the iteration
  order of a Go map. Every other theory imports this one.

  \<^item> A Go string is a \<open>string\<close> (a list of bytes).
  \<^item> \<open>fmt.Sprintf\<close> is kept symbolic: a message is its format and its arguments.
  \<^item> An error is a value that records how it was made, so that
    \<open>apierrors.IsNotFound\<close> (true of what \<open>NewNotFound\<close> made, also when wrapped with
    \<open>%w\<close>) can be computed.
  \<^item> A call returning \<open>(T, error)\<close> returns \<open>go_error + T\<close>.
  \<^item> A Go map is a partial function; \<open>for k := range m\<close> visits the keys in an order
    given by an oracle \<open>ord\<close>, one index for each loop of the source.
\<close>

named_theorems go_string \<open>facts about package strings\<close>
named_theorems go_range \<open>facts about ranging over a map\<close>

section \<open>Package strings\<close>

definition HasPrefix :: "string \<Rightarrow> string \<Rightarrow> bool" where
  "HasPrefix s p \<longleftrightarrow> take (length p) s = p"

definition TrimPrefix :: "string \<Rightarrow> string \<Rightarrow> string" where
  "TrimPrefix s p = (if HasPrefix s p then drop (length p) s else s)"

definition HasSuffix :: "string \<Rightarrow> string \<Rightarrow> bool" where
  "HasSuffix s x \<longleftrightarrow> drop (length s - length x) s = x"

definition TrimSuffix :: "string \<Rightarrow> string \<Rightarrow> string" where
  "TrimSuffix s x = (if HasSuffix s x then take (length s - length x) s else s)"

text \<open>\<open>strings.Split(s, c)\<close> and \<open>strings.SplitN(s, c, n)\<close> for a one-byte separator.\<close>

fun Split :: "char \<Rightarrow> string \<Rightarrow> string list" where
  "Split c [] = [[]]"
| "Split c (x # xs) =
     (if x = c then [] # Split c xs
      else (case Split c xs of [] \<Rightarrow> [[x]] | y # ys \<Rightarrow> (x # y) # ys))"

fun SplitN :: "char \<Rightarrow> nat \<Rightarrow> string \<Rightarrow> string list" where
  "SplitN c 0 s = []"
| "SplitN c (Suc 0) s = [s]"
| "SplitN c (Suc (Suc n)) s =
     (case dropWhile (\<lambda>x. x \<noteq> c) s of
        [] \<Rightarrow> [s]
      | _ # rest \<Rightarrow> takeWhile (\<lambda>x. x \<noteq> c) s # SplitN c (Suc n) rest)"

lemma HasPrefix_iff [go_string]: "HasPrefix s p \<longleftrightarrow> (\<exists>r. s = p @ r)"
  unfolding HasPrefix_def by (metis append_eq_conv_conj append_take_drop_id)

lemma HasPrefix_append [simp]: "HasPrefix (p @ r) p"
  by (simp add: HasPrefix_def)

lemma TrimPrefix_append [simp]: "TrimPrefix (p @ r) p = r"
  by (simp add: TrimPrefix_def)

lemma HasSuffix_iff [go_string]: "HasSuffix s x \<longleftrightarrow> (\<exists>r. s = r @ x)"
proof
  assume "HasSuffix s x"
  then have "s = take (length s - length x) s @ x"
    unfolding HasSuffix_def by (metis append_take_drop_id)
  then show "\<exists>r. s = r @ x" by blast
next
  assume "\<exists>r. s = r @ x"
  then show "HasSuffix s x" by (auto simp: HasSuffix_def)
qed

lemma TrimSuffix_append [simp]: "TrimSuffix (r @ x) x = r"
  by (simp add: TrimSuffix_def HasSuffix_def)

lemma TrimSuffix_none: "\<not> HasSuffix s x \<Longrightarrow> TrimSuffix s x = s"
  by (simp add: TrimSuffix_def)

lemma prefix_TrimSuffix: "prefix (TrimSuffix s x) s"
  by (auto simp: TrimSuffix_def take_is_prefix)

lemma Split_nonempty [simp]: "Split c s \<noteq> []"
  by (induction s) (auto split: list.splits)

lemma Split_none [go_string]: "c \<notin> set s \<Longrightarrow> Split c s = [s]"
  by (induction s) auto

lemma Split_append [go_string]: "c \<notin> set a \<Longrightarrow> Split c (a @ c # s) = a # Split c s"
  by (induction a) auto

lemma set_Split: "y \<in> set (Split c s) \<Longrightarrow> c \<notin> set y"
  by (induction s arbitrary: y) (auto split: if_splits list.splits)

text \<open>Cutting a string at the first separator.\<close>

lemma cut_eq:
  assumes "dropWhile (\<lambda>x. x \<noteq> c) s = d # r"
  shows "d = c \<and> s = takeWhile (\<lambda>x. x \<noteq> c) s @ c # r"
proof -
  from assms have "d = c"
    using hd_dropWhile [of "\<lambda>x. x \<noteq> c" s] by auto
  with assms show ?thesis
    using takeWhile_dropWhile_id [of "\<lambda>x. x \<noteq> c" s] by simp
qed

lemma takeWhile_sep [simp]: "c \<notin> set (takeWhile (\<lambda>x. x \<noteq> c) s)"
  using set_takeWhileD by force

lemma dropWhile_sep_append [simp]:
  "c \<notin> set a \<Longrightarrow> dropWhile (\<lambda>x. x \<noteq> c) (a @ c # r) = c # r"
  by (induction a) auto

lemma takeWhile_sep_append [simp]:
  "c \<notin> set a \<Longrightarrow> takeWhile (\<lambda>x. x \<noteq> c) (a @ c # r) = a"
  by (induction a) auto

lemma dropWhile_sep_none: "c \<notin> set a \<Longrightarrow> dropWhile (\<lambda>x. x \<noteq> c) a = []"
  by (induction a) auto

lemma SplitN_append [go_string]:
  "c \<notin> set a \<Longrightarrow> SplitN c (Suc (Suc n)) (a @ c # r) = a # SplitN c (Suc n) r"
  by simp

lemma SplitN_none [go_string]: "c \<notin> set a \<Longrightarrow> SplitN c (Suc (Suc n)) a = [a]"
  by (simp add: dropWhile_sep_none)

lemma SplitN2_cases:
  obtains (whole) "SplitN c 2 s = [s]" "c \<notin> set s"
    | (cut) a r where "SplitN c 2 s = [a, r]" "s = a @ c # r" "c \<notin> set a"
proof (cases "dropWhile (\<lambda>x. x \<noteq> c) s")
  case Nil
  then have "c \<notin> set s" by (auto simp: dropWhile_eq_Nil_conv)
  then show ?thesis using whole SplitN_none [of c s 0] by (simp add: numeral_2_eq_2)
next
  case (Cons d r)
  with cut_eq [OF Cons] show ?thesis
    using cut [of "takeWhile (\<lambda>x. x \<noteq> c) s" r] by (simp add: numeral_2_eq_2)
qed

lemma SplitN3_Cons:
  assumes "SplitN c 3 s = a # b # r # rest"
  shows "rest = [] \<and> s = a @ c # b @ c # r \<and> c \<notin> set a \<and> c \<notin> set b"
proof -
  have three: "(3::nat) = Suc (Suc (Suc 0))" by simp
  obtain d s' where 1: "dropWhile (\<lambda>x. x \<noteq> c) s = d # s'"
    using assms by (auto simp: three split: list.splits)
  with assms have a: "a = takeWhile (\<lambda>x. x \<noteq> c) s"
    and rest: "SplitN c 2 s' = b # r # rest"
    by (auto simp: three numeral_2_eq_2)
  from rest show ?thesis
  proof (cases rule: SplitN2_cases [of c s'])
    case whole
    then show ?thesis using rest by simp
  next
    case (cut a' r')
    with cut_eq [OF 1] rest a show ?thesis by simp
  qed
qed

section \<open>Messages and errors\<close>

datatype message = Str string | Sprintf string "message list"

datatype go_error =
    NotFound message
  | Err message
  | Wrap string "message list" go_error
  | Forbidden go_error
  | Aggregate "go_error list"

fun IsNotFound :: "go_error \<Rightarrow> bool" where
  "IsNotFound (NotFound _) = True"
| "IsNotFound (Wrap _ _ e) = IsNotFound e"
| "IsNotFound _ = False"

abbreviation Errorf :: "string \<Rightarrow> message list \<Rightarrow> go_error" where
  "Errorf f args \<equiv> Err (Sprintf f args)"

text \<open>\<open>utilerrors.NewAggregate\<close>: no error for an empty list.\<close>

definition NewAggregate :: "go_error list \<Rightarrow> go_error option" where
  "NewAggregate es = (if es = [] then None else Some (Aggregate es))"

section \<open>Ranging over a map\<close>

type_synonym ('k, 'v) range_order = "nat \<Rightarrow> ('k \<rightharpoonup> 'v) \<Rightarrow> 'k list"

definition is_range :: "'k list \<Rightarrow> ('k \<rightharpoonup> 'v) \<Rightarrow> bool" where
  "is_range ks m \<longleftrightarrow> distinct ks \<and> set ks = dom m"

text \<open>
  The oracle visits every key of a map exactly once. The keys are drawn from a universe
  \<open>U\<close>, so that a concrete oracle can be evaluated (\<open>range_in\<close> below).
\<close>

definition range_on :: "'k set \<Rightarrow> ('k, 'v) range_order \<Rightarrow> bool" where
  "range_on U ord \<longleftrightarrow> (\<forall>i m. dom m \<subseteq> U \<longrightarrow> is_range (ord i m) m)"

definition range_in :: "'k list \<Rightarrow> ('k, 'v) range_order" where
  "range_in ks i m = filter (\<lambda>k. m k \<noteq> None) ks"

lemma range_on_range_in [go_range]: "distinct ks \<Longrightarrow> range_on (set ks) (range_in ks)"
  by (auto simp: range_on_def range_in_def is_range_def)

lemma range_onD [go_range]: "range_on U ord \<Longrightarrow> dom m \<subseteq> U \<Longrightarrow> is_range (ord i m) m"
  by (simp add: range_on_def)

lemma set_range [go_range]: "range_on U ord \<Longrightarrow> dom m \<subseteq> U \<Longrightarrow> set (ord i m) = dom m"
  by (simp add: range_on_def is_range_def)

text \<open>First match in a list, as a loop with an early return finds it.\<close>

lemma find_Some_in: "find P xs = Some x \<Longrightarrow> x \<in> set xs \<and> P x"
  by (auto simp: find_Some_iff)

end
