(* ===== verification/Api_Types.thy ===== *)
theory Api_Types
  imports Prelude
begin

text \<open>
  The API objects. \<open>FilteredAPIExportEndpointSlice\<close> is the resource of this
  repository (\<open>sdk/apis/filteredvw/v1alpha1\<close>) with its validation; the kcp objects
  (\<open>APIExport\<close>, \<open>APIBinding\<close>, \<open>PermissionClaim\<close>, \<open>APIResourceSchema\<close>) are
  records of the fields the source reads. The cluster of an object is what
  \<open>logicalcluster.From\<close> returns for it. A nil map or slice is \<open>None\<close>.
\<close>

section \<open>The endpoint slice\<close>

definition GroupName :: string where
  "GroupName = ''filteredvw.kcp.io''"

definition GroupVersion :: string where
  "GroupVersion = ''v1alpha1''"

record group_resource =
  gr_Group :: string
  gr_Resource :: string

record group_version_resource =
  gvr_Group :: string
  gvr_Version :: string
  gvr_Resource :: string

definition GroupResource :: "group_version_resource \<Rightarrow> group_resource" where
  "GroupResource g = \<lparr>gr_Group = gvr_Group g, gr_Resource = gvr_Resource g\<rparr>"

text \<open>\<open>Resource\<close>: an unqualified resource name in the group of this package.\<close>

definition Resource :: "string \<Rightarrow> group_resource" where
  "Resource r = GroupResource
     \<lparr>gvr_Group = GroupName, gvr_Version = GroupVersion, gvr_Resource = r\<rparr>"

text \<open>\<open>SchemeGroupVersion.WithResource\<close> of the slices.\<close>

definition slice_gvr :: group_version_resource where
  "slice_gvr = \<lparr>gvr_Group = GroupName, gvr_Version = GroupVersion,
                gvr_Resource = ''filteredapiexportendpointslices''\<rparr>"

record match_expression =
  me_Key :: string
  me_Operator :: string
  me_Values :: "string list"

record label_selector =
  MatchLabels :: "(string \<rightharpoonup> string) option"
  MatchExpressions :: "match_expression list option"

text \<open>Reading or ranging over a nil map is reading an empty one.\<close>

definition go_map :: "('k \<rightharpoonup> 'v) option \<Rightarrow> ('k \<rightharpoonup> 'v)" where
  "go_map m = (case m of None \<Rightarrow> Map.empty | Some m' \<Rightarrow> m')"

lemma go_map_simps [simp]: "go_map None = Map.empty" "go_map (Some m) = m"
  by (simp_all add: go_map_def)

record ExportBindingReference =
  ref_Path :: string
  ref_Name :: string

type_synonym FilteredAPIExportObjectSelector = label_selector

record FilteredAPIExportEndpointSliceSpec =
  APIExport :: ExportBindingReference
  ObjectSelector :: FilteredAPIExportObjectSelector

datatype condition_status = ConditionTrue | ConditionFalse | ConditionUnknown

record condition =
  cond_Type :: string
  cond_Status :: condition_status
  cond_Severity :: string
  cond_Reason :: string
  cond_Message :: message

record FilteredAPIExportEndpointSliceStatus =
  Conditions :: "condition list"

record FilteredAPIExportEndpointSlice =
  sl_Name :: string
  sl_Cluster :: string
  Spec :: FilteredAPIExportEndpointSliceSpec
  Status :: FilteredAPIExportEndpointSliceStatus

type_synonym slice = FilteredAPIExportEndpointSlice

definition APIExportValid :: string where
  "APIExportValid = ''APIExportValid''"

definition APIExportNotFoundReason :: string where
  "APIExportNotFoundReason = ''APIExportNotFound''"

definition InternalErrorReason :: string where
  "InternalErrorReason = ''InternalError''"

definition GetConditions :: "slice \<Rightarrow> condition list" where
  "GetConditions s = Conditions (Status s)"

definition SetConditions :: "slice \<Rightarrow> condition list \<Rightarrow> slice" where
  "SetConditions s cs = s\<lparr>Status := (Status s)\<lparr>Conditions := cs\<rparr>\<rparr>"

lemma Get_SetConditions [simp]: "GetConditions (SetConditions s cs) = cs"
  by (simp add: GetConditions_def SetConditions_def)

lemma SetConditions_frame [simp]:
  "Spec (SetConditions s cs) = Spec s"
  "sl_Name (SetConditions s cs) = sl_Name s"
  "sl_Cluster (SetConditions s cs) = sl_Cluster s"
  by (simp_all add: SetConditions_def)

section \<open>Validation of the endpoint slice\<close>

text \<open>Field paths are their elements; an error keeps its path (and the rejected value).\<close>

datatype field_error =
    Required "string list"
  | Invalid "string list" label_selector string

definition ValidateEndpointSliceReference ::
    "ExportBindingReference \<Rightarrow> string list \<Rightarrow> field_error list" where
  "ValidateEndpointSliceReference reference path =
     (if ref_Path reference = '''' then [Required (path @ [''export'', ''path''])] else [])
     @ (if ref_Name reference = '''' then [Required (path @ [''export'', ''name''])] else [])"

definition ValidateEndpointSlice :: "slice \<Rightarrow> field_error list" where
  "ValidateEndpointSlice endpointSlice =
     ValidateEndpointSliceReference (APIExport (Spec endpointSlice)) [''spec'', ''apiExport'']"

definition ValidateEndpointSliceUpdate :: "slice \<Rightarrow> slice \<Rightarrow> field_error list" where
  "ValidateEndpointSliceUpdate oldSlice newSlice =
     ValidateEndpointSliceReference (APIExport (Spec newSlice)) [''spec'', ''apiExport'']
     @ (if ObjectSelector (Spec oldSlice) \<noteq> ObjectSelector (Spec newSlice)
        then [Invalid [''spec'', ''objectSelector''] (ObjectSelector (Spec newSlice))
                ''objectSelector is immutable'']
        else [])"

lemma ValidateEndpointSlice_ok_iff:
  "ValidateEndpointSlice s = [] \<longleftrightarrow>
     ref_Path (APIExport (Spec s)) \<noteq> '''' \<and> ref_Name (APIExport (Spec s)) \<noteq> ''''"
  by (simp add: ValidateEndpointSlice_def ValidateEndpointSliceReference_def)

lemma ValidateEndpointSliceUpdate_ok_iff:
  "ValidateEndpointSliceUpdate old new = [] \<longleftrightarrow>
     ValidateEndpointSlice new = [] \<and> ObjectSelector (Spec new) = ObjectSelector (Spec old)"
  by (auto simp: ValidateEndpointSliceUpdate_def ValidateEndpointSlice_def)

section \<open>The kcp objects the source reads\<close>

record PermissionClaim =
  pc_Group :: string
  pc_Resource :: string
  pc_IdentityHash :: string
  pc_Verbs :: "string list"

datatype claim_state = ClaimAccepted | ClaimRejected | ClaimStateOther string

record claim_selector =
  MatchAll :: bool
  LabelSelector :: label_selector

record AcceptablePermissionClaim =
  ac_Claim :: PermissionClaim
  ac_Selector :: claim_selector
  ac_State :: claim_state

record APIBinding =
  bi_Export :: "string option"               \<comment> \<open>\<open>Spec.Reference.Export.Name\<close>, if set\<close>
  bi_APIExportClusterName :: string          \<comment> \<open>\<open>Status.APIExportClusterName\<close>\<close>
  bi_BoundResources :: "group_resource list"
  bi_PermissionClaims :: "AcceptablePermissionClaim list"

record APIExport_t =
  ex_Name :: string
  ex_Cluster :: string
  ex_PathAnnotation :: string                \<comment> \<open>the logical cluster path annotation\<close>
  ex_IdentityHash :: string
  ex_Resources :: "string list"              \<comment> \<open>the \<open>Schema\<close> names of \<open>Spec.Resources\<close>\<close>
  ex_PermissionClaims :: "PermissionClaim list"
  ex_MaximalPermissionPolicyLocal :: "bool option"
    \<comment> \<open>nil policy, or whether its \<open>Local\<close> is set\<close>

type_synonym apiexport = APIExport_t

text \<open>The loop over \<open>Status.BoundResources\<close>, the same in all its users.\<close>

definition bound_resource :: "APIBinding \<Rightarrow> string \<Rightarrow> string \<Rightarrow> bool" where
  "bound_resource b g r \<longleftrightarrow>
     list_ex (\<lambda>x. gr_Group x = g \<and> gr_Resource x = r) (bi_BoundResources b)"

lemma bound_resource_iff:
  "bound_resource b g r \<longleftrightarrow>
     (\<exists>x \<in> set (bi_BoundResources b). gr_Group x = g \<and> gr_Resource x = r)"
  by (simp add: bound_resource_def list_ex_iff)

section \<open>Lookup of the binding of an export\<close>

text \<open>
  \<open>getAPIBindingByExport\<close> as \<open>NewBoundAPIAuthorizer\<close> and \<open>NewSelectorAdmission\<close>
  define it: list the bindings of the cluster, skip nil entries, return the first one that
  refers to the export by name and cluster. The two copies differ in the error text.
\<close>

definition binding_matches :: "string \<Rightarrow> string \<Rightarrow> APIBinding \<Rightarrow> bool" where
  "binding_matches apiExportName apiExportCluster binding \<longleftrightarrow>
     bi_Export binding = Some apiExportName
     \<and> bi_APIExportClusterName binding = apiExportCluster"

fun first_binding :: "string \<Rightarrow> string \<Rightarrow> APIBinding option list \<Rightarrow> APIBinding option" where
  "first_binding n c [] = None"
| "first_binding n c (None # bs) = first_binding n c bs"
| "first_binding n c (Some b # bs) =
     (if binding_matches n c b then Some b else first_binding n c bs)"

lemma first_binding_SomeD:
  "first_binding n c bs = Some b \<Longrightarrow> Some b \<in> set bs \<and> binding_matches n c b"
  by (induction n c bs rule: first_binding.induct) (auto split: if_splits)

lemma first_binding_None_iff:
  "first_binding n c bs = None \<longleftrightarrow> (\<forall>b. Some b \<in> set bs \<longrightarrow> \<not> binding_matches n c b)"
  by (induction n c bs rule: first_binding.induct) auto

end
