(* ===== verification/Authz.thy ===== *)
theory Authz
  imports Api_Types
begin

text \<open>
  The vocabulary of the authorizers (\<open>internal/virtual/filteredapiexport/authorizer\<close>):
  decisions, requests, the request context, and the two contracts a link of the authorizer
  chain can have. A context is what the source reads out of it: the target cluster
  (\<open>ValidClusterFrom\<close>, which may fail) and the API domain key (\<open>APIDomainKeyFrom\<close>).
\<close>

datatype decision = DecisionDeny | DecisionAllow | DecisionNoOpinion

record cluster =
  cl_Name :: string
  cl_Wildcard :: bool

record req_ctx =
  ctx_Cluster :: "go_error + cluster"
  ctx_DomainKey :: string

record user_info =
  us_Name :: string
  us_UID :: string
  us_Groups :: "string list"
  us_Extra :: "string \<rightharpoonup> string list"

record attributes =
  at_User :: user_info
  at_Verb :: string
  at_Namespace :: string
  at_APIGroup :: string
  at_APIVersion :: string
  at_Resource :: string
  at_Subresource :: string
  at_Name :: string
  at_ResourceRequest :: bool
  at_Path :: string

type_synonym verdict = "decision \<times> message \<times> go_error option"
type_synonym authorizer = "req_ctx \<Rightarrow> attributes \<Rightarrow> verdict"

text \<open>
  The listers the constructors close over: a keyed lookup in one cluster (a missing object
  is a \<open>NotFound\<close> error), and the list of a cluster's bindings.
\<close>

type_synonym 'o getter = "string \<Rightarrow> string \<Rightarrow> go_error + 'o"
type_synonym binding_lister = "string \<Rightarrow> go_error + APIBinding option list"

text \<open>
  \<open>parts := strings.Split(string(apiDomainKey), "/")\<close>, refused when there are fewer than
  two parts; every authorizer and both admission functions start with it.
\<close>

definition domain_key_parts :: "string \<Rightarrow> (string \<times> string) option" where
  "domain_key_parts key =
     (case Split (CHR ''/'') key of c # n # _ \<Rightarrow> Some (c, n) | _ \<Rightarrow> None)"

lemma domain_key_parts_key [simp]:
  "CHR ''/'' \<notin> set c \<Longrightarrow> CHR ''/'' \<notin> set n \<Longrightarrow>
     domain_key_parts (c @ CHR ''/'' # n) = Some (c, n)"
  by (simp add: domain_key_parts_def Split_append Split_none)

lemma domain_key_parts_no_slash:
  assumes "domain_key_parts key = Some (c, n)"
  shows "CHR ''/'' \<notin> set c \<and> CHR ''/'' \<notin> set n"
proof -
  from assms obtain rest where "Split (CHR ''/'') key = c # n # rest"
    by (auto simp: domain_key_parts_def split: list.splits)
  then have "c \<in> set (Split (CHR ''/'') key)" "n \<in> set (Split (CHR ''/'') key)"
    by simp_all
  then show ?thesis by (auto dest: set_Split)
qed

section \<open>Links of the authorizer chain\<close>

text \<open>
  A link wraps a delegate. A \<open>sound_gate\<close> never turns a refusal into an \<open>Allow\<close> and
  allows only requests that satisfy its own condition \<open>ok\<close>; an \<open>exact_gate\<close> hands
  the request over, verdict and all, whenever \<open>ok\<close> holds.
\<close>

abbreviation allows :: "verdict \<Rightarrow> bool" where
  "allows v \<equiv> fst v = DecisionAllow"

locale sound_gate =
  fixes gate :: "authorizer \<Rightarrow> authorizer"
    and ok :: "req_ctx \<Rightarrow> attributes \<Rightarrow> bool"
  assumes sound: "allows (gate d ctx a) \<Longrightarrow> ok ctx a \<and> allows (d ctx a)"
begin

lemma not_ok_blocks: "\<not> ok ctx a \<Longrightarrow> \<not> allows (gate d ctx a)"
  using sound by blast

lemma delegate_refusal_stands: "\<not> allows (d ctx a) \<Longrightarrow> \<not> allows (gate d ctx a)"
  using sound by blast

end

locale exact_gate =
  fixes gate :: "authorizer \<Rightarrow> authorizer"
    and ok :: "req_ctx \<Rightarrow> attributes \<Rightarrow> bool"
  assumes passes: "ok ctx a \<Longrightarrow> gate d ctx a = d ctx a"
    and blocks: "\<not> ok ctx a \<Longrightarrow> \<not> allows (gate d ctx a)"

sublocale exact_gate \<subseteq> sound_gate
proof unfold_locales
  fix d ctx a
  assume "allows (gate d ctx a)"
  then show "ok ctx a \<and> allows (d ctx a)"
    using passes blocks by (cases "ok ctx a") auto
qed

context exact_gate
begin

lemma allows_iff: "allows (gate d ctx a) \<longleftrightarrow> ok ctx a \<and> allows (d ctx a)"
  using sound [of d ctx a] passes [of ctx a d] by metis

lemma mono:
  assumes "\<And>ctx a. allows (d ctx a) \<Longrightarrow> allows (d' ctx a)"
    and "allows (gate d ctx a)"
  shows "allows (gate d' ctx a)"
  using assms allows_iff by blast

end

end
