(* ===== verification/Labels.thy ===== *)
theory Labels
  imports Api_Types
begin

text \<open>
  The label selectors of apimachinery are parameters, collected in \<open>labels_api\<close>; what
  the code relies on is \<open>selector_law\<close>, as documented for \<open>metav1.LabelSelector\<close>: the
  labels of \<open>matchLabels\<close> are ANDed with the expressions, so a match implies every
  \<open>matchLabels\<close> entry, and with no expression nothing else is required.
  \<open>ref_labels\<close> is a concrete instance, used to evaluate examples.
\<close>

type_synonym label_set = "string \<rightharpoonup> string"

record ('sel, 'req) labels_api =
  LabelSelectorAsSelector :: "label_selector \<Rightarrow> go_error + 'sel"
  Matches :: "'sel \<Rightarrow> label_set \<Rightarrow> bool"
  Requirements :: "'sel \<Rightarrow> 'req list \<times> bool"
  NewRequirementIn :: "string \<Rightarrow> string list \<Rightarrow> go_error + 'req"

definition selector_law :: "('sel, 'req) labels_api \<Rightarrow> bool" where
  "selector_law L \<longleftrightarrow>
     (\<forall>ls s l. LabelSelectorAsSelector L ls = Inr s \<longrightarrow>
        (Matches L s l \<longrightarrow> go_map (MatchLabels ls) \<subseteq>\<^sub>m l)
        \<and> (MatchExpressions ls \<in> {None, Some []} \<and> go_map (MatchLabels ls) \<subseteq>\<^sub>m l
             \<longrightarrow> Matches L s l))"

lemma selector_lawD1:
  "selector_law L \<Longrightarrow> LabelSelectorAsSelector L ls = Inr s \<Longrightarrow> Matches L s l \<Longrightarrow>
     go_map (MatchLabels ls) \<subseteq>\<^sub>m l"
  by (simp add: selector_law_def)

lemma selector_lawD2:
  "selector_law L \<Longrightarrow> LabelSelectorAsSelector L ls = Inr s \<Longrightarrow>
     MatchExpressions ls \<in> {None, Some []} \<Longrightarrow> go_map (MatchLabels ls) \<subseteq>\<^sub>m l \<Longrightarrow> Matches L s l"
  by (simp add: selector_law_def)

text \<open>Two label sets agree when no key has different values in them.\<close>

definition agree :: "label_set \<Rightarrow> label_set \<Rightarrow> bool" where
  "agree m n \<longleftrightarrow> (\<forall>k. m k = None \<or> n k = None \<or> m k = n k)"

lemma agree_sym: "agree m n \<longleftrightarrow> agree n m"
  unfolding agree_def by metis

lemma agree_add_iff:
  assumes "agree m n"
  shows "agree (m ++ n) l \<longleftrightarrow> agree m l \<and> agree n l"
proof -
  have "((m ++ n) k = None \<or> l k = None \<or> (m ++ n) k = l k) \<longleftrightarrow>
      (m k = None \<or> l k = None \<or> m k = l k) \<and> (n k = None \<or> l k = None \<or> n k = l k)" for k
    using assms [unfolded agree_def, rule_format, of k]
    by (cases "m k"; cases "n k"; cases "l k") (simp_all add: map_add_def)
  then show ?thesis unfolding agree_def by blast
qed

lemma agree_add_comm:
  assumes "agree m n"
  shows "m ++ n = n ++ m"
proof
  fix k
  show "(m ++ n) k = (n ++ m) k"
    using assms [unfolded agree_def, rule_format, of k]
    by (cases "m k"; cases "n k") (simp_all add: map_add_def)
qed

lemma agree_map_le: "agree m n \<Longrightarrow> m \<subseteq>\<^sub>m m ++ n"
  using agree_add_comm [of m n] map_le_map_add [of m n] by metis

lemma map_le_add_id:
  assumes "m \<subseteq>\<^sub>m l"
  shows "l ++ m = l"
proof
  fix k
  show "(l ++ m) k = l k"
    using assms by (cases "m k") (auto simp: map_le_def map_add_def dom_def)
qed

lemma map_le_agree: "m \<subseteq>\<^sub>m l \<Longrightarrow> agree m l"
  unfolding agree_def map_le_def dom_def by blast

text \<open>
  The instance: a selector is the label selector itself, its requirements one \<open>In\<close> per
  expression; the four documented operators.
\<close>

fun expression_matches :: "match_expression \<Rightarrow> label_set \<Rightarrow> bool" where
  "expression_matches e l =
     (if me_Operator e = ''In'' then (\<exists>v \<in> set (me_Values e). l (me_Key e) = Some v)
      else if me_Operator e = ''NotIn'' then (\<forall>v \<in> set (me_Values e). l (me_Key e) \<noteq> Some v)
      else if me_Operator e = ''Exists'' then l (me_Key e) \<noteq> None
      else l (me_Key e) = None)"

definition ref_labels :: "string list \<Rightarrow> (label_selector, string \<times> string list) labels_api" where
  "ref_labels keys =
     \<lparr>LabelSelectorAsSelector = Inr,
      Matches = (\<lambda>s l. (\<forall>k v. go_map (MatchLabels s) k = Some v \<longrightarrow> l k = Some v)
         \<and> list_all (\<lambda>e. expression_matches e l)
              (case MatchExpressions s of None \<Rightarrow> [] | Some es \<Rightarrow> es)),
      Requirements = (\<lambda>s.
        (map (\<lambda>k. (k, [the (go_map (MatchLabels s) k)]))
           (filter (\<lambda>k. go_map (MatchLabels s) k \<noteq> None) keys), True)),
      NewRequirementIn = (\<lambda>k vs. Inr (k, vs))\<rparr>"

lemma selector_law_ref [simp]: "selector_law (ref_labels keys)"
  by (auto simp: selector_law_def ref_labels_def map_le_def dom_def)

end
