(* ===== verification/Examples.thy ===== *)
theory Examples
  imports Authz Labels
begin

text \<open>
  A small world the witnesses of the other theories are evaluated in: the provider cluster
  \<open>prov\<close> with one export and one endpoint slice, the consumer cluster \<open>cons\<close> whose
  binding binds \<open>widgets\<close> and accepts two permission claims.
\<close>

named_theorems world \<open>the data of the example world\<close>

definition w_labels :: label_set where [world]:
  "w_labels = [''env'' \<mapsto> ''prod'']"

definition w_selector :: label_selector where [world]:
  "w_selector = \<lparr>MatchLabels = Some w_labels, MatchExpressions = None\<rparr>"

definition w_slice :: slice where [world]:
  "w_slice =
     \<lparr>sl_Name = ''es'', sl_Cluster = ''prov'',
      Spec = \<lparr>APIExport = \<lparr>ref_Path = ''prov'', ref_Name = ''exp''\<rparr>,
              ObjectSelector = w_selector\<rparr>,
      Status = \<lparr>Conditions = []\<rparr>\<rparr>"

definition w_configmaps :: PermissionClaim where [world]:
  "w_configmaps = \<lparr>pc_Group = '''', pc_Resource = ''configmaps'', pc_IdentityHash = '''',
                   pc_Verbs = [''get'', ''create'']\<rparr>"

definition w_gadgets :: PermissionClaim where [world]:
  "w_gadgets = \<lparr>pc_Group = ''gadgets.io'', pc_Resource = ''gadgets'', pc_IdentityHash = ''gid'',
                pc_Verbs = [''*'']\<rparr>"

definition w_export :: apiexport where [world]:
  "w_export = \<lparr>ex_Name = ''exp'', ex_Cluster = ''prov'', ex_PathAnnotation = ''root:prov'',
               ex_IdentityHash = ''id'', ex_Resources = [''v1.widgets''],
               ex_PermissionClaims = [w_configmaps, w_gadgets],
               ex_MaximalPermissionPolicyLocal = None\<rparr>"

definition w_gadget_export :: apiexport where [world]:
  "w_gadget_export = \<lparr>ex_Name = ''gexp'', ex_Cluster = ''gprov'', ex_PathAnnotation = '''',
               ex_IdentityHash = ''gid'', ex_Resources = [''v1.gadgets''],
               ex_PermissionClaims = [], ex_MaximalPermissionPolicyLocal = Some True\<rparr>"

definition w_binding :: APIBinding where [world]:
  "w_binding =
     \<lparr>bi_Export = Some ''exp'', bi_APIExportClusterName = ''prov'',
      bi_BoundResources = [\<lparr>gr_Group = ''example.io'', gr_Resource = ''widgets''\<rparr>],
      bi_PermissionClaims =
        [\<lparr>ac_Claim = w_configmaps,
          ac_Selector = \<lparr>MatchAll = False,
            LabelSelector = \<lparr>MatchLabels = Some [''team'' \<mapsto> ''a''], MatchExpressions = None\<rparr>\<rparr>,
          ac_State = ClaimAccepted\<rparr>,
         \<lparr>ac_Claim = w_gadgets,
          ac_Selector = \<lparr>MatchAll = True,
            LabelSelector = \<lparr>MatchLabels = None, MatchExpressions = None\<rparr>\<rparr>,
          ac_State = ClaimAccepted\<rparr>]\<rparr>"

definition w_slices :: "slice getter" where [world]:
  "w_slices c n = (if c = ''prov'' \<and> n = ''es'' then Inr w_slice else Inl (NotFound (Str n)))"

definition w_exports :: "apiexport getter" where [world]:
  "w_exports c n =
     (if c = ''prov'' \<and> n = ''exp'' then Inr w_export
      else if c = ''gprov'' \<and> n = ''gexp'' then Inr w_gadget_export
      else Inl (NotFound (Str n)))"

definition w_bindings :: binding_lister where [world]:
  "w_bindings c = (if c = ''cons'' then Inr [None, Some w_binding] else Inr [])"

definition w_byIdentity :: "string \<Rightarrow> go_error + apiexport list" where [world]:
  "w_byIdentity h =
     Inr (if h = ''gid'' then [w_gadget_export] else if h = ''id'' then [w_export] else [])"

definition w_key :: string where [world]:
  "w_key = ''prov/es''"

definition w_ctx :: req_ctx where [world]:
  "w_ctx = \<lparr>ctx_Cluster = Inr \<lparr>cl_Name = ''cons'', cl_Wildcard = False\<rparr>, ctx_DomainKey = w_key\<rparr>"

definition w_attr :: "string \<Rightarrow> string \<Rightarrow> string \<Rightarrow> attributes" where [world]:
  "w_attr verb g r =
     \<lparr>at_User = \<lparr>us_Name = ''alice'', us_UID = ''1'', us_Groups = [''dev''], us_Extra = Map.empty\<rparr>,
      at_Verb = verb, at_Namespace = '''', at_APIGroup = g, at_APIVersion = ''v1'',
      at_Resource = r, at_Subresource = '''', at_Name = '''', at_ResourceRequest = True,
      at_Path = ''''\<rparr>"

text \<open>An access review that allows everything, and one that refuses everything.\<close>

definition w_yes :: "string \<Rightarrow> go_error + authorizer" where [world]:
  "w_yes c = Inr (\<lambda>ctx a. (DecisionAllow, Str ''ok'', None))"

definition w_no :: "string \<Rightarrow> go_error + authorizer" where [world]:
  "w_no c = Inr (\<lambda>ctx a. (DecisionNoOpinion, Str ''no'', None))"

definition w_EqualGRI :: "PermissionClaim \<Rightarrow> PermissionClaim \<Rightarrow> bool" where [world]:
  "w_EqualGRI a b \<longleftrightarrow> pc_Group a = pc_Group b \<and> pc_Resource a = pc_Resource b
     \<and> pc_IdentityHash a = pc_IdentityHash b"

lemma w_key_parts [simp]: "domain_key_parts w_key = Some (''prov'', ''es'')"
  by (simp add: w_key_def domain_key_parts_def)

abbreviation w_ord :: "(string, string) range_order" where
  "w_ord \<equiv> range_in [''env'', ''team'']"

lemma w_ord_range [simp]: "range_on {''env'', ''team''} w_ord"
  using range_on_range_in [of "[''env'', ''team'']"] by simp

end
