(* ===== verification/Bound_Authorizer.thy ===== *)
theory Bound_Authorizer
  imports Authz Examples
begin

text \<open>
  \<open>authorizer/binding.go\<close>: the outermost authorizer. A request for a concrete cluster is
  handed to the delegate only when the target cluster has an \<open>APIBinding\<close> of the export
  the slice refers to, and the binding covers the resource: it is bound, or an accepted
  permission claim grants the verb on both sides, or it is a read of \<open>apibindings\<close>.
  \<open>EqualGRI\<close> (of the kcp SDK) is a parameter.
\<close>

record boundAPIAuthorizer =
  ba_getFilteredAPIExportEndpointSlice :: "slice getter"
  ba_getAPIExport :: "apiexport getter"
  ba_getAPIBindingByExport :: "string \<Rightarrow> string \<Rightarrow> string \<Rightarrow> go_error + APIBinding"
  ba_delegate :: authorizer

definition wildcardVerb :: string where
  "wildcardVerb = ''*''"

definition readOnlyVerbs :: "string list" where
  "readOnlyVerbs = [''get'', ''list'', ''watch'']"

definition apibindings_resource :: group_resource where
  "apibindings_resource = \<lparr>gr_Group = ''apis.kcp.io'', gr_Resource = ''apibindings''\<rparr>"

definition bound_getAPIBindingByExport ::
    "binding_lister \<Rightarrow> string \<Rightarrow> string \<Rightarrow> string \<Rightarrow> go_error + APIBinding" where
  "bound_getAPIBindingByExport lister clusterName apiExportName apiExportCluster =
     (case lister clusterName of
        Inl err \<Rightarrow> Inl err
      | Inr bindings \<Rightarrow>
          (case first_binding apiExportName apiExportCluster bindings of
             Some b \<Rightarrow> Inr b
           | None \<Rightarrow> Inl (Err (Str ''no suitable binding found 2''))))"

definition NewBoundAPIAuthorizer ::
    "authorizer \<Rightarrow> slice getter \<Rightarrow> binding_lister \<Rightarrow> apiexport getter \<Rightarrow> boundAPIAuthorizer" where
  "NewBoundAPIAuthorizer delegate filteredAPIExportESLister apiBindingLister apiExportLister =
     \<lparr>ba_getFilteredAPIExportEndpointSlice = filteredAPIExportESLister,
      ba_getAPIExport = apiExportLister,
      ba_getAPIBindingByExport = bound_getAPIBindingByExport apiBindingLister,
      ba_delegate = delegate\<rparr>"

text \<open>The verbs the export claims for the group, resource and identity of a claim.\<close>

fun export_verbs ::
    "(PermissionClaim \<Rightarrow> PermissionClaim \<Rightarrow> bool) \<Rightarrow> PermissionClaim list \<Rightarrow> PermissionClaim \<Rightarrow>
     string set" where
  "export_verbs EqualGRI [] c = {}"
| "export_verbs EqualGRI (e # es) c =
     (if EqualGRI e c then set (pc_Verbs e) else export_verbs EqualGRI es c)"

definition allowed_verbs ::
    "(PermissionClaim \<Rightarrow> PermissionClaim \<Rightarrow> bool) \<Rightarrow> PermissionClaim list \<Rightarrow> PermissionClaim \<Rightarrow>
     string set" where
  "allowed_verbs EqualGRI exportClaims c =
     set (pc_Verbs c) \<inter> export_verbs EqualGRI exportClaims c"

text \<open>The loop over the binding's claims: whether it reaches the delegate.\<close>

fun claim_grants ::
    "(PermissionClaim \<Rightarrow> PermissionClaim \<Rightarrow> bool) \<Rightarrow> PermissionClaim list \<Rightarrow>
     AcceptablePermissionClaim list \<Rightarrow> attributes \<Rightarrow> bool" where
  "claim_grants EqualGRI exportClaims [] attr = False"
| "claim_grants EqualGRI exportClaims (permissionClaim # rest) attr =
     (if ac_State permissionClaim \<noteq> ClaimAccepted
      then claim_grants EqualGRI exportClaims rest attr
      else if pc_Group (ac_Claim permissionClaim) = at_APIGroup attr
            \<and> pc_Resource (ac_Claim permissionClaim) = at_Resource attr
      then (let allowedVerbs = allowed_verbs EqualGRI exportClaims (ac_Claim permissionClaim)
            in if \<not> (at_Verb attr \<in> allowedVerbs \<or> wildcardVerb \<in> allowedVerbs)
               then claim_grants EqualGRI exportClaims rest attr
               else True)
      else claim_grants EqualGRI exportClaims rest attr)"

text \<open>The part of \<open>Authorize\<close> after the binding was found.\<close>

definition bound_decide ::
    "(PermissionClaim \<Rightarrow> PermissionClaim \<Rightarrow> bool) \<Rightarrow> boundAPIAuthorizer \<Rightarrow> apiexport \<Rightarrow>
     APIBinding \<Rightarrow> authorizer" where
  "bound_decide EqualGRI a apiExport apiBinding ctx attr =
     (if bound_resource apiBinding (at_APIGroup attr) (at_Resource attr)
      then ba_delegate a ctx attr
      else if claim_grants EqualGRI (ex_PermissionClaims apiExport)
                (bi_PermissionClaims apiBinding) attr
      then ba_delegate a ctx attr
      else if at_APIGroup attr = gr_Group apibindings_resource
            \<and> at_Resource attr = gr_Resource apibindings_resource
      then (if at_Verb attr \<notin> set readOnlyVerbs
            then (DecisionNoOpinion,
                  Str ''write access to APIBinding is not allowed from virtual workspace'', None)
            else ba_delegate a ctx attr)
      else (DecisionDeny,
            Str ''failed to find suitable reason to allow access in APIBinding'', None))"

definition bound_Authorize ::
    "(PermissionClaim \<Rightarrow> PermissionClaim \<Rightarrow> bool) \<Rightarrow> boundAPIAuthorizer \<Rightarrow> authorizer" where
  "bound_Authorize EqualGRI a ctx attr =
     (case ctx_Cluster ctx of
        Inl err \<Rightarrow> (DecisionNoOpinion, Str '''',
                    Some (Wrap ''error getting valid cluster from context: %w'' [] err))
      | Inr targetCluster \<Rightarrow>
          if cl_Wildcard targetCluster \<or> at_Resource attr = '''' then ba_delegate a ctx attr
          else (case domain_key_parts (ctx_DomainKey ctx) of
             None \<Rightarrow> (DecisionNoOpinion, Str '''', Some (Err (Str ''invalid API domain key'')))
           | Some (esCluster, esName) \<Rightarrow>
          (case ba_getFilteredAPIExportEndpointSlice a esCluster esName of
             Inl err \<Rightarrow>
               if IsNotFound err
               then (DecisionNoOpinion, Str '''',
                     Some (Wrap ''FilteredAPIExportEndpointSlice not found: %w'' [] err))
               else (DecisionNoOpinion, Str '''', Some err)
           | Inr es \<Rightarrow>
          (case ba_getAPIExport a (ref_Path (APIExport (Spec es))) (ref_Name (APIExport (Spec es))) of
             Inl err \<Rightarrow>
               if IsNotFound err
               then (DecisionNoOpinion, Str '''', Some (Wrap ''APIExport not found: %w'' [] err))
               else (DecisionNoOpinion, Str '''', Some err)
           | Inr apiExport \<Rightarrow>
          (case ba_getAPIBindingByExport a (cl_Name targetCluster) (ex_Name apiExport)
                  (ref_Path (APIExport (Spec es))) of
             Inl err \<Rightarrow> (DecisionDeny,
               Str ''could not find suitable APIBinding in target logical cluster'', None)
           | Inr apiBinding \<Rightarrow> bound_decide EqualGRI a apiExport apiBinding ctx attr)))))"

section \<open>What the authorizer lets through\<close>

text \<open>The consumer accepted a claim for the resource, and both sides grant the verb.\<close>

definition claim_accepted_for ::
    "(PermissionClaim \<Rightarrow> PermissionClaim \<Rightarrow> bool) \<Rightarrow> apiexport \<Rightarrow> APIBinding \<Rightarrow> attributes \<Rightarrow> bool" where
  "claim_accepted_for EqualGRI apiExport apiBinding attr \<longleftrightarrow>
     (\<exists>c \<in> set (bi_PermissionClaims apiBinding).
        ac_State c = ClaimAccepted
        \<and> pc_Group (ac_Claim c) = at_APIGroup attr \<and> pc_Resource (ac_Claim c) = at_Resource attr
        \<and> (\<exists>v \<in> {at_Verb attr, wildcardVerb}.
              v \<in> set (pc_Verbs (ac_Claim c))
              \<and> v \<in> export_verbs EqualGRI (ex_PermissionClaims apiExport) (ac_Claim c)))"

lemma claim_grants_iff:
  "claim_grants EqualGRI (ex_PermissionClaims x) (bi_PermissionClaims b) attr
     \<longleftrightarrow> claim_accepted_for EqualGRI x b attr"
proof -
  have "claim_grants EqualGRI ec cs attr \<longleftrightarrow>
     (\<exists>c \<in> set cs. ac_State c = ClaimAccepted
        \<and> pc_Group (ac_Claim c) = at_APIGroup attr \<and> pc_Resource (ac_Claim c) = at_Resource attr
        \<and> (at_Verb attr \<in> allowed_verbs EqualGRI ec (ac_Claim c)
            \<or> wildcardVerb \<in> allowed_verbs EqualGRI ec (ac_Claim c)))" for ec cs
    by (induction EqualGRI ec cs attr rule: claim_grants.induct) (auto simp: Let_def)
  then show ?thesis
    by (auto simp: claim_accepted_for_def allowed_verbs_def)
qed

text \<open>The binding covers the request.\<close>

definition binding_covers ::
    "(PermissionClaim \<Rightarrow> PermissionClaim \<Rightarrow> bool) \<Rightarrow> apiexport \<Rightarrow> APIBinding \<Rightarrow> attributes \<Rightarrow> bool" where
  "binding_covers EqualGRI apiExport apiBinding attr \<longleftrightarrow>
     (\<exists>x \<in> set (bi_BoundResources apiBinding).
        gr_Group x = at_APIGroup attr \<and> gr_Resource x = at_Resource attr)
     \<or> claim_accepted_for EqualGRI apiExport apiBinding attr
     \<or> (at_APIGroup attr = ''apis.kcp.io'' \<and> at_Resource attr = ''apibindings''
        \<and> at_Verb attr \<in> {''get'', ''list'', ''watch''})"

text \<open>The condition of this link over the listers it was built from.\<close>

definition bound_ok ::
    "(PermissionClaim \<Rightarrow> PermissionClaim \<Rightarrow> bool) \<Rightarrow> slice getter \<Rightarrow> binding_lister \<Rightarrow>
     apiexport getter \<Rightarrow> req_ctx \<Rightarrow> attributes \<Rightarrow> bool" where
  "bound_ok EqualGRI slices bindings exports ctx attr \<longleftrightarrow>
     (\<exists>target. ctx_Cluster ctx = Inr target \<and>
        (cl_Wildcard target \<or> at_Resource attr = '''' \<or>
         (\<exists>esCluster esName es x bs b.
            domain_key_parts (ctx_DomainKey ctx) = Some (esCluster, esName)
            \<and> slices esCluster esName = Inr es
            \<and> exports (ref_Path (APIExport (Spec es))) (ref_Name (APIExport (Spec es))) = Inr x
            \<and> bindings (cl_Name target) = Inr bs
            \<and> first_binding (ex_Name x) (ref_Path (APIExport (Spec es))) bs = Some b
            \<and> binding_covers EqualGRI x b attr)))"

lemma bound_decide_covers:
  "binding_covers EqualGRI x b attr \<Longrightarrow> bound_decide EqualGRI a x b ctx attr = ba_delegate a ctx attr"
  by (auto simp: bound_decide_def binding_covers_def bound_resource_iff
      claim_grants_iff apibindings_resource_def readOnlyVerbs_def)

lemma bound_decide_not_covers:
  "\<not> binding_covers EqualGRI x b attr \<Longrightarrow> \<not> allows (bound_decide EqualGRI a x b ctx attr)"
  by (auto simp: bound_decide_def binding_covers_def bound_resource_iff
      claim_grants_iff apibindings_resource_def readOnlyVerbs_def)

lemma bound_passes:
  assumes "bound_ok EqualGRI slices bindings exports ctx attr"
  shows "bound_Authorize EqualGRI (NewBoundAPIAuthorizer d slices bindings exports) ctx attr
     = d ctx attr"
  using assms
  by (auto simp: bound_ok_def bound_Authorize_def NewBoundAPIAuthorizer_def
      bound_getAPIBindingByExport_def bound_decide_covers)

lemma bound_blocks:
  assumes "\<not> bound_ok EqualGRI slices bindings exports ctx attr"
  shows "\<not> allows (bound_Authorize EqualGRI (NewBoundAPIAuthorizer d slices bindings exports) ctx attr)"
  using assms
  by (auto simp: bound_ok_def bound_Authorize_def NewBoundAPIAuthorizer_def
      bound_getAPIBindingByExport_def split: sum.splits option.splits
      dest: bound_decide_not_covers)

interpretation bound: exact_gate
  "\<lambda>d. bound_Authorize EqualGRI (NewBoundAPIAuthorizer d slices bindings exports)"
  "bound_ok EqualGRI slices bindings exports"
  for EqualGRI slices bindings exports
  by unfold_locales (auto simp: bound_passes dest: bound_blocks)

section \<open>Properties\<close>

text \<open>
  C9: The bound API authorizer allows a request exactly when it is a wildcard or non-resource
  request, or the slice, its export and a binding of that export in the target cluster are
  found and the binding covers the resource (bound, claimed with a verb both sides grant, or
  apibindings read-only), and the delegate allows it.
\<close>

theorem bound_allows_iff:
  "allows (bound_Authorize EqualGRI (NewBoundAPIAuthorizer d slices bindings exports) ctx attr)
     \<longleftrightarrow> bound_ok EqualGRI slices bindings exports ctx attr \<and> allows (d ctx attr)"
  by (rule bound.allows_iff)

lemma bound_decide_error:
  "bound_decide EqualGRI a x b ctx attr = (dec, reason, Some err) \<Longrightarrow>
     ba_delegate a ctx attr = (dec, reason, Some err)"
  by (auto simp: bound_decide_def split: if_splits)

text \<open>
  An error of this link itself never comes with an allowing decision.
\<close>

theorem bound_errors_never_allow:
  "bound_Authorize EqualGRI (NewBoundAPIAuthorizer d slices bindings exports) ctx attr
     = (dec, reason, Some err) \<Longrightarrow>
   dec = DecisionNoOpinion \<or> d ctx attr = (dec, reason, Some err)"
  by (auto simp: bound_Authorize_def NewBoundAPIAuthorizer_def
      split: sum.splits option.splits if_splits) (drule bound_decide_error, simp)

theorem bound_errors_never_allow_witness:
  "bound_Authorize w_EqualGRI (NewBoundAPIAuthorizer (\<lambda>c a. (DecisionAllow, Str ''ok'', None))
       w_slices w_bindings w_exports) (w_ctx\<lparr>ctx_DomainKey := ''prov''\<rparr>)
       (w_attr ''get'' '''' ''configmaps'')
     = (DecisionNoOpinion, Str '''', Some (Err (Str ''invalid API domain key'')))
   \<and> DecisionNoOpinion \<noteq> DecisionAllow"
proof -
  let ?v = "bound_Authorize w_EqualGRI (NewBoundAPIAuthorizer (\<lambda>c a. (DecisionAllow, Str ''ok'', None))
       w_slices w_bindings w_exports) (w_ctx\<lparr>ctx_DomainKey := ''prov''\<rparr>)
       (w_attr ''get'' '''' ''configmaps'')"
  obtain dec where v: "?v = (dec, Str '''', Some (Err (Str ''invalid API domain key'')))"
    by (simp add: bound_Authorize_def w_ctx_def w_attr_def domain_key_parts_def)
  from bound_errors_never_allow [OF v] v show ?thesis by auto
qed

text \<open>
  A write to apibindings of apis.kcp.io in a concrete cluster is never allowed unless the
  binding binds or claims that resource with the verb.
\<close>

theorem apibindings_read_only:
  assumes "ctx_Cluster ctx = Inr target" and "\<not> cl_Wildcard target"
    and "at_APIGroup attr = ''apis.kcp.io''" and "at_Resource attr = ''apibindings''"
    and "at_Verb attr \<notin> {''get'', ''list'', ''watch''}"
    and "\<And>c bs b. bindings c = Inr bs \<Longrightarrow> Some b \<in> set bs \<Longrightarrow>
           \<not> bound_resource b (at_APIGroup attr) (at_Resource attr)
           \<and> (\<forall>x. \<not> claim_accepted_for EqualGRI x b attr)"
  shows "\<not> allows (bound_Authorize EqualGRI (NewBoundAPIAuthorizer d slices bindings exports) ctx attr)"
proof -
  have "\<not> bound_ok EqualGRI slices bindings exports ctx attr"
    using assms
    by (fastforce simp: bound_ok_def binding_covers_def bound_resource_iff dest: first_binding_SomeD)
  then show ?thesis by (rule bound.not_ok_blocks)
qed

theorem apibindings_read_only_witness:
  "\<not> allows (bound_Authorize w_EqualGRI
      (NewBoundAPIAuthorizer (\<lambda>c a. (DecisionAllow, Str ''ok'', None)) w_slices w_bindings w_exports)
      w_ctx (w_attr ''delete'' ''apis.kcp.io'' ''apibindings''))"
proof -
  have "\<not> bound_resource b ''apis.kcp.io'' ''apibindings''
      \<and> (\<forall>x. \<not> claim_accepted_for w_EqualGRI x b (w_attr ''delete'' ''apis.kcp.io'' ''apibindings''))"
    if "w_bindings c = Inr bs" "Some b \<in> set bs" for c bs b
  proof -
    have "b = w_binding" using that by (auto simp: w_bindings_def split: if_splits)
    then show ?thesis
      by (simp add: w_binding_def bound_resource_def claim_accepted_for_def w_attr_def
          w_configmaps_def w_gadgets_def)
  qed
  then show ?thesis
    by (intro apibindings_read_only [where target = "\<lparr>cl_Name = ''cons'', cl_Wildcard = False\<rparr>"])
       (simp_all add: w_ctx_def w_attr_def)
qed

end
