(* ===== verification/Content_Authorizer.thy ===== *)
theory Content_Authorizer
  imports Authz Examples
begin

text \<open>
  \<open>authorizer/content.go\<close>: the user must be allowed the verb on the \<open>content\<close>
  subresource of the endpoint slice, in the slice's own cluster. The delegated authorizer of
  a cluster (a SubjectAccessReview) is a parameter, \<open>newDelegatedAuthorizer\<close>.
\<close>

record filteredAPIExportsContentAuthorizer =
  ca_newDelegatedAuthorizer :: "string \<Rightarrow> go_error + authorizer"
  ca_delegate :: authorizer

definition NewFilteredAPIExportsContentAuthorizer ::
    "authorizer \<Rightarrow> (string \<Rightarrow> go_error + authorizer) \<Rightarrow> filteredAPIExportsContentAuthorizer" where
  "NewFilteredAPIExportsContentAuthorizer delegate newDelegatedAuthorizer =
     \<lparr>ca_newDelegatedAuthorizer = newDelegatedAuthorizer, ca_delegate = delegate\<rparr>"

text \<open>The attributes of the access review; the fields the source leaves out are empty.\<close>

definition SARAttributes :: "string \<Rightarrow> attributes \<Rightarrow> attributes" where
  "SARAttributes esName attr =
     \<lparr>at_User = at_User attr, at_Verb = at_Verb attr, at_Namespace = '''',
      at_APIGroup = GroupName, at_APIVersion = GroupVersion,
      at_Resource = ''filteredapiexportendpointslices'', at_Subresource = ''content'',
      at_Name = esName, at_ResourceRequest = True, at_Path = ''''\<rparr>"

definition content_Authorize :: "filteredAPIExportsContentAuthorizer \<Rightarrow> authorizer" where
  "content_Authorize a ctx attr =
     (case domain_key_parts (ctx_DomainKey ctx) of
        None \<Rightarrow> (DecisionNoOpinion, Str '''', Some (Err (Str ''invalid API domain key'')))
      | Some (esCluster, esName) \<Rightarrow>
     (case ca_newDelegatedAuthorizer a esCluster of
        Inl err \<Rightarrow> (DecisionNoOpinion, Str '''',
          Some (Wrap ''error creating delegated authorizer for FilteredAPIExportEndpointSlice %q, workspace %q: %w''
                  [Str esName, Str esCluster] err))
      | Inr authz \<Rightarrow>
     (case authz ctx (SARAttributes esName attr) of
        (dec, reason, Some err) \<Rightarrow> (DecisionNoOpinion, Str '''',
          Some (Wrap ''error authorizing RBAC in FilteredAPIExportEndpointSlice %q, workspace %q: %w''
                  [Str esName, Str esCluster] err))
      | (dec, reason, None) \<Rightarrow>
          if dec = DecisionAllow then ca_delegate a ctx attr
          else (dec, Sprintf ''FilteredAPIExportEndpointSlice: %q, workspace: %q RBAC decision: %v''
                       [Str esName, Str esCluster, reason], None))))"

section \<open>What the authorizer lets through\<close>

definition content_ok ::
    "(string \<Rightarrow> go_error + authorizer) \<Rightarrow> req_ctx \<Rightarrow> attributes \<Rightarrow> bool" where
  "content_ok newAuthz ctx attr \<longleftrightarrow>
     (\<exists>esCluster esName authz reason.
        domain_key_parts (ctx_DomainKey ctx) = Some (esCluster, esName)
        \<and> newAuthz esCluster = Inr authz
        \<and> authz ctx (SARAttributes esName attr) = (DecisionAllow, reason, None))"

lemma content_passes:
  "content_ok newAuthz ctx attr \<Longrightarrow>
     content_Authorize (NewFilteredAPIExportsContentAuthorizer d newAuthz) ctx attr = d ctx attr"
  by (auto simp: content_ok_def content_Authorize_def NewFilteredAPIExportsContentAuthorizer_def)

lemma content_blocks:
  "\<not> content_ok newAuthz ctx attr \<Longrightarrow>
     \<not> allows (content_Authorize (NewFilteredAPIExportsContentAuthorizer d newAuthz) ctx attr)"
  by (auto simp: content_ok_def content_Authorize_def NewFilteredAPIExportsContentAuthorizer_def
      split: sum.splits option.splits prod.splits)

interpretation content: exact_gate
  "\<lambda>d. content_Authorize (NewFilteredAPIExportsContentAuthorizer d newAuthz)"
  "content_ok newAuthz"
  for newAuthz
  by unfold_locales (auto simp: content_passes dest: content_blocks)

text \<open>
  The review never depends on what is accessed beyond the verb: two requests of one user
  with one verb are reviewed alike.
\<close>

lemma content_ok_verb_only:
  "at_User a = at_User b \<Longrightarrow> at_Verb a = at_Verb b \<Longrightarrow>
     content_ok newAuthz ctx a \<longleftrightarrow> content_ok newAuthz ctx b"
  by (simp add: content_ok_def SARAttributes_def)

section \<open>Properties\<close>

text \<open>
  The content authorizer allows a request exactly when the delegated authorizer of the slice
  cluster allows the content subresource of the slice for the same user and verb, and the
  delegate allows the request.
\<close>

theorem content_allows_iff:
  "allows (content_Authorize (NewFilteredAPIExportsContentAuthorizer d newAuthz) ctx attr)
     \<longleftrightarrow> content_ok newAuthz ctx attr \<and> allows (d ctx attr)"
  by (rule content.allows_iff)

text \<open>
  A refusal of the content authorizer is the decision of the review, with its reason.
\<close>

theorem content_refusal_is_the_review:
  assumes "domain_key_parts (ctx_DomainKey ctx) = Some (c, n)" and "newAuthz c = Inr authz"
    and "authz ctx (SARAttributes n attr) = (dec, reason, None)" and "dec \<noteq> DecisionAllow"
  shows "content_Authorize (NewFilteredAPIExportsContentAuthorizer d newAuthz) ctx attr
     = (dec, Sprintf ''FilteredAPIExportEndpointSlice: %q, workspace: %q RBAC decision: %v''
               [Str n, Str c, reason], None)"
  using assms by (simp add: content_Authorize_def NewFilteredAPIExportsContentAuthorizer_def)

theorem content_refusal_is_the_review_witness:
  "fst (content_Authorize (NewFilteredAPIExportsContentAuthorizer
      (\<lambda>c a. (DecisionAllow, Str ''ok'', None)) w_no) w_ctx (w_attr ''get'' '''' ''configmaps''))
     = DecisionNoOpinion"
  by (subst content_refusal_is_the_review [where c = "''prov''" and n = "''es''"])
     (auto simp: w_ctx_def w_no_def)

end
