(* ===== verification/Maximal_Permission.thy ===== *)
theory Maximal_Permission
  imports Authz Examples
begin

text \<open>
  \<open>authorizer/maximal_permission_policy.go\<close>: for a resource the export claims from other
  exports, every export with the claimed identity and a local maximal permission policy must
  grant the request to the prefixed user. Parameters: the listers, the index of exports by
  identity, the deep access review of a cluster, and the RBAC prefix (a kcp constant).
\<close>

record maximalPermissionAuthorizer =
  ma_getFilteredAPIExportEndpointSlice :: "slice getter"
  ma_getAPIExport :: "apiexport getter"
  ma_newDeepSARAuthorizer :: "string \<Rightarrow> go_error + authorizer"
  ma_getAPIExportsByIdentity :: "string \<Rightarrow> go_error + apiexport list"

definition NewMaximalPermissionAuthorizer ::
    "(string \<Rightarrow> go_error + authorizer) \<Rightarrow> slice getter \<Rightarrow> apiexport getter \<Rightarrow>
     (string \<Rightarrow> go_error + apiexport list) \<Rightarrow> maximalPermissionAuthorizer" where
  "NewMaximalPermissionAuthorizer newDeepSAR filteredAPIExportESLister apiExportLister byIdentity =
     \<lparr>ma_getFilteredAPIExportEndpointSlice = filteredAPIExportESLister,
      ma_getAPIExport = apiExportLister,
      ma_newDeepSARAuthorizer = newDeepSAR,
      ma_getAPIExportsByIdentity = byIdentity\<rparr>"

fun claimed_identity :: "PermissionClaim list \<Rightarrow> attributes \<Rightarrow> string option" where
  "claimed_identity [] attr = None"
| "claimed_identity (c # cs) attr =
     (if pc_Resource c = at_Resource attr \<and> pc_Group c = at_APIGroup attr
      then Some (pc_IdentityHash c) else claimed_identity cs attr)"

definition getClaimedIdentity :: "apiexport \<Rightarrow> attributes \<Rightarrow> string option" where
  "getClaimedIdentity apiExport attr = claimed_identity (ex_PermissionClaims apiExport) attr"

definition prefixAttributes :: "string \<Rightarrow> attributes \<Rightarrow> attributes" where
  "prefixAttributes pre attr =
     \<lparr>at_User = \<lparr>us_Name = pre @ us_Name (at_User attr), us_UID = us_UID (at_User attr),
                 us_Groups = map (\<lambda>g. pre @ g) (us_Groups (at_User attr)),
                 us_Extra = us_Extra (at_User attr)\<rparr>,
      at_Verb = at_Verb attr, at_Namespace = at_Namespace attr,
      at_APIGroup = at_APIGroup attr, at_APIVersion = at_APIVersion attr,
      at_Resource = at_Resource attr, at_Subresource = at_Subresource attr,
      at_Name = at_Name attr, at_ResourceRequest = at_ResourceRequest attr,
      at_Path = at_Path attr\<rparr>"

text \<open>The loop over the exports that provide the claimed resource.\<close>

fun check_policies ::
    "string \<Rightarrow> (string \<Rightarrow> go_error + authorizer) \<Rightarrow> apiexport list \<Rightarrow> authorizer" where
  "check_policies pre newDeepSAR [] ctx attr =
     (DecisionAllow, Str ''all claimed APIExports granted access'', None)"
| "check_policies pre newDeepSAR (x # xs) ctx attr =
     (if ex_MaximalPermissionPolicyLocal x \<noteq> Some True
      then check_policies pre newDeepSAR xs ctx attr
      else (case newDeepSAR (ex_Cluster x) of
        Inl err \<Rightarrow> (DecisionNoOpinion, Str '''',
          Some (Wrap ''error executing deep SAR in APIExport name: %q, workspace: %q: %w''
                  [Str (ex_Name x), Str (ex_Cluster x)] err))
      | Inr authz \<Rightarrow>
      (case authz ctx (prefixAttributes pre attr) of
        (dec, reason, Some err) \<Rightarrow> (DecisionNoOpinion, Str '''',
          Some (Wrap ''error authorizing against APIExport name: %q, workspace: %q: %w''
                  [Str (ex_Name x), Str (ex_Cluster x)] err))
      | (dec, reason, None) \<Rightarrow>
          if dec \<noteq> DecisionAllow
          then (DecisionNoOpinion, Sprintf ''APIExport: %q, workspace: %q RBAC decision: %v''
                  [Str (ex_Name x), Str (ex_Cluster x), reason], None)
          else check_policies pre newDeepSAR xs ctx attr)))"

definition maximal_Authorize :: "string \<Rightarrow> maximalPermissionAuthorizer \<Rightarrow> authorizer" where
  "maximal_Authorize pre a ctx attr =
     (case domain_key_parts (ctx_DomainKey ctx) of
        None \<Rightarrow> (DecisionNoOpinion, Str '''', Some (Err (Str ''invalid API domain key'')))
      | Some (esCluster, esName) \<Rightarrow>
     (case ma_getFilteredAPIExportEndpointSlice a esCluster esName of
        Inl err \<Rightarrow>
          if IsNotFound err
          then (DecisionNoOpinion, Str '''',
                Some (Wrap ''FilteredAPIExportEndpointSlice not found: %w'' [] err))
          else (DecisionNoOpinion, Str '''', Some err)
      | Inr es \<Rightarrow>
     (case ma_getAPIExport a (ref_Path (APIExport (Spec es))) (ref_Name (APIExport (Spec es))) of
        Inl err \<Rightarrow>
          if IsNotFound err
          then (DecisionNoOpinion, Str '''', Some (Wrap ''APIExport not found: %w'' [] err))
          else (DecisionNoOpinion, Str '''', Some err)
      | Inr claiming \<Rightarrow>
     (case getClaimedIdentity claiming attr of
        None \<Rightarrow> (DecisionAllow, Sprintf ''unclaimed resource in APIExport: %q, workspace :%q''
                   [Str (ex_Name claiming), Str (ex_Cluster claiming)], None)
      | Some claimedIdentityHash \<Rightarrow>
          if claimedIdentityHash = ''''
          then (DecisionAllow,
                Sprintf ''unclaimable resource, identity hash not set in claiming APIExport: %q, workspace :%q''
                  [Str (ex_Name claiming), Str (ex_Cluster claiming)], None)
          else (case ma_getAPIExportsByIdentity a claimedIdentityHash of
             Inl err \<Rightarrow> (DecisionNoOpinion, Str '''',
               Some (Wrap ''error getting APIExport identity: %q: %w'' [Str claimedIdentityHash] err))
           | Inr exports \<Rightarrow>
               if exports = []
               then (DecisionDeny,
                     Sprintf ''no APIExport providing claimed resources found for identity hash: %q''
                       [Str claimedIdentityHash], None)
               else check_policies pre (ma_newDeepSARAuthorizer a) exports ctx attr)))))"

section \<open>What the authorizer allows\<close>

text \<open>One export's policy: absent (or without a local part), or its review allows.\<close>

definition policy_grants ::
    "string \<Rightarrow> (string \<Rightarrow> go_error + authorizer) \<Rightarrow> req_ctx \<Rightarrow> attributes \<Rightarrow> apiexport \<Rightarrow> bool" where
  "policy_grants pre newDeepSAR ctx attr x \<longleftrightarrow>
     ex_MaximalPermissionPolicyLocal x \<noteq> Some True
     \<or> (\<exists>authz reason. newDeepSAR (ex_Cluster x) = Inr authz
          \<and> authz ctx (prefixAttributes pre attr) = (DecisionAllow, reason, None))"

lemma check_policies_allows_iff:
  "allows (check_policies pre newDeepSAR xs ctx attr)
     \<longleftrightarrow> (\<forall>x \<in> set xs. policy_grants pre newDeepSAR ctx attr x)"
  by (induction pre newDeepSAR xs ctx attr rule: check_policies.induct)
     (auto simp: policy_grants_def split: sum.splits option.splits prod.splits)

lemma check_policies_never_denies:
  "fst (check_policies pre newDeepSAR xs ctx attr) \<noteq> DecisionDeny"
  by (induction pre newDeepSAR xs ctx attr rule: check_policies.induct)
     (auto split: sum.splits option.splits prod.splits)

lemma check_policies_error_no_opinion:
  "check_policies pre newDeepSAR xs ctx attr = (dec, reason, Some err) \<Longrightarrow> dec = DecisionNoOpinion"
  by (induction pre newDeepSAR xs ctx attr rule: check_policies.induct)
     (auto split: if_splits sum.splits option.splits prod.splits)

definition maximal_ok :: "string \<Rightarrow> maximalPermissionAuthorizer \<Rightarrow> req_ctx \<Rightarrow> attributes \<Rightarrow> bool" where
  "maximal_ok pre a ctx attr \<longleftrightarrow>
     (\<exists>esCluster esName es claiming.
        domain_key_parts (ctx_DomainKey ctx) = Some (esCluster, esName)
        \<and> ma_getFilteredAPIExportEndpointSlice a esCluster esName = Inr es
        \<and> ma_getAPIExport a (ref_Path (APIExport (Spec es))) (ref_Name (APIExport (Spec es)))
            = Inr claiming
        \<and> (getClaimedIdentity claiming attr \<in> {None, Some ''''}
            \<or> (\<exists>hash exports. getClaimedIdentity claiming attr = Some hash
                 \<and> ma_getAPIExportsByIdentity a hash = Inr exports \<and> exports \<noteq> []
                 \<and> (\<forall>x \<in> set exports.
                       policy_grants pre (ma_newDeepSARAuthorizer a) ctx attr x))))"

lemma maximal_allows_iff:
  "allows (maximal_Authorize pre a ctx attr) \<longleftrightarrow> maximal_ok pre a ctx attr"
  by (auto simp: maximal_Authorize_def maximal_ok_def check_policies_allows_iff
      split: sum.splits option.splits if_splits)

lemma maximal_error_no_opinion:
  "maximal_Authorize pre a ctx attr = (dec, reason, Some err) \<Longrightarrow> dec = DecisionNoOpinion"
  by (auto simp: maximal_Authorize_def dest: check_policies_error_no_opinion
      split: sum.splits option.splits if_splits)

text \<open>A review of the prefixed request can be answered only by rules for prefixed subjects.\<close>

lemma prefixAttributes_subjects:
  "HasPrefix (us_Name (at_User (prefixAttributes pre attr))) pre"
  "g \<in> set (us_Groups (at_User (prefixAttributes pre attr))) \<Longrightarrow> HasPrefix g pre"
  by (auto simp: prefixAttributes_def)

lemma prefixAttributes_inj: "prefixAttributes pre a = prefixAttributes pre b \<Longrightarrow> a = b"
proof -
  assume eq: "prefixAttributes pre a = prefixAttributes pre b"
  have "map (\<lambda>g. pre @ g) (us_Groups (at_User a)) = map (\<lambda>g. pre @ g) (us_Groups (at_User b))"
    using eq by (simp add: prefixAttributes_def)
  then have "us_Groups (at_User a) = us_Groups (at_User b)"
    by (rule inj_map_eq_map [THEN iffD1, rotated]) (simp add: inj_on_def)
  with eq show "a = b"
    by (simp add: prefixAttributes_def)
qed

section \<open>Properties\<close>

text \<open>
  C10: The maximal permission policy authorizer allows a request exactly when the resource is
  not claimed under an identity, or the exports that provide the claimed identity are known,
  are not empty, and every one of them grants the request by its policy.
\<close>

theorem maximal_allows_iff_policies:
  "allows (maximal_Authorize pre (NewMaximalPermissionAuthorizer newSAR slices exports byIdentity) ctx attr)
     \<longleftrightarrow> (\<exists>c n es claiming.
            domain_key_parts (ctx_DomainKey ctx) = Some (c, n) \<and> slices c n = Inr es
            \<and> exports (ref_Path (APIExport (Spec es))) (ref_Name (APIExport (Spec es))) = Inr claiming
            \<and> (getClaimedIdentity claiming attr \<in> {None, Some ''''}
               \<or> (\<exists>hash providers. getClaimedIdentity claiming attr = Some hash
                    \<and> byIdentity hash = Inr providers \<and> providers \<noteq> []
                    \<and> (\<forall>x \<in> set providers. policy_grants pre newSAR ctx attr x))))"
  unfolding maximal_allows_iff
  by (simp add: maximal_ok_def NewMaximalPermissionAuthorizer_def)

theorem maximal_allows_iff_policies_witness:
  "allows (maximal_Authorize ''p:'' (NewMaximalPermissionAuthorizer w_yes w_slices w_exports w_byIdentity)
     w_ctx (w_attr ''get'' ''gadgets.io'' ''gadgets''))
   \<and> \<not> allows (maximal_Authorize ''p:'' (NewMaximalPermissionAuthorizer w_no w_slices w_exports w_byIdentity)
     w_ctx (w_attr ''get'' ''gadgets.io'' ''gadgets''))"
proof -
  have id: "getClaimedIdentity w_export (w_attr ''get'' ''gadgets.io'' ''gadgets'') = Some ''gid''"
    by (simp add: getClaimedIdentity_def w_export_def w_configmaps_def w_gadgets_def w_attr_def)
  have at: "domain_key_parts (ctx_DomainKey w_ctx) = Some (''prov'', ''es'')"
      "w_slices ''prov'' ''es'' = Inr w_slice"
      "w_exports (ref_Path (APIExport (Spec w_slice))) (ref_Name (APIExport (Spec w_slice))) = Inr w_export"
      "w_byIdentity ''gid'' = Inr [w_gadget_export]"
    by (simp_all add: w_ctx_def w_slices_def w_slice_def w_exports_def w_byIdentity_def)
  have grants: "policy_grants ''p:'' w_yes ctx a w_gadget_export" "\<not> policy_grants ''p:'' w_no ctx a w_gadget_export"
    for ctx a
    by (simp_all add: policy_grants_def w_yes_def w_no_def w_gadget_export_def)
  show ?thesis
    unfolding maximal_allows_iff_policies using id at grants by simp
qed

text \<open>
  The policy authorizer denies outright exactly when the resource is claimed under an identity
  that no known export provides; every other refusal is no opinion.
\<close>

theorem maximal_deny_iff:
  "fst (maximal_Authorize pre (NewMaximalPermissionAuthorizer newSAR slices exports byIdentity) ctx attr)
       = DecisionDeny
     \<longleftrightarrow> (\<exists>c n es claiming hash.
            domain_key_parts (ctx_DomainKey ctx) = Some (c, n) \<and> slices c n = Inr es
            \<and> exports (ref_Path (APIExport (Spec es))) (ref_Name (APIExport (Spec es))) = Inr claiming
            \<and> getClaimedIdentity claiming attr = Some hash \<and> hash \<noteq> '''' \<and> byIdentity hash = Inr [])"
  using check_policies_never_denies
  by (auto simp: maximal_Authorize_def NewMaximalPermissionAuthorizer_def
      split: sum.splits option.splits if_splits)

text \<open>
  C19: The policies are reviewed for a user whose name and groups all carry the policy prefix:
  rights granted to an unprefixed name or group never make the policy check pass.
\<close>

theorem maximal_reviews_prefixed:
  assumes "x \<in> set xs" and "ex_MaximalPermissionPolicyLocal x = Some True"
    and "newSAR (ex_Cluster x) = Inr authz"
    and "\<And>ctx a. HasPrefix (us_Name (at_User a)) pre \<Longrightarrow>
           (\<And>g. g \<in> set (us_Groups (at_User a)) \<Longrightarrow> HasPrefix g pre) \<Longrightarrow>
           \<not> allows (authz ctx a)"
  shows "\<not> allows (check_policies pre newSAR xs ctx attr)"
proof -
  have "\<not> allows (authz ctx (prefixAttributes pre attr))"
    by (rule assms(4)) (rule prefixAttributes_subjects, assumption?)+
  then have "\<not> policy_grants pre newSAR ctx attr x"
    using assms(2,3) by (auto simp: policy_grants_def)
  with assms(1) show ?thesis by (auto simp: check_policies_allows_iff)
qed

theorem maximal_reviews_prefixed_witness:
  "\<not> allows (check_policies ''p:'' (\<lambda>c. Inr (\<lambda>ctx a.
       (if us_Name (at_User a) = ''alice'' then DecisionAllow else DecisionNoOpinion, Str '''', None)))
     [w_gadget_export] w_ctx (w_attr ''get'' ''gadgets.io'' ''gadgets''))"
  by (rule maximal_reviews_prefixed [where x = w_gadget_export, OF _ _ refl])
     (auto simp: w_gadget_export_def HasPrefix_def)

end
