(* ===== verification/Authorizer_Chain.thy ===== *)
theory Authorizer_Chain
  imports Bound_Authorizer Content_Authorizer Maximal_Permission
begin

text \<open>
  \<open>newAuthorizer\<close> of \<open>builder/build.go\<close>: the bound-API authorizer around the content
  authorizer around the maximal permission authorizer. Each link is decorated for auditing
  and anonymisation by kcp's \<open>authorization.NewDecorator\<close>, a parameter \<open>dec\<close> that takes
  the decorator's name and whether it adds a reason annotation.
\<close>

type_synonym decorator = "string \<Rightarrow> bool \<Rightarrow> authorizer \<Rightarrow> authorizer"

record chain_deps =
  cd_slices :: "slice getter"
  cd_bindings :: binding_lister
  cd_exports :: "apiexport getter"                        \<comment> \<open>\<open>cachedKcpInformers\<close>\<close>
  cd_exportsByIdentity :: "string \<Rightarrow> go_error + apiexport list"
  cd_newDelegatedAuthorizer :: "string \<Rightarrow> go_error + authorizer"  \<comment> \<open>on \<open>kubeClusterClient\<close>\<close>
  cd_newDeepSARAuthorizer :: "string \<Rightarrow> go_error + authorizer"    \<comment> \<open>on \<open>deepSARClient\<close>\<close>
  cd_EqualGRI :: "PermissionClaim \<Rightarrow> PermissionClaim \<Rightarrow> bool"
  cd_prefix :: string

definition newAuthorizer :: "decorator \<Rightarrow> chain_deps \<Rightarrow> authorizer" where
  "newAuthorizer dec k =
     (let maximalPermissionAuth =
            dec ''virtual.filtered-apiexport.maxpermissionpolicy.authorization.kcp.io'' True
              (maximal_Authorize (cd_prefix k)
                (NewMaximalPermissionAuthorizer (cd_newDeepSARAuthorizer k) (cd_slices k)
                  (cd_exports k) (cd_exportsByIdentity k)));
          apiExportsContentAuth =
            dec ''virtual.filtered-apiexport.content.authorization.kcp.io'' False
              (content_Authorize
                (NewFilteredAPIExportsContentAuthorizer maximalPermissionAuth
                  (cd_newDelegatedAuthorizer k)));
          boundApiAuth =
            dec ''virtual.filtered-apiexport.boundapi.authorization.kcp.io'' False
              (bound_Authorize (cd_EqualGRI k)
                (NewBoundAPIAuthorizer apiExportsContentAuth (cd_slices k) (cd_bindings k)
                  (cd_exports k)))
      in boundApiAuth)"

text \<open>What the chain relies on of the decorators: an \<open>Allow\<close> is the wrapped one's.\<close>

definition decorator_sound :: "decorator \<Rightarrow> bool" where
  "decorator_sound dec \<longleftrightarrow>
     (\<forall>name annotate v ctx a. allows (dec name annotate v ctx a) \<longrightarrow> allows (v ctx a))"

definition decorator_keeps :: "decorator \<Rightarrow> bool" where
  "decorator_keeps dec \<longleftrightarrow>
     (\<forall>name annotate v ctx a. allows (dec name annotate v ctx a) \<longleftrightarrow> allows (v ctx a))"

definition chain_ok :: "chain_deps \<Rightarrow> req_ctx \<Rightarrow> attributes \<Rightarrow> bool" where
  "chain_ok k ctx a \<longleftrightarrow>
     bound_ok (cd_EqualGRI k) (cd_slices k) (cd_bindings k) (cd_exports k) ctx a
     \<and> content_ok (cd_newDelegatedAuthorizer k) ctx a
     \<and> maximal_ok (cd_prefix k)
         (NewMaximalPermissionAuthorizer (cd_newDeepSARAuthorizer k) (cd_slices k)
           (cd_exports k) (cd_exportsByIdentity k)) ctx a"

lemma chain_sound:
  assumes dec: "decorator_sound dec" and al: "allows (newAuthorizer dec k ctx a)"
  shows "chain_ok k ctx a"
proof -
  have d: "\<And>name b v. allows (dec name b v ctx a) \<Longrightarrow> allows (v ctx a)"
    using dec by (simp add: decorator_sound_def)
  note b = bound.sound [OF d [OF al [unfolded newAuthorizer_def Let_def]]]
  note c = content.sound [OF d [OF b [THEN conjunct2]]]
  from b c show ?thesis
    by (auto simp: chain_ok_def maximal_allows_iff dest: d)
qed

lemma chain_complete:
  assumes "decorator_keeps dec" and "chain_ok k ctx a"
  shows "allows (newAuthorizer dec k ctx a)"
  using assms
  by (simp add: decorator_keeps_def newAuthorizer_def chain_ok_def bound.allows_iff
      content.allows_iff maximal_allows_iff)

section \<open>Properties\<close>

text \<open>The chain condition of a request to a concrete cluster, spelled out.\<close>

theorem chain_allows_sound:
  assumes "decorator_sound dec" and "allows (newAuthorizer dec k ctx attr)"
    and "ctx_Cluster ctx = Inr target" and "\<not> cl_Wildcard target" and "at_Resource attr \<noteq> ''''"
  shows "\<exists>c n es x bs b.
     domain_key_parts (ctx_DomainKey ctx) = Some (c, n) \<and> cd_slices k c n = Inr es
     \<and> cd_exports k (ref_Path (APIExport (Spec es))) (ref_Name (APIExport (Spec es))) = Inr x
     \<and> cd_bindings k (cl_Name target) = Inr bs \<and> Some b \<in> set bs
     \<and> bi_Export b = Some (ex_Name x) \<and> bi_APIExportClusterName b = ref_Path (APIExport (Spec es))
     \<and> binding_covers (cd_EqualGRI k) x b attr
     \<and> content_ok (cd_newDelegatedAuthorizer k) ctx attr
     \<and> (\<forall>hash providers. getClaimedIdentity x attr = Some hash \<longrightarrow> hash \<noteq> '''' \<longrightarrow>
          cd_exportsByIdentity k hash = Inr providers \<longrightarrow>
          (\<forall>p \<in> set providers. policy_grants (cd_prefix k) (cd_newDeepSARAuthorizer k) ctx attr p))"
proof -
  have ok: "chain_ok k ctx attr" using assms(1,2) by (rule chain_sound)
  then obtain c n es x bs b where b:
    "domain_key_parts (ctx_DomainKey ctx) = Some (c, n)" "cd_slices k c n = Inr es"
    "cd_exports k (ref_Path (APIExport (Spec es))) (ref_Name (APIExport (Spec es))) = Inr x"
    "cd_bindings k (cl_Name target) = Inr bs"
    "first_binding (ex_Name x) (ref_Path (APIExport (Spec es))) bs = Some b"
    "binding_covers (cd_EqualGRI k) x b attr"
    using assms(3-5) by (auto simp: chain_ok_def bound_ok_def)
  moreover have "Some b \<in> set bs \<and> bi_Export b = Some (ex_Name x)
      \<and> bi_APIExportClusterName b = ref_Path (APIExport (Spec es))"
    using first_binding_SomeD [OF b(5)] by (simp add: binding_matches_def)
  moreover have "content_ok (cd_newDelegatedAuthorizer k) ctx attr"
    using ok by (simp add: chain_ok_def)
  moreover have "\<forall>hash providers. getClaimedIdentity x attr = Some hash \<longrightarrow> hash \<noteq> '''' \<longrightarrow>
      cd_exportsByIdentity k hash = Inr providers \<longrightarrow>
      (\<forall>p \<in> set providers. policy_grants (cd_prefix k) (cd_newDeepSARAuthorizer k) ctx attr p)"
    using ok b(1-3) by (auto simp: chain_ok_def maximal_ok_def NewMaximalPermissionAuthorizer_def)
  ultimately show ?thesis by blast
qed

definition w_deps :: "(string \<Rightarrow> go_error + authorizer) \<Rightarrow> chain_deps" where
  "w_deps sar = \<lparr>cd_slices = w_slices, cd_bindings = w_bindings, cd_exports = w_exports,
     cd_exportsByIdentity = w_byIdentity, cd_newDelegatedAuthorizer = sar,
     cd_newDeepSARAuthorizer = sar, cd_EqualGRI = w_EqualGRI, cd_prefix = ''p:''\<rparr>"

lemma w_undecorated [simp]: "decorator_keeps (\<lambda>name b v. v)" "decorator_sound (\<lambda>name b v. v)"
  by (simp_all add: decorator_keeps_def decorator_sound_def)

lemma w_chain_ok: "chain_ok (w_deps w_yes) w_ctx (w_attr ''get'' '''' ''configmaps'')"
proof -
  have "first_binding ''exp'' ''prov'' [None, Some w_binding] = Some w_binding"
    by (simp add: binding_matches_def w_binding_def)
  moreover have "binding_covers w_EqualGRI w_export w_binding (w_attr ''get'' '''' ''configmaps'')"
    by (simp add: binding_covers_def claim_accepted_for_def w_binding_def w_export_def w_attr_def
        w_configmaps_def w_EqualGRI_def)
  ultimately have "bound_ok w_EqualGRI w_slices w_bindings w_exports w_ctx (w_attr ''get'' '''' ''configmaps'')"
    by (auto simp: bound_ok_def w_ctx_def w_slices_def w_exports_def w_bindings_def w_slice_def
        w_export_def)
  moreover have "content_ok w_yes w_ctx (w_attr ''get'' '''' ''configmaps'')"
    by (simp add: content_ok_def w_ctx_def w_yes_def)
  moreover have "maximal_ok ''p:'' (NewMaximalPermissionAuthorizer w_yes w_slices w_exports w_byIdentity)
      w_ctx (w_attr ''get'' '''' ''configmaps'')"
    by (simp add: maximal_ok_def NewMaximalPermissionAuthorizer_def w_ctx_def w_slices_def
        w_exports_def w_slice_def getClaimedIdentity_def w_export_def w_configmaps_def w_attr_def)
  ultimately show ?thesis by (simp add: chain_ok_def w_deps_def)
qed

theorem chain_allows_sound_witness:
  "\<exists>c n es x bs b. domain_key_parts w_key = Some (c, n) \<and> w_slices c n = Inr es
     \<and> w_bindings ''cons'' = Inr bs \<and> Some b \<in> set bs
     \<and> binding_covers w_EqualGRI x b (w_attr ''get'' '''' ''configmaps'')"
proof -
  let ?k = "w_deps w_yes" and ?a = "w_attr ''get'' '''' ''configmaps''"
  have "allows (newAuthorizer (\<lambda>name b v. v) ?k w_ctx ?a)"
    by (rule chain_complete [OF w_undecorated(1) w_chain_ok])
  then show ?thesis
    using chain_allows_sound [OF w_undecorated(2), of ?k w_ctx ?a "\<lparr>cl_Name = ''cons'', cl_Wildcard = False\<rparr>"]
    by (auto simp: w_deps_def w_ctx_def w_attr_def)
qed

text \<open>
  C2: The decision of the composed authorizers is exactly the conjunction of three independent
  conditions: the binding covers the request, the content review of the slice allows it, and
  the maximal permission policies of the claimed identity grant it.
\<close>

theorem chain_allows_iff:
  assumes "decorator_keeps dec"
  shows "allows (newAuthorizer dec k ctx attr) \<longleftrightarrow> chain_ok k ctx attr"
proof
  show "chain_ok k ctx attr" if "allows (newAuthorizer dec k ctx attr)"
    using that assms by (intro chain_sound) (auto simp: decorator_keeps_def decorator_sound_def)
qed (rule chain_complete [OF assms])

theorem chain_allows_iff_witness:
  "allows (newAuthorizer (\<lambda>name b v. v) (w_deps w_yes) w_ctx (w_attr ''get'' '''' ''configmaps''))
   \<and> \<not> allows (newAuthorizer (\<lambda>name b v. v) (w_deps w_no) w_ctx (w_attr ''get'' '''' ''configmaps''))"
proof -
  have "\<not> chain_ok (w_deps w_no) w_ctx (w_attr ''get'' '''' ''configmaps'')"
    by (simp add: chain_ok_def w_deps_def content_ok_def w_ctx_def w_no_def)
  then show ?thesis
    using w_chain_ok by (simp add: chain_allows_iff [OF w_undecorated(1)])
qed

end
