(* ===== verification/Selector_Admission.thy ===== *)
theory Selector_Admission
  imports Labels Authz Examples
begin

text \<open>
  \<open>admission/selector.go\<close>: \<open>Admit\<close> adds the labels of the endpoint slice (and of the
  permission claim) to objects created or updated through the workspace, \<open>Validate\<close>
  refuses objects the selectors do not match. The object's labels are a copy
  (\<open>unstructured.GetLabels\<close>), so \<open>Admit\<close> changes the object only at its last statement.
\<close>

datatype operation = Create | Update | Delete | Connect

record unstructured =
  un_Labels :: "label_set option"
  un_Content :: string                 \<comment> \<open>everything but \<open>metadata.labels\<close>\<close>

datatype runtime_object = Unstructured unstructured | OtherObject string

record admission_attributes =
  aa_Operation :: operation
  aa_Group :: string
  aa_Resource :: string
  aa_Object :: "runtime_object option"
  aa_OldObject :: "runtime_object option"

text \<open>The type assertion \<open>obj.(*unstructured.Unstructured)\<close>, and \<open>%T\<close> of its operand.\<close>

fun as_unstructured :: "runtime_object option \<Rightarrow> unstructured option" where
  "as_unstructured (Some (Unstructured u)) = Some u"
| "as_unstructured _ = None"

fun type_name :: "runtime_object option \<Rightarrow> string" where
  "type_name None = ''<nil>''"
| "type_name (Some (Unstructured _)) = ''*unstructured.Unstructured''"
| "type_name (Some (OtherObject t)) = t"

record selectorAdmission =
  sa_getFilteredAPIExportEndpointSlice :: "slice getter"
  sa_getAPIBindingByExport :: "string \<Rightarrow> string \<Rightarrow> string \<Rightarrow> go_error + APIBinding"

definition admission_getAPIBindingByExport ::
    "binding_lister \<Rightarrow> string \<Rightarrow> string \<Rightarrow> string \<Rightarrow> go_error + APIBinding" where
  "admission_getAPIBindingByExport lister clusterName apiExportName apiExportCluster =
     (case lister clusterName of
        Inl err \<Rightarrow> Inl err
      | Inr bindings \<Rightarrow>
          (case first_binding apiExportName apiExportCluster bindings of
             Some b \<Rightarrow> Inr b
           | None \<Rightarrow> Inl (Err (Str ''no suitable binding found 1''))))"

definition NewSelectorAdmission :: "slice getter \<Rightarrow> binding_lister \<Rightarrow> selectorAdmission" where
  "NewSelectorAdmission slices bindings =
     \<lparr>sa_getFilteredAPIExportEndpointSlice = slices,
      sa_getAPIBindingByExport = admission_getAPIBindingByExport bindings\<rparr>"

text \<open>The first accepted claim for the resource: found, and the labels it asks for.\<close>

fun claim_labels ::
    "AcceptablePermissionClaim list \<Rightarrow> string \<Rightarrow> string \<Rightarrow> bool \<times> label_set option" where
  "claim_labels [] g r = (False, None)"
| "claim_labels (c # cs) g r =
     (if ac_State c \<noteq> ClaimAccepted then claim_labels cs g r
      else if pc_Group (ac_Claim c) = g \<and> pc_Resource (ac_Claim c) = r
      then (True, if \<not> MatchAll (ac_Selector c)
                  then MatchLabels (LabelSelector (ac_Selector c)) else None)
      else claim_labels cs g r)"

text \<open>The loops over \<open>additionalLabels\<close> and over \<open>labelsToApply\<close>.\<close>

fun merge_labels :: "label_set \<Rightarrow> string list \<Rightarrow> label_set \<Rightarrow> go_error + label_set" where
  "merge_labels additional [] labelsToApply = Inr labelsToApply"
| "merge_labels additional (k # ks) labelsToApply =
     (case additional k of
        None \<Rightarrow> merge_labels additional ks labelsToApply
      | Some v \<Rightarrow>
          (case labelsToApply k of
             Some v1 \<Rightarrow>
               if v1 \<noteq> v
               then Inl (Errorf ''APIBinding has different label value for %s from FilteredAPIExportEndpointSlice (expected %s, got: %s)''
                           [Str k, Str v, Str v1])
               else merge_labels additional ks (labelsToApply(k \<mapsto> v))
           | None \<Rightarrow> merge_labels additional ks (labelsToApply(k \<mapsto> v))))"

fun apply_labels :: "label_set \<Rightarrow> string list \<Rightarrow> label_set \<Rightarrow> go_error + label_set" where
  "apply_labels labelsToApply [] lbls = Inr lbls"
| "apply_labels labelsToApply (k # ks) lbls =
     (case labelsToApply k of
        None \<Rightarrow> apply_labels labelsToApply ks lbls
      | Some expectedVal \<Rightarrow>
          (case lbls k of
             None \<Rightarrow> apply_labels labelsToApply ks (lbls(k \<mapsto> expectedVal))
           | Some currVal \<Rightarrow>
               if currVal \<noteq> expectedVal
               then Inl (Errorf ''protected label %s must have value %s'' [Str k, Str expectedVal])
               else apply_labels labelsToApply ks lbls))"

text \<open>
  \<open>Admit\<close>: the error, if any, and the attributes afterwards. \<open>ord 0\<close> orders the loop
  over \<open>additionalLabels\<close>, \<open>ord 1\<close> the loop over \<open>labelsToApply\<close>.
\<close>

definition Admit ::
    "(string, string) range_order \<Rightarrow> selectorAdmission \<Rightarrow> req_ctx \<Rightarrow> admission_attributes \<Rightarrow>
     go_error option \<times> admission_attributes" where
  "Admit ord s ctx a =
     (if aa_Operation a \<noteq> Create \<and> aa_Operation a \<noteq> Update then (None, a)
      else case ctx_Cluster ctx of
        Inl err \<Rightarrow> (Some (Forbidden (Wrap ''error getting valid cluster from context: %w'' [] err)), a)
      | Inr targetCluster \<Rightarrow>
     if cl_Wildcard targetCluster \<or> aa_Resource a = '''' then (None, a)
     else case domain_key_parts (ctx_DomainKey ctx) of
        None \<Rightarrow> (Some (Forbidden (Err (Str ''invalid API domain key''))), a)
      | Some (esCluster, esName) \<Rightarrow>
     (case sa_getFilteredAPIExportEndpointSlice s esCluster esName of
        Inl err \<Rightarrow>
          if IsNotFound err
          then (Some (Forbidden (Wrap ''FilteredAPIExportEndpointSlice not found: %w'' [] err)), a)
          else (Some (Forbidden (Wrap ''error getting FilteredAPIExportEndpointSlice: %w'' [] err)), a)
      | Inr es \<Rightarrow>
     (case sa_getAPIBindingByExport s (cl_Name targetCluster) (ref_Name (APIExport (Spec es)))
             (ref_Path (APIExport (Spec es))) of
        Inl err \<Rightarrow>
          (Some (Forbidden (Wrap ''could not find suitable APIBinding in target logical cluster: %w'' [] err)), a)
      | Inr apiBinding \<Rightarrow>
     (let (boundOrClaimedResource, additionalLabels) =
            (if bound_resource apiBinding (aa_Group a) (aa_Resource a) then (True, None)
             else claim_labels (bi_PermissionClaims apiBinding) (aa_Group a) (aa_Resource a))
      in if \<not> boundOrClaimedResource then (None, a)
     else case merge_labels (go_map additionalLabels) (ord 0 (go_map additionalLabels))
                 (go_map (MatchLabels (ObjectSelector (Spec es)))) of
        Inl err \<Rightarrow> (Some (Forbidden err), a)
      | Inr labelsToApply \<Rightarrow>
     (case as_unstructured (aa_Object a) of
        None \<Rightarrow> (Some (Forbidden (Errorf ''unexpected type %T'' [Str (type_name (aa_Object a))])), a)
      | Some u \<Rightarrow>
     (case apply_labels labelsToApply (ord 1 labelsToApply) (go_map (un_Labels u)) of
        Inl err \<Rightarrow> (Some (Forbidden err), a)
      | Inr lbls \<Rightarrow>
          (None, a\<lparr>aa_Object := Some (Unstructured (u\<lparr>un_Labels := Some lbls\<rparr>))\<rparr>)))))))"

text \<open>The loop of \<open>Validate\<close> over the accepted claims.\<close>

fun validate_claims ::
    "('sel, 'req) labels_api \<Rightarrow> AcceptablePermissionClaim list \<Rightarrow> string \<Rightarrow> string \<Rightarrow> label_set \<Rightarrow>
     go_error option" where
  "validate_claims L [] g r lbls = None"
| "validate_claims L (c # cs) g r lbls =
     (if ac_State c \<noteq> ClaimAccepted then validate_claims L cs g r lbls
      else if pc_Group (ac_Claim c) = g \<and> pc_Resource (ac_Claim c) = r
      then (if MatchAll (ac_Selector c) then None
            else case LabelSelectorAsSelector L (LabelSelector (ac_Selector c)) of
              Inl err \<Rightarrow> Some (Forbidden (Wrap ''error building selector from provided label selector: %w'' [] err))
            | Inr selector \<Rightarrow>
                if \<not> Matches L selector lbls
                then Some (Forbidden (Err (Str ''object does not match required labels'')))
                else None)
      else validate_claims L cs g r lbls)"

definition Validate ::
    "('sel, 'req) labels_api \<Rightarrow> selectorAdmission \<Rightarrow> req_ctx \<Rightarrow> admission_attributes \<Rightarrow>
     go_error option" where
  "Validate L s ctx a =
     (if aa_Operation a \<notin> {Create, Update, Delete} then None
      else case ctx_Cluster ctx of
        Inl err \<Rightarrow> Some (Forbidden (Wrap ''error getting valid cluster from context: %w'' [] err))
      | Inr targetCluster \<Rightarrow>
     if cl_Wildcard targetCluster \<or> aa_Resource a = '''' then None
     else case domain_key_parts (ctx_DomainKey ctx) of
        None \<Rightarrow> Some (Forbidden (Err (Str ''invalid API domain key'')))
      | Some (esCluster, esName) \<Rightarrow>
     (case sa_getFilteredAPIExportEndpointSlice s esCluster esName of
        Inl err \<Rightarrow>
          if IsNotFound err
          then Some (Forbidden (Wrap ''FilteredAPIExportEndpointSlice not found: %w'' [] err))
          else Some (Forbidden (Wrap ''error getting FilteredAPIExportEndpointSlice: %w'' [] err))
      | Inr es \<Rightarrow>
     (let obj = (if aa_Object a = None then aa_OldObject a else aa_Object a)
      in case as_unstructured obj of
        None \<Rightarrow> Some (Forbidden (Errorf ''unexpected type %T'' [Str (type_name obj)]))
      | Some u \<Rightarrow>
     (case LabelSelectorAsSelector L (ObjectSelector (Spec es)) of
        Inl err \<Rightarrow> Some (Forbidden (Wrap ''error building selector from provided FilteredAPIExportEndpointSlice label selector: %w'' [] err))
      | Inr filteredSelector \<Rightarrow>
     if \<not> Matches L filteredSelector (go_map (un_Labels u))
     then Some (Forbidden (Err (Str ''object does not match required labels'')))
     else case sa_getAPIBindingByExport s (cl_Name targetCluster)
                 (ref_Name (APIExport (Spec es))) (ref_Path (APIExport (Spec es))) of
        Inl err \<Rightarrow> Some (Forbidden (Wrap ''could not find suitable APIBinding in target logical cluster: %w'' [] err))
      | Inr apiBinding \<Rightarrow>
          if bound_resource apiBinding (aa_Group a) (aa_Resource a) then None
          else validate_claims L (bi_PermissionClaims apiBinding) (aa_Group a) (aa_Resource a)
                 (go_map (un_Labels u))))))"

section \<open>The two labelling loops\<close>

text \<open>
  Both loops write \<open>m\<close>'s entries for the visited keys into a label set and stop at the
  first key with another value; what they compute does not depend on the order.
\<close>

definition written :: "label_set \<Rightarrow> string set \<Rightarrow> label_set \<Rightarrow> label_set" where
  "written m K l = (\<lambda>k. if k \<in> K \<and> m k \<noteq> None then m k else l k)"

definition no_conflict :: "label_set \<Rightarrow> string set \<Rightarrow> label_set \<Rightarrow> bool" where
  "no_conflict m K l \<longleftrightarrow> (\<forall>k \<in> K. m k = None \<or> l k = None \<or> m k = l k)"

lemma no_conflict_step:
  assumes "m k = Some v" and "l k = None \<or> l k = Some v"
  shows "no_conflict m (insert k K) l \<longleftrightarrow> no_conflict m K (l(k \<mapsto> v))"
proof -
  have same: "(m j = None \<or> l j = None \<or> m j = l j) \<longleftrightarrow>
      (m j = None \<or> (l(k \<mapsto> v)) j = None \<or> m j = (l(k \<mapsto> v)) j)" for j
    using assms by (cases "j = k") (simp_all, metis)
  have "m k = None \<or> l k = None \<or> m k = l k"
    using assms by metis
  then show ?thesis
    unfolding no_conflict_def same by (simp add: assms)
qed

lemma written_step:
  "m k = Some v \<Longrightarrow> written m K (l(k \<mapsto> v)) = written m (insert k K) l"
  by (auto simp: written_def)

lemma no_conflict_skip: "m k = None \<Longrightarrow> no_conflict m (insert k K) l \<longleftrightarrow> no_conflict m K l"
  by (simp add: no_conflict_def)

lemma written_skip: "m k = None \<Longrightarrow> written m (insert k K) l = written m K l"
  by (rule ext) (auto simp: written_def)

lemma no_conflict_stop:
  "m k = Some v \<Longrightarrow> l k = Some w \<Longrightarrow> v \<noteq> w \<Longrightarrow> \<not> no_conflict m (insert k K) l"
  by (simp add: no_conflict_def)

lemma merge_labels_iff:
  "merge_labels m ks l = Inr r \<longleftrightarrow> no_conflict m (set ks) l \<and> r = written m (set ks) l"
proof (induction ks arbitrary: l)
  case Nil
  then show ?case by (auto simp: no_conflict_def written_def)
next
  case (Cons k ks)
  show ?case
  proof (cases "m k")
    case None
    with Cons show ?thesis by (simp add: no_conflict_skip written_skip)
  next
    case (Some v)
    show ?thesis
    proof (cases "l k = None \<or> l k = Some v")
      case True
      with Some have "merge_labels m (k # ks) l = merge_labels m ks (l(k \<mapsto> v))" by auto
      with Cons Some True show ?thesis
        by (simp add: no_conflict_step [of m k v l] written_step [of m k v] del: fun_upd_apply)
    next
      case False
      with Some show ?thesis by (auto dest: no_conflict_stop)
    qed
  qed
qed

lemma apply_labels_merge:
  "apply_labels m ks l = Inr r \<longleftrightarrow> merge_labels m ks l = Inr r"
proof (induction ks arbitrary: l)
  case Nil
  then show ?case by simp
next
  case (Cons k ks)
  show ?case
  proof (cases "\<exists>v. m k = Some v \<and> l k = Some v")
    case True
    then have "l(k := m k) = l" by (auto intro: fun_upd_idem)
    with True Cons show ?thesis by auto
  next
    case False
    with Cons show ?thesis by (cases "m k"; cases "l k") (simp_all del: fun_upd_apply)
  qed
qed

lemma is_range_no_conflict: "is_range ks m \<Longrightarrow> no_conflict m (set ks) l \<longleftrightarrow> agree m l"
  unfolding is_range_def no_conflict_def agree_def dom_def by blast

lemma is_range_written: "is_range ks m \<Longrightarrow> written m (set ks) l = l ++ m"
  by (rule ext) (auto simp: is_range_def written_def map_add_def dom_def split: option.splits)

lemma merge_labels_range:
  "is_range ks m \<Longrightarrow> merge_labels m ks l = Inr r \<longleftrightarrow> agree m l \<and> r = l ++ m"
  by (simp add: merge_labels_iff is_range_no_conflict is_range_written)

lemma apply_labels_range:
  "is_range ks m \<Longrightarrow> apply_labels m ks l = Inr r \<longleftrightarrow> agree m l \<and> r = l ++ m"
  by (simp add: apply_labels_merge merge_labels_range)

lemma claim_labels_found:
  "claim_labels cs g r = (True, ls) \<Longrightarrow>
     \<exists>c \<in> set cs. ac_State c = ClaimAccepted \<and> pc_Group (ac_Claim c) = g
        \<and> pc_Resource (ac_Claim c) = r
        \<and> ls = (if MatchAll (ac_Selector c) then None else MatchLabels (LabelSelector (ac_Selector c)))"
  by (induction cs g r rule: claim_labels.induct) (auto split: if_splits)

section \<open>The environment both functions resolve\<close>

text \<open>
  The slice of the request and the binding of its export in the target cluster, when the
  request is one the admission looks at (a resource of a concrete cluster).
\<close>

definition resolves ::
    "selectorAdmission \<Rightarrow> req_ctx \<Rightarrow> admission_attributes \<Rightarrow> slice \<Rightarrow> APIBinding \<Rightarrow> bool" where
  "resolves s ctx a es b \<longleftrightarrow>
     (\<exists>target esCluster esName.
        ctx_Cluster ctx = Inr target \<and> \<not> cl_Wildcard target \<and> aa_Resource a \<noteq> ''''
        \<and> domain_key_parts (ctx_DomainKey ctx) = Some (esCluster, esName)
        \<and> sa_getFilteredAPIExportEndpointSlice s esCluster esName = Inr es
        \<and> sa_getAPIBindingByExport s (cl_Name target) (ref_Name (APIExport (Spec es)))
            (ref_Path (APIExport (Spec es))) = Inr b)"

text \<open>Whether the binding covers the resource, and the labels its claim asks for.\<close>

definition coverage :: "APIBinding \<Rightarrow> admission_attributes \<Rightarrow> bool \<times> label_set option" where
  "coverage b a =
     (if bound_resource b (aa_Group a) (aa_Resource a) then (True, None)
      else claim_labels (bi_PermissionClaims b) (aa_Group a) (aa_Resource a))"

definition slice_labels :: "slice \<Rightarrow> label_set" where
  "slice_labels es = go_map (MatchLabels (ObjectSelector (Spec es)))"

definition claimed_labels :: "APIBinding \<Rightarrow> admission_attributes \<Rightarrow> label_set" where
  "claimed_labels b a = go_map (snd (coverage b a))"

definition required_labels :: "slice \<Rightarrow> APIBinding \<Rightarrow> admission_attributes \<Rightarrow> label_set" where
  "required_labels es b a = slice_labels es ++ claimed_labels b a"

text \<open>
  \<open>Admit\<close> on a resolved create or update: the loops and the type assertion that are left.
\<close>

lemma Admit_red:
  assumes "resolves s ctx a es b" and "aa_Operation a \<in> {Create, Update}"
  shows "Admit ord s ctx a =
     (if \<not> fst (coverage b a) then (None, a)
      else case merge_labels (claimed_labels b a) (ord 0 (claimed_labels b a)) (slice_labels es) of
        Inl err \<Rightarrow> (Some (Forbidden err), a)
      | Inr lta \<Rightarrow>
          (case as_unstructured (aa_Object a) of
             None \<Rightarrow> (Some (Forbidden (Errorf ''unexpected type %T'' [Str (type_name (aa_Object a))])), a)
           | Some u \<Rightarrow>
               (case apply_labels lta (ord 1 lta) (go_map (un_Labels u)) of
                  Inl err \<Rightarrow> (Some (Forbidden err), a)
                | Inr lbls \<Rightarrow>
                    (None, a\<lparr>aa_Object := Some (Unstructured (u\<lparr>un_Labels := Some lbls\<rparr>))\<rparr>))))"
proof -
  obtain target esCluster esName where
    t: "ctx_Cluster ctx = Inr target" "\<not> cl_Wildcard target" "aa_Resource a \<noteq> ''''"
      "domain_key_parts (ctx_DomainKey ctx) = Some (esCluster, esName)"
      "sa_getFilteredAPIExportEndpointSlice s esCluster esName = Inr es"
      "sa_getAPIBindingByExport s (cl_Name target) (ref_Name (APIExport (Spec es)))
         (ref_Path (APIExport (Spec es))) = Inr b"
    using assms(1) by (auto simp: resolves_def)
  obtain f ls where cov: "coverage b a = (f, ls)" by fastforce
  have op: "\<not> (aa_Operation a \<noteq> Create \<and> aa_Operation a \<noteq> Update)" using assms(2) by auto
  from cov have cov': "(if bound_resource b (aa_Group a) (aa_Resource a) then (True, None)
      else claim_labels (bi_PermissionClaims b) (aa_Group a) (aa_Resource a)) = (f, ls)"
    by (simp add: coverage_def)
  show ?thesis
    unfolding Admit_def if_not_P [OF op]
    by (simp only: t sum.case option.case prod.case if_False simp_thms cov' Let_def
        claimed_labels_def slice_labels_def cov snd_conv fst_conv)
qed

lemma Admit_unresolved:
  assumes "\<And>es b. \<not> resolves s ctx a es b"
  shows "Admit ord s ctx a = Admit ord' s ctx a \<and> snd (Admit ord s ctx a) = a"
proof (cases "ctx_Cluster ctx")
  case (Inl e)
  then show ?thesis by (simp add: Admit_def)
next
  case (Inr target)
  note t = Inr
  show ?thesis
  proof (cases "cl_Wildcard target \<or> aa_Resource a = '''' \<or> domain_key_parts (ctx_DomainKey ctx) = None")
    case True
    with t show ?thesis by (auto simp: Admit_def)
  next
    case False
    then obtain c n where k: "domain_key_parts (ctx_DomainKey ctx) = Some (c, n)" by auto
    show ?thesis
    proof (cases "sa_getFilteredAPIExportEndpointSlice s c n")
      case (Inl e)
      with t k show ?thesis by (simp add: Admit_def)
    next
      case (Inr es)
      with assms [of es] t k False obtain e where
        "sa_getAPIBindingByExport s (cl_Name target) (ref_Name (APIExport (Spec es)))
           (ref_Path (APIExport (Spec es))) = Inl e"
        by (cases "sa_getAPIBindingByExport s (cl_Name target) (ref_Name (APIExport (Spec es)))
              (ref_Path (APIExport (Spec es)))") (auto simp: resolves_def)
      with t k Inr show ?thesis by (simp add: Admit_def)
    qed
  qed
qed

text \<open>Two orders of one loop stop alike, or compute the same labels.\<close>

lemma merge_labels_orders:
  assumes "is_range ks m" and "is_range ks' m"
  shows "(\<exists>r. merge_labels m ks l = Inr r \<and> merge_labels m ks' l = Inr r)
     \<or> (\<exists>e e'. merge_labels m ks l = Inl e \<and> merge_labels m ks' l = Inl e')"
  using merge_labels_range [OF assms(1), of l] merge_labels_range [OF assms(2), of l]
  by (cases "merge_labels m ks l"; cases "merge_labels m ks' l") auto

lemma apply_labels_orders:
  assumes "is_range ks m" and "is_range ks' m"
  shows "(\<exists>r. apply_labels m ks l = Inr r \<and> apply_labels m ks' l = Inr r)
     \<or> (\<exists>e e'. apply_labels m ks l = Inl e \<and> apply_labels m ks' l = Inl e')"
  using apply_labels_range [OF assms(1), of l] apply_labels_range [OF assms(2), of l]
  by (cases "apply_labels m ks l"; cases "apply_labels m ks' l") auto

text \<open>The outcome of the labelling, independent of the orders.\<close>

lemma Admit_resolved:
  assumes "resolves s ctx a es b" and "aa_Operation a \<in> {Create, Update}"
    and "as_unstructured (aa_Object a) = Some u" and "fst (coverage b a)"
    and "range_on U ord" and "dom (slice_labels es) \<subseteq> U" and "dom (claimed_labels b a) \<subseteq> U"
  shows "Admit ord s ctx a = (None, a')
     \<longleftrightarrow> agree (slice_labels es) (claimed_labels b a)
         \<and> agree (required_labels es b a) (go_map (un_Labels u))
         \<and> a' = a\<lparr>aa_Object := Some (Unstructured (u\<lparr>un_Labels :=
                   Some (go_map (un_Labels u) ++ required_labels es b a)\<rparr>))\<rparr>"
proof -
  let ?add = "claimed_labels b a" and ?ml = "slice_labels es" and ?l = "go_map (un_Labels u)"
  have r0: "is_range (ord 0 ?add) ?add" and r1: "is_range (ord 1 (?ml ++ ?add)) (?ml ++ ?add)"
    using assms(5-7) by (auto intro!: range_onD)
  note red = Admit_red [OF assms(1,2), of ord]
  show ?thesis
  proof (cases "merge_labels ?add (ord 0 ?add) ?ml")
    case (Inl e)
    with merge_labels_range [OF r0, of ?ml "?ml ++ ?add"] have "\<not> agree ?ml ?add"
      using agree_sym by auto
    with Inl show ?thesis using assms(4) by (simp add: red)
  next
    case (Inr lta)
    with merge_labels_range [OF r0, of ?ml lta] have ag: "agree ?ml ?add" "lta = ?ml ++ ?add"
      using agree_sym by auto
    show ?thesis
    proof (cases "apply_labels lta (ord 1 lta) ?l")
      case (Inl e)
      with apply_labels_range [OF r1, of ?l "?l ++ (?ml ++ ?add)"] ag
      have "\<not> agree (required_labels es b a) ?l"
        by (auto simp: required_labels_def)
      with Inl Inr show ?thesis using assms(3,4) by (simp add: red)
    next
      case (Inr lbls)
      with apply_labels_range [OF r1, of ?l lbls] ag
      have "agree (required_labels es b a) ?l" "lbls = ?l ++ required_labels es b a"
        by (auto simp: required_labels_def)
      with Inr \<open>merge_labels ?add (ord 0 ?add) ?ml = Inr lta\<close> ag show ?thesis
        using assms(3,4) by (auto simp: red)
    qed
  qed
qed

section \<open>Properties\<close>

text \<open>
  The universe of keys the oracle's loops draw from covers the slice's and the claim's
  labels.
\<close>

definition keys_within :: "string set \<Rightarrow> slice \<Rightarrow> APIBinding \<Rightarrow> admission_attributes \<Rightarrow> bool" where
  "keys_within U es b a \<longleftrightarrow> dom (slice_labels es) \<subseteq> U \<and> dom (claimed_labels b a) \<subseteq> U"

definition w_request :: "operation \<Rightarrow> string \<Rightarrow> string \<Rightarrow> label_set option \<Rightarrow> admission_attributes" where
  "w_request op g r ls =
     \<lparr>aa_Operation = op, aa_Group = g, aa_Resource = r,
      aa_Object = Some (Unstructured \<lparr>un_Labels = ls, un_Content = ''spec''\<rparr>), aa_OldObject = None\<rparr>"

abbreviation w_admission :: selectorAdmission where
  "w_admission \<equiv> NewSelectorAdmission w_slices w_bindings"

lemma w_resolves [simp]:
  "r \<noteq> '''' \<Longrightarrow> resolves w_admission w_ctx (w_request op g r ls) w_slice w_binding"
  by (simp add: resolves_def w_request_def NewSelectorAdmission_def w_ctx_def w_slices_def
      admission_getAPIBindingByExport_def w_bindings_def w_slice_def binding_matches_def w_binding_def)

lemma w_coverage [simp]:
  "coverage w_binding (w_request op ''example.io'' ''widgets'' ls) = (True, None)"
  "coverage w_binding (w_request op '''' ''configmaps'' ls) = (True, Some [''team'' \<mapsto> ''a''])"
  by (simp_all add: coverage_def w_request_def w_binding_def bound_resource_def w_configmaps_def)

lemma w_request_simps [simp]:
  "aa_Operation (w_request op g r ls) = op"
  "aa_Group (w_request op g r ls) = g"
  "aa_Resource (w_request op g r ls) = r"
  "aa_Object (w_request op g r ls) = Some (Unstructured \<lparr>un_Labels = ls, un_Content = ''spec''\<rparr>)"
  "w_request op g r ls\<lparr>aa_Object := Some (Unstructured \<lparr>un_Labels = ls', un_Content = ''spec''\<rparr>)\<rparr>
     = w_request op g r ls'"
  by (simp_all add: w_request_def)

lemma w_slice_labels [simp]: "slice_labels w_slice = [''env'' \<mapsto> ''prod'']"
  by (simp add: slice_labels_def w_slice_def w_selector_def w_labels_def)

text \<open>
  C14: For a bound or claimed resource, the mutating admission succeeds exactly when slice and
  claim labels agree and the object carries no conflicting value for any of them, and then the
  object has its own labels plus all required ones and nothing else changed.
\<close>

theorem Admit_success_iff:
  assumes "resolves s ctx a es b" and "aa_Operation a \<in> {Create, Update}"
    and "as_unstructured (aa_Object a) = Some u" and "fst (coverage b a)"
    and "range_on U ord" and "keys_within U es b a"
  shows "Admit ord s ctx a = (None, a')
     \<longleftrightarrow> agree (slice_labels es) (claimed_labels b a)
         \<and> agree (required_labels es b a) (go_map (un_Labels u))
         \<and> a' = a\<lparr>aa_Object := Some (Unstructured (u\<lparr>un_Labels :=
                   Some (go_map (un_Labels u) ++ required_labels es b a)\<rparr>))\<rparr>"
  using assms by (intro Admit_resolved) (auto simp: keys_within_def)

theorem Admit_success_iff_witness:
  "Admit w_ord w_admission w_ctx (w_request Create '''' ''configmaps'' (Some [''app'' \<mapsto> ''x'']))
     = (None, w_request Create '''' ''configmaps''
               (Some [''app'' \<mapsto> ''x'', ''env'' \<mapsto> ''prod'', ''team'' \<mapsto> ''a'']))"
proof -
  let ?a = "w_request Create '''' ''configmaps'' (Some [''app'' \<mapsto> ''x''])"
  show ?thesis
    by (subst Admit_success_iff [where es = w_slice and b = w_binding and a = ?a
          and u = "\<lparr>un_Labels = Some [''app'' \<mapsto> ''x''], un_Content = ''spec''\<rparr>"
          and U = "{''env'', ''team''}"])
       (simp_all add: keys_within_def claimed_labels_def required_labels_def agree_def)
qed

text \<open>
  The mutating admission either refuses, or leaves the request as it is, or replaces the
  labels of its object.
\<close>

theorem Admit_all_or_nothing:
  "(\<exists>e. Admit ord s ctx a = (Some (Forbidden e), a))
   \<or> Admit ord s ctx a = (None, a)
   \<or> (\<exists>u lbls. aa_Object a = Some (Unstructured u) \<and>
        Admit ord s ctx a
          = (None, a\<lparr>aa_Object := Some (Unstructured (u\<lparr>un_Labels := Some lbls\<rparr>))\<rparr>))"
proof -
  have "aa_Object a = Some (Unstructured u)" if "as_unstructured (aa_Object a) = Some u" for u
    using that by (cases "aa_Object a" rule: as_unstructured.cases) auto
  then show ?thesis
    unfolding Admit_def
    by (simp split: sum.split option.split prod.split if_split) blast
qed

text \<open>
  The order in which Go ranges over the label maps does not change the resulting object, nor
  whether the mutating admission accepts.
\<close>

theorem Admit_order_irrelevant:
  assumes "range_on U ord" and "range_on U ord'"
    and keys: "\<And>es b. resolves s ctx a es b \<Longrightarrow> keys_within U es b a"
  shows "snd (Admit ord s ctx a) = snd (Admit ord' s ctx a)
     \<and> (fst (Admit ord s ctx a) = None \<longleftrightarrow> fst (Admit ord' s ctx a) = None)"
proof (cases "\<exists>es b. resolves s ctx a es b \<and> aa_Operation a \<in> {Create, Update}")
  case False
  then have "Admit ord s ctx a = Admit ord' s ctx a"
    using Admit_unresolved [of s ctx a ord ord'] by (auto simp: Admit_def)
  then show ?thesis by simp
next
  case True
  then obtain es b where r: "resolves s ctx a es b" and op: "aa_Operation a \<in> {Create, Update}"
    by blast
  let ?add = "claimed_labels b a" and ?ml = "slice_labels es"
  have k: "dom ?add \<subseteq> U" "dom (?ml ++ ?add) \<subseteq> U"
    using keys [OF r] by (auto simp: keys_within_def)
  note r0 = range_onD [OF assms(1) k(1), of 0] range_onD [OF assms(2) k(1), of 0]
  note r1 = range_onD [OF assms(1) k(2), of 1] range_onD [OF assms(2) k(2), of 1]
  show ?thesis
  proof (cases "merge_labels ?add (ord 0 ?add) ?ml")
    case (Inl e)
    with merge_labels_orders [OF r0, of ?ml] show ?thesis
      by (auto simp: Admit_red [OF r op])
  next
    case (Inr lta)
    with merge_labels_range [OF r0(1), of ?ml lta] have "lta = ?ml ++ ?add" by blast
    with Inr merge_labels_orders [OF r0, of ?ml]
    have m: "merge_labels ?add (ord 0 ?add) ?ml = Inr (?ml ++ ?add)"
      "merge_labels ?add (ord' 0 ?add) ?ml = Inr (?ml ++ ?add)" by auto
    show ?thesis
    proof (cases "as_unstructured (aa_Object a)")
      case None
      then show ?thesis by (simp add: Admit_red [OF r op] m)
    next
      case (Some u)
      with apply_labels_orders [OF r1, of "go_map (un_Labels u)"] show ?thesis
        by (auto simp: Admit_red [OF r op] m simp del: One_nat_def)
    qed
  qed
qed

theorem Admit_order_irrelevant_witness:
  "snd (Admit w_ord w_admission w_ctx (w_request Create '''' ''configmaps'' None))
   = snd (Admit (range_in [''team'', ''env'']) w_admission w_ctx (w_request Create '''' ''configmaps'' None))"
proof -
  have "range_on {''env'', ''team''} (range_in [''team'', ''env''] :: (string, string) range_order)"
    using range_on_range_in [of "[''team'', ''env'']"] by (simp add: insert_commute)
  moreover have "keys_within {''env'', ''team''} es b (w_request Create '''' ''configmaps'' None)"
    if "resolves w_admission w_ctx (w_request Create '''' ''configmaps'' None) es b" for es b
  proof -
    have "es = w_slice \<and> b = w_binding"
      using that w_resolves [of "''configmaps''" Create "''''" None]
      by (auto simp: resolves_def)
    then show ?thesis by (simp add: keys_within_def claimed_labels_def)
  qed
  ultimately show ?thesis
    using Admit_order_irrelevant [OF w_ord_range] by blast
qed

text \<open>What the admission looks at survives its own write.\<close>

lemma coverage_update [simp]: "coverage b (a\<lparr>aa_Object := x\<rparr>) = coverage b a"
  by (simp add: coverage_def)

lemma labels_update [simp]:
  "claimed_labels b (a\<lparr>aa_Object := x\<rparr>) = claimed_labels b a"
  "required_labels es b (a\<lparr>aa_Object := x\<rparr>) = required_labels es b a"
  "keys_within U es b (a\<lparr>aa_Object := x\<rparr>) = keys_within U es b a"
  by (simp_all add: claimed_labels_def required_labels_def keys_within_def)

lemma resolves_update [simp]: "resolves s ctx (a\<lparr>aa_Object := x\<rparr>) es b = resolves s ctx a es b"
  by (simp add: resolves_def)

lemma Admit_changedD:
  assumes "Admit ord s ctx a = (None, a')" and "a' \<noteq> a"
  obtains es b u where "resolves s ctx a es b" "aa_Operation a \<in> {Create, Update}"
    "as_unstructured (aa_Object a) = Some u" "fst (coverage b a)"
proof -
  have op: "aa_Operation a \<in> {Create, Update}"
    using assms by (auto simp: Admit_def split: if_splits)
  obtain es b where r: "resolves s ctx a es b"
    using assms Admit_unresolved [of s ctx a ord ord] by auto
  with op assms show ?thesis
    using that by (auto simp: Admit_red split: if_splits sum.splits option.splits)
qed

text \<open>
  Running the mutating admission again on its own result accepts it and changes nothing.
\<close>

theorem Admit_idempotent:
  assumes "range_on U ord" and keys: "\<And>es b. resolves s ctx a es b \<Longrightarrow> keys_within U es b a"
    and adm: "Admit ord s ctx a = (None, a')"
  shows "Admit ord s ctx a' = (None, a')"
proof (cases "a' = a")
  case True
  with adm show ?thesis by simp
next
  case False
  with adm obtain es b u where r: "resolves s ctx a es b" "aa_Operation a \<in> {Create, Update}"
    "as_unstructured (aa_Object a) = Some u" "fst (coverage b a)"
    by (rule Admit_changedD)
  note k = keys [OF r(1), unfolded keys_within_def]
  let ?l = "go_map (un_Labels u) ++ required_labels es b a"
  have first: "agree (slice_labels es) (claimed_labels b a)"
    "a' = a\<lparr>aa_Object := Some (Unstructured (u\<lparr>un_Labels := Some ?l\<rparr>))\<rparr>"
    using adm k by (simp_all add: Admit_resolved [OF r assms(1)])
  have "agree (required_labels es b a) ?l"
    by (intro map_le_agree) simp
  moreover have "?l ++ required_labels es b a = ?l"
    by (intro map_le_add_id) simp
  ultimately show ?thesis
    using r k first
    by (subst Admit_resolved [where es = es and b = b and U = U and u = "u\<lparr>un_Labels := Some ?l\<rparr>"])
       (simp_all add: assms(1))
qed

theorem Admit_idempotent_witness:
  "Admit w_ord w_admission w_ctx (w_request Update ''example.io'' ''widgets'' (Some [''env'' \<mapsto> ''prod'']))
     = (None, w_request Update ''example.io'' ''widgets'' (Some [''env'' \<mapsto> ''prod'']))"
proof -
  let ?a = "w_request Update ''example.io'' ''widgets''"
  have k: "keys_within {''env'', ''team''} es b (?a None)"
    if "resolves w_admission w_ctx (?a None) es b" for es b
  proof -
    have "es = w_slice \<and> b = w_binding"
      using that w_resolves [of "''widgets''" Update "''example.io''" None]
      by (auto simp: resolves_def)
    then show ?thesis by (simp add: keys_within_def claimed_labels_def)
  qed
  have adm: "Admit w_ord w_admission w_ctx (?a None) = (None, ?a (Some [''env'' \<mapsto> ''prod'']))"
    by (subst Admit_resolved [where es = w_slice and b = w_binding and U = "{''env'', ''team''}"
          and u = "\<lparr>un_Labels = None, un_Content = ''spec''\<rparr>"])
       (simp_all add: claimed_labels_def required_labels_def agree_def)
  show ?thesis by (rule Admit_idempotent [OF w_ord_range k adm])
qed

section \<open>What passes validation\<close>

lemma validate_claims_found:
  "validate_claims L cs g r l = None \<Longrightarrow> selector_law L \<Longrightarrow>
     go_map (snd (claim_labels cs g r)) \<subseteq>\<^sub>m l"
  by (induction L cs g r l rule: validate_claims.induct)
     (auto split: if_splits sum.splits dest: selector_lawD1)

text \<open>A label selector without expressions that apimachinery accepts.\<close>

definition plain_selector :: "('sel, 'req) labels_api \<Rightarrow> label_selector \<Rightarrow> bool" where
  "plain_selector L ls \<longleftrightarrow>
     (\<exists>s. LabelSelectorAsSelector L ls = Inr s) \<and> MatchExpressions ls \<in> {None, Some []}"

lemma plain_selector_matches:
  assumes "plain_selector L ls" "selector_law L" "go_map (MatchLabels ls) \<subseteq>\<^sub>m l"
  obtains s where "LabelSelectorAsSelector L ls = Inr s" "Matches L s l"
  using assms selector_lawD2 by (fastforce simp: plain_selector_def)

lemma validate_claims_pass:
  "go_map (snd (claim_labels cs g r)) \<subseteq>\<^sub>m l \<Longrightarrow> selector_law L \<Longrightarrow>
   (\<And>c. c \<in> set cs \<Longrightarrow> plain_selector L (LabelSelector (ac_Selector c))) \<Longrightarrow>
     validate_claims L cs g r l = None"
proof (induction cs)
  case Nil
  then show ?case by simp
next
  case (Cons c cs)
  have plain: "plain_selector L (LabelSelector (ac_Selector c))" using Cons.prems(3) by simp
  show ?case
  proof (cases "ac_State c = ClaimAccepted \<and> pc_Group (ac_Claim c) = g \<and> pc_Resource (ac_Claim c) = r")
    case True
    show ?thesis
    proof (cases "MatchAll (ac_Selector c)")
      case False
      with True Cons.prems(1) have "go_map (MatchLabels (LabelSelector (ac_Selector c))) \<subseteq>\<^sub>m l"
        by simp
      with plain Cons.prems(2) obtain s
        where "LabelSelectorAsSelector L (LabelSelector (ac_Selector c)) = Inr s" "Matches L s l"
        by (rule plain_selector_matches)
      with True show ?thesis by simp
    qed (simp add: True)
  next
    case False
    with Cons show ?thesis by auto
  qed
qed

lemma Validate_red:
  assumes "resolves s ctx a es b" and "aa_Operation a \<in> {Create, Update, Delete}"
    and "as_unstructured (if aa_Object a = None then aa_OldObject a else aa_Object a) = Some u"
  shows "Validate L s ctx a =
     (case LabelSelectorAsSelector L (ObjectSelector (Spec es)) of
        Inl err \<Rightarrow> Some (Forbidden (Wrap ''error building selector from provided FilteredAPIExportEndpointSlice label selector: %w'' [] err))
      | Inr sel \<Rightarrow>
          if \<not> Matches L sel (go_map (un_Labels u))
          then Some (Forbidden (Err (Str ''object does not match required labels'')))
          else if bound_resource b (aa_Group a) (aa_Resource a) then None
          else validate_claims L (bi_PermissionClaims b) (aa_Group a) (aa_Resource a)
                 (go_map (un_Labels u)))"
proof -
  have op: "\<not> aa_Operation a \<notin> {Create, Update, Delete}" using assms(2) by simp
  obtain target c n where t: "ctx_Cluster ctx = Inr target"
    "(cl_Wildcard target \<or> aa_Resource a = '''') = False"
    "domain_key_parts (ctx_DomainKey ctx) = Some (c, n)"
    "sa_getFilteredAPIExportEndpointSlice s c n = Inr es"
    "sa_getAPIBindingByExport s (cl_Name target) (ref_Name (APIExport (Spec es)))
       (ref_Path (APIExport (Spec es))) = Inr b"
    using assms(1) by (auto simp: resolves_def)
  show ?thesis
    unfolding Validate_def if_not_P [OF op] Let_def
    by (simp only: t assms(3) sum.case option.case prod.case if_False)
qed



text \<open>
  C5: Validation lets a create, update or delete in a concrete cluster through only if the
  object carries every match label of the slice and, when a claim with a label selector
  applies, every match label of that claim.
\<close>

theorem Validate_enforces:
  assumes "selector_law L" and "ctx_Cluster ctx = Inr target" and "\<not> cl_Wildcard target"
    and "aa_Resource a \<noteq> ''''" and "aa_Operation a \<in> {Create, Update, Delete}"
    and ok: "Validate L s ctx a = None"
  shows "\<exists>es b u. resolves s ctx a es b
     \<and> as_unstructured (if aa_Object a = None then aa_OldObject a else aa_Object a) = Some u
     \<and> slice_labels es \<subseteq>\<^sub>m go_map (un_Labels u)
     \<and> claimed_labels b a \<subseteq>\<^sub>m go_map (un_Labels u)"
proof -
  obtain es b u where r: "resolves s ctx a es b"
    "as_unstructured (if aa_Object a = None then aa_OldObject a else aa_Object a) = Some u"
    using ok assms(2-5)
    by (auto simp: Validate_def resolves_def Let_def split: option.splits sum.splits if_splits prod.splits)
  then obtain sel where sel: "LabelSelectorAsSelector L (ObjectSelector (Spec es)) = Inr sel"
    "Matches L sel (go_map (un_Labels u))"
    and claims: "bound_resource b (aa_Group a) (aa_Resource a) \<or>
      validate_claims L (bi_PermissionClaims b) (aa_Group a) (aa_Resource a) (go_map (un_Labels u)) = None"
    using ok assms(5) by (auto simp: Validate_red [OF r(1) _ r(2)] split: sum.splits if_splits)
  have "slice_labels es \<subseteq>\<^sub>m go_map (un_Labels u)"
    using selector_lawD1 [OF assms(1) sel] by (simp add: slice_labels_def)
  moreover have "claimed_labels b a \<subseteq>\<^sub>m go_map (un_Labels u)"
    using claims assms(1) by (auto simp: claimed_labels_def coverage_def dest: validate_claims_found)
  ultimately show ?thesis using r by blast
qed

theorem Validate_enforces_witness:
  "\<exists>es b. resolves w_admission w_ctx
       (w_request Create '''' ''configmaps'' (Some [''env'' \<mapsto> ''prod'', ''team'' \<mapsto> ''a''])) es b
     \<and> slice_labels es \<subseteq>\<^sub>m [''env'' \<mapsto> ''prod'', ''team'' \<mapsto> ''a'']"
proof -
  let ?a = "w_request Create '''' ''configmaps'' (Some [''env'' \<mapsto> ''prod'', ''team'' \<mapsto> ''a''])"
  let ?L = "ref_labels [''env'', ''team'']"
  have "Validate ?L w_admission w_ctx ?a = None"
    by (subst Validate_red [OF w_resolves, where u = "\<lparr>un_Labels = Some [''env'' \<mapsto> ''prod'', ''team'' \<mapsto> ''a''], un_Content = ''spec''\<rparr>"])
       (simp_all add: ref_labels_def w_slice_def w_selector_def w_labels_def w_binding_def
          bound_resource_def w_configmaps_def)
  then show ?thesis
    using Validate_enforces [of ?L w_ctx "\<lparr>cl_Name = ''cons'', cl_Wildcard = False\<rparr>" ?a w_admission]
    by (simp add: w_ctx_def) blast
qed

end
