(* ===== verification/Url_Digest.thy ===== *)
theory Url_Digest
  imports Authz Examples
begin

text \<open>
  \<open>digestUrl\<close> of \<open>builder/build.go\<close> and the root path resolver around it: from a
  request path to the target cluster, the API domain key the authorizers and the API
  reconciler use, and the prefix to strip. Parameters, from the \<open>logicalcluster\<close> and
  apiserver packages: whether \<open>NewPath(s)\<close> is the wildcard, \<open>NewPath(s).Name()\<close>, and
  what \<open>ValidClusterFrom\<close> returns for a cluster put into the context.
\<close>

record logicalcluster_api =
  lc_is_wildcard :: "string \<Rightarrow> bool"
  lc_name :: "string \<Rightarrow> string option"
  lc_valid :: "cluster \<Rightarrow> go_error + cluster"

abbreviation slash :: char where
  "slash \<equiv> CHR ''/''"

definition VirtualWorkspaceName :: string where
  "VirtualWorkspaceName = ''filtered-apiexport''"

type_synonym digest = "cluster \<times> string \<times> string \<times> bool"

definition rejected :: digest where
  "rejected = (\<lparr>cl_Name = '''', cl_Wildcard = False\<rparr>, '''', '''', False)"

definition digestUrl :: "logicalcluster_api \<Rightarrow> string \<Rightarrow> string \<Rightarrow> digest" where
  "digestUrl lc urlPath rootPathPrefix =
     (if \<not> HasPrefix urlPath rootPathPrefix then rejected
      else case SplitN slash 3 (TrimPrefix urlPath rootPathPrefix) of
        esClusterName # esName # rest # _ \<Rightarrow>
          if esClusterName = '''' then rejected
          else if esName = '''' then rejected
          else let realPath = ''/'' @ rest in
          if \<not> HasPrefix realPath ''/clusters/'' then rejected
          else (case SplitN slash 2 (TrimPrefix realPath ''/clusters/'') of
             [] \<Rightarrow> rejected
           | t # parts \<Rightarrow>
               let realPath = ''/'' @ (case parts of [] \<Rightarrow> '''' | r # _ \<Rightarrow> r);
                   key = esClusterName @ ''/'' @ esName
               in if lc_is_wildcard lc t
                  then (\<lparr>cl_Name = '''', cl_Wildcard = True\<rparr>, key, TrimSuffix urlPath realPath, True)
                  else (case lc_name lc t of
                     None \<Rightarrow> rejected
                   | Some name \<Rightarrow>
                       (\<lparr>cl_Name = name, cl_Wildcard = False\<rparr>, key, TrimSuffix urlPath realPath, True)))
      | _ \<Rightarrow> rejected)"

definition normalizeRootPathPrefix :: "string \<Rightarrow> string" where
  "normalizeRootPathPrefix rootPathPrefix =
     (if \<not> HasSuffix rootPathPrefix ''/'' then rootPathPrefix @ ''/'' else rootPathPrefix)"

text \<open>The \<open>RootPathResolver\<close>: accepted, prefix to strip, completed context.\<close>

definition resolveRootPath ::
    "logicalcluster_api \<Rightarrow> string \<Rightarrow> string \<Rightarrow> req_ctx \<Rightarrow> bool \<times> string \<times> req_ctx" where
  "resolveRootPath lc rootPathPrefix urlPath ctx =
     (case digestUrl lc urlPath (normalizeRootPathPrefix rootPathPrefix) of
        (cluster, apiDomain, prefixToStrip, ok) \<Rightarrow>
          if \<not> ok then (False, '''', ctx)
          else (True, prefixToStrip,
                ctx\<lparr>ctx_Cluster := lc_valid lc cluster, ctx_DomainKey := apiDomain\<rparr>))"

section \<open>The paths it accepts\<close>

text \<open>The cluster a path segment names, if any.\<close>

definition target_of :: "logicalcluster_api \<Rightarrow> string \<Rightarrow> cluster option" where
  "target_of lc t =
     (if lc_is_wildcard lc t then Some \<lparr>cl_Name = '''', cl_Wildcard = True\<rparr>
      else map_option (\<lambda>n. \<lparr>cl_Name = n, cl_Wildcard = False\<rparr>) (lc_name lc t))"

lemma digestUrl_accepted:
  assumes "digestUrl lc url root = (cluster, key, pre, True)"
  obtains c n t rest where
    "url = root @ c @ ''/'' @ n @ ''/clusters/'' @ t @ rest"
    "c \<noteq> ''''" "n \<noteq> ''''" "slash \<notin> set c" "slash \<notin> set n" "slash \<notin> set t"
    "rest = '''' \<or> (\<exists>r. rest = ''/'' @ r)"
    "target_of lc t = Some cluster" "key = c @ ''/'' @ n"
    "pre = TrimSuffix url (if rest = '''' then ''/'' else rest)"
proof -
  have pfx: "HasPrefix url root" using assms by (auto simp: digestUrl_def rejected_def split: if_splits)
  then obtain u where u: "url = root @ u" by (auto simp: HasPrefix_iff)
  obtain c n p q where s3: "SplitN slash 3 u = c # n # p # q"
    using assms u by (auto simp: digestUrl_def rejected_def split: list.splits)
  note cut = SplitN3_Cons [OF s3]
  have cn: "c \<noteq> ''''" "n \<noteq> ''''" and cl: "HasPrefix (slash # p) ''/clusters/''"
    using assms u s3 by (auto simp: digestUrl_def rejected_def Let_def split: if_splits)
  from cl obtain v where "slash # p = ''/clusters/'' @ v" unfolding HasPrefix_iff ..
  then have p: "p = ''clusters/'' @ v" by simp
  show thesis
  proof (cases rule: SplitN2_cases [of slash v])
    case whole
    then show thesis
      using assms u s3 cn cut p that [of c n v "''''"]
      by (auto simp: digestUrl_def rejected_def Let_def target_of_def TrimPrefix_def HasPrefix_def
          split: if_splits option.splits)
  next
    case (cut t r)
    then show thesis
      using assms u s3 cn SplitN3_Cons [OF s3] p that [of c n t "''/'' @ r"]
      by (auto simp: digestUrl_def rejected_def Let_def target_of_def TrimPrefix_def HasPrefix_def
          split: if_splits option.splits)
  qed
qed

lemma resolved_key:
  assumes "resolveRootPath lc root url ctx = (True, pre, ctx')"
  obtains c n where "ctx_DomainKey ctx' = c @ ''/'' @ n" "slash \<notin> set c" "slash \<notin> set n"
proof -
  obtain cluster where "digestUrl lc url (normalizeRootPathPrefix root)
      = (cluster, ctx_DomainKey ctx', pre, True)"
    using assms by (auto simp: resolveRootPath_def split: prod.splits if_splits)
  from digestUrl_accepted [OF this] show thesis using that by metis
qed

lemma SplitN2_cut: "c \<notin> set a \<Longrightarrow> SplitN c 2 (a @ c # r) = [a, r]"
  using SplitN_append [of c a 0 r] by (simp add: numeral_2_eq_2)

lemma SplitN2_whole: "c \<notin> set a \<Longrightarrow> SplitN c 2 a = [a]"
  using SplitN_none [of c a 0] by (simp add: numeral_2_eq_2)

lemma SplitN3_cut:
  "c \<notin> set a \<Longrightarrow> c \<notin> set b \<Longrightarrow> SplitN c 3 (a @ c # b @ c # r) = [a, b, r]"
  using SplitN_append [of c a 1 "b @ c # r"] SplitN2_cut [of c b r]
  by (simp add: numeral_3_eq_3 numeral_2_eq_2)

lemma TrimSuffix_no_slash:
  assumes "slash \<notin> set t" and "t \<noteq> ''''"
  shows "TrimSuffix (u @ t) ''/'' = u @ t"
proof (rule TrimSuffix_none)
  show "\<not> HasSuffix (u @ t) ''/''"
  proof
    assume "HasSuffix (u @ t) ''/''"
    then obtain r where "u @ t = r @ ''/''" unfolding HasSuffix_iff ..
    then have "last (u @ t) = slash" by simp
    with assms show False by (metis last_appendR last_in_set)
  qed
qed

text \<open>The paths of the form the comment in \<open>digestUrl\<close> gives are accepted, part by part.\<close>

theorem digestUrl_roundtrip:
  assumes "c \<noteq> ''''" "n \<noteq> ''''" "t \<noteq> ''''"
    and "slash \<notin> set c" "slash \<notin> set n" "slash \<notin> set t"
    and "rest = '''' \<or> HasPrefix rest ''/''"
    and "target_of lc t = Some cluster"
  shows "digestUrl lc (root @ c @ ''/'' @ n @ ''/clusters/'' @ t @ rest) root
    = (cluster, c @ ''/'' @ n, root @ c @ ''/'' @ n @ ''/clusters/'' @ t, True)"
proof -
  let ?url = "root @ c @ ''/'' @ n @ ''/clusters/'' @ t @ rest"
  have s3: "SplitN slash 3 (TrimPrefix ?url root) = [c, n, ''clusters/'' @ t @ rest]"
    using SplitN3_cut [of slash c n "''clusters/'' @ t @ rest"] assms by simp
  have cl: "HasPrefix (slash # ''clusters/'' @ t @ rest) ''/clusters/''"
    "TrimPrefix (slash # ''clusters/'' @ t @ rest) ''/clusters/'' = t @ rest"
    by (simp_all add: HasPrefix_def TrimPrefix_def)
  show ?thesis
  proof (cases "rest = ''''")
    case True
    then have s2: "SplitN slash 2 (t @ rest) = [t]" using SplitN2_whole [of slash t] assms by simp
    have trim: "TrimSuffix ?url ''/'' = root @ c @ ''/'' @ n @ ''/clusters/'' @ t"
      using TrimSuffix_no_slash [of t "root @ c @ ''/'' @ n @ ''/clusters/''"] True assms by simp
    show ?thesis
      using assms s3 cl s2 trim by (auto simp: digestUrl_def Let_def target_of_def)
  next
    case False
    then obtain r where r: "rest = slash # r" using assms by (auto simp: HasPrefix_iff)
    then have s2: "SplitN slash 2 (t @ rest) = [t, r]" using SplitN2_cut [of slash t r] assms by simp
    have trim: "TrimSuffix ?url rest = root @ c @ ''/'' @ n @ ''/clusters/'' @ t"
      using TrimSuffix_append [of "root @ c @ ''/'' @ n @ ''/clusters/'' @ t" rest] by simp
    show ?thesis
      using assms s3 cl s2 trim r by (auto simp: digestUrl_def Let_def target_of_def)
  qed
qed

definition w_lc :: logicalcluster_api where [world]:
  "w_lc = \<lparr>lc_is_wildcard = (\<lambda>s. s = ''*''), lc_name = (\<lambda>s. if s = '''' then None else Some s),
           lc_valid = Inr\<rparr>"

theorem digestUrl_roundtrip_witness:
  "digestUrl w_lc ''/fx/prov/es/clusters/*/api/v1'' ''/fx/''
     = (\<lparr>cl_Name = '''', cl_Wildcard = True\<rparr>, ''prov/es'', ''/fx/prov/es/clusters/*'', True)"
  using digestUrl_roundtrip [of "''prov''" "''es''" "''*''" "''/api/v1''" w_lc
      "\<lparr>cl_Name = '''', cl_Wildcard = True\<rparr>" "''/fx/''"]
  by (simp add: HasPrefix_def target_of_def w_lc_def)

text \<open>
  Every accepted request path is the root prefix, a non-empty slice cluster and name, the
  segment clusters and a target that names a cluster or is the wildcard; the domain key splits
  into that cluster and name again and the stripped prefix is a prefix of the path.
\<close>

theorem resolved_request_is_addressed:
  assumes "resolveRootPath lc root url ctx = (True, pre, ctx')"
  shows "\<exists>c n t rest cluster. url = normalizeRootPathPrefix root @ c @ ''/'' @ n @ ''/clusters/'' @ t @ rest
     \<and> domain_key_parts (ctx_DomainKey ctx') = Some (c, n) \<and> c \<noteq> '''' \<and> n \<noteq> ''''
     \<and> target_of lc t = Some cluster \<and> ctx_Cluster ctx' = lc_valid lc cluster
     \<and> prefix pre url"
proof -
  obtain cluster where d: "digestUrl lc url (normalizeRootPathPrefix root)
      = (cluster, ctx_DomainKey ctx', pre, True)"
    and cl: "ctx_Cluster ctx' = lc_valid lc cluster"
    using assms by (auto simp: resolveRootPath_def split: prod.splits if_splits)
  from digestUrl_accepted [OF d] obtain c n t rest where
    a: "url = normalizeRootPathPrefix root @ c @ ''/'' @ n @ ''/clusters/'' @ t @ rest"
    "c \<noteq> ''''" "n \<noteq> ''''" "slash \<notin> set c" "slash \<notin> set n"
    "target_of lc t = Some cluster" "ctx_DomainKey ctx' = c @ ''/'' @ n"
    "pre = TrimSuffix url (if rest = '''' then ''/'' else rest)" by metis
  have "domain_key_parts (ctx_DomainKey ctx') = Some (c, n)" using a by simp
  moreover have "prefix pre url" using a(8) prefix_TrimSuffix by metis
  ultimately show ?thesis using a cl by blast
qed

theorem resolved_request_is_addressed_witness:
  "\<exists>c n t rest cluster. ''/fx/prov/es/clusters/cons/api''
       = normalizeRootPathPrefix ''/fx'' @ c @ ''/'' @ n @ ''/clusters/'' @ t @ rest
     \<and> domain_key_parts (ctx_DomainKey w_ctx) = Some (c, n) \<and> c \<noteq> '''' \<and> n \<noteq> ''''
     \<and> target_of w_lc t = Some cluster \<and> ctx_Cluster w_ctx = lc_valid w_lc cluster
     \<and> prefix ''/fx/prov/es/clusters/cons'' ''/fx/prov/es/clusters/cons/api''"
proof (rule resolved_request_is_addressed [of w_lc "''/fx''" _ w_ctx])
  show "resolveRootPath w_lc ''/fx'' ''/fx/prov/es/clusters/cons/api'' w_ctx
      = (True, ''/fx/prov/es/clusters/cons'', w_ctx)"
    by code_simp
qed

end
