(* ===== verification/Schemas.thy ===== *)
theory Schemas
  imports Examples
begin

text \<open>
  The schemas the virtual workspace can serve without an \<open>APIResourceSchema\<close> object:
  \<open>schemas/builtin/builtin.go\<close> (Kubernetes built-ins), \<open>schemas/apis.go\<close> (the
  kcp APIs) and \<open>schemas/file.go\<close> (the CRD of this repository, as YAML). The
  annotations of a schema are a Go map, hence a reference (\<open>sc_Annotations\<close>, nil or an
  address), because the API reconciler copies a schema shallowly and writes to that map.

  Parameters, each from a library: \<open>internalapis.CreateAPIResourceSchemas\<close>,
  \<open>configcrds.Unmarshal\<close>, \<open>yaml.Unmarshal\<close> (its value on \<open>configFile\<close> is
  \<open>configFile_crd\<close>), \<open>apisv1alpha1.CRDToAPIResourceSchema\<close>, \<open>json.Marshal\<close>.
\<close>

record schema_version =
  v_Name :: string
  v_Served :: bool
  v_Raw :: string

record APIResourceSchema =
  sc_Name :: string
  sc_UID :: string
  sc_Annotations :: "nat option"
  sc_Group :: string
  sc_Plural :: string
  sc_Versions :: "schema_version list"

definition schema_gr :: "APIResourceSchema \<Rightarrow> group_resource" where
  "schema_gr s = \<lparr>gr_Group = sc_Group s, gr_Resource = sc_Plural s\<rparr>"

section \<open>The built-in APIs\<close>

datatype resource_scope = ClusterScoped | NamespaceScoped

record internal_api =
  ia_Plural :: string
  ia_Singular :: string
  ia_Kind :: string
  ia_Group :: string
  ia_Version :: string
  ia_Scope :: resource_scope
  ia_HasStatus :: bool

definition internal_api ::
    "string \<Rightarrow> string \<Rightarrow> string \<Rightarrow> string \<Rightarrow> string \<Rightarrow> resource_scope \<Rightarrow> bool \<Rightarrow> internal_api" where
  "internal_api plural singular kind grp version scope hasStatus =
     \<lparr>ia_Plural = plural, ia_Singular = singular, ia_Kind = kind, ia_Group = grp,
      ia_Version = version, ia_Scope = scope, ia_HasStatus = hasStatus\<rparr>"

definition BuiltInAPIs_core :: "internal_api list" where
  "BuiltInAPIs_core =
    [internal_api ''namespaces'' ''namespace'' ''Namespace'' '''' ''v1'' ClusterScoped True,
     internal_api ''configmaps'' ''configmap'' ''ConfigMap'' '''' ''v1'' NamespaceScoped False,
     internal_api ''events'' ''event'' ''Event'' '''' ''v1'' NamespaceScoped False,
     internal_api ''resourcequotas'' ''resourcequota'' ''ResourceQuota'' '''' ''v1'' NamespaceScoped True,
     internal_api ''secrets'' ''secret'' ''Secret'' '''' ''v1'' NamespaceScoped False,
     internal_api ''serviceaccounts'' ''serviceaccount'' ''ServiceAccount'' '''' ''v1'' NamespaceScoped False,
     internal_api ''clusterroles'' ''clusterrole'' ''ClusterRole''
       ''rbac.authorization.k8s.io'' ''v1'' ClusterScoped False,
     internal_api ''clusterrolebindings'' ''clusterrolebinding'' ''ClusterRoleBinding''
       ''rbac.authorization.k8s.io'' ''v1'' ClusterScoped False,
     internal_api ''roles'' ''role'' ''Role'' ''rbac.authorization.k8s.io'' ''v1'' NamespaceScoped False,
     internal_api ''rolebindings'' ''rolebinding'' ''RoleBinding''
       ''rbac.authorization.k8s.io'' ''v1'' NamespaceScoped False]"

definition BuiltInAPIs_rest :: "internal_api list" where
  "BuiltInAPIs_rest =
    [internal_api ''certificatesigningrequests'' ''certificatesigningrequest''
       ''CertificateSigningRequest'' ''certificates.k8s.io'' ''v1'' ClusterScoped True,
     internal_api ''leases'' ''lease'' ''Lease'' ''coordination.k8s.io'' ''v1'' NamespaceScoped False,
     internal_api ''mutatingwebhookconfigurations'' ''mutatingwebhookconfiguration''
       ''MutatingWebhookConfiguration'' ''admissionregistration.k8s.io'' ''v1'' ClusterScoped False,
     internal_api ''validatingwebhookconfigurations'' ''validatingwebhookconfiguration''
       ''ValidatingWebhookConfiguration'' ''admissionregistration.k8s.io'' ''v1'' ClusterScoped False,
     internal_api ''events'' ''event'' ''Event'' ''events.k8s.io'' ''v1'' NamespaceScoped False,
     internal_api ''validatingadmissionpolicies'' ''validatingadmissionpolicy''
       ''ValidatingAdmissionPolicy'' ''admissionregistration.k8s.io'' ''v1'' ClusterScoped True,
     internal_api ''validatingadmissionpolicybindings'' ''validatingadmissionpolicybinding''
       ''ValidatingAdmissionPolicyBinding'' ''admissionregistration.k8s.io'' ''v1'' ClusterScoped False,
     internal_api ''customresourcedefinitions'' ''customresourcedefinition''
       ''CustomResourceDefinition'' ''apiextensions.k8s.io'' ''v1'' ClusterScoped True,
     internal_api ''logicalclusters'' ''logicalcluster'' ''LogicalCluster''
       ''core.kcp.io'' ''v1alpha1'' ClusterScoped True,
     internal_api ''subjectaccessreviews'' ''subjectaccessreview'' ''SubjectAccessReview''
       ''authorization.k8s.io'' ''v1'' ClusterScoped False,
     internal_api ''localsubjectaccessreviews'' ''localsubjectaccessreview''
       ''LocalSubjectAccessReview'' ''authorization.k8s.io'' ''v1'' NamespaceScoped False]"

definition BuiltInAPIs :: "internal_api list" where
  "BuiltInAPIs = BuiltInAPIs_core @ BuiltInAPIs_rest"

type_synonym builtin_schemas = "group_resource \<rightharpoonup> APIResourceSchema"
type_synonym schema_maker = "internal_api list \<Rightarrow> go_error + APIResourceSchema list"

text \<open>\<open>init\<close>: an error is a panic at start-up; the loop fills the map, last entry wins.\<close>

fun put_schemas :: "APIResourceSchema list \<Rightarrow> builtin_schemas \<Rightarrow> builtin_schemas" where
  "put_schemas [] m = m"
| "put_schemas (api # apis) m = put_schemas apis (m(schema_gr api \<mapsto> api))"

definition init_builtin :: "schema_maker \<Rightarrow> go_error + builtin_schemas" where
  "init_builtin CreateAPIResourceSchemas =
     (case CreateAPIResourceSchemas BuiltInAPIs of
        Inl err \<Rightarrow> Inl err
      | Inr apis \<Rightarrow> Inr (put_schemas apis Map.empty))"

definition IsBuiltInAPI :: "builtin_schemas \<Rightarrow> group_resource \<Rightarrow> bool" where
  "IsBuiltInAPI builtInAPIResourceSchemas gr \<longleftrightarrow> builtInAPIResourceSchemas gr \<noteq> None"

definition GetBuiltInAPISchema ::
    "builtin_schemas \<Rightarrow> group_resource \<Rightarrow> go_error + APIResourceSchema" where
  "GetBuiltInAPISchema builtInAPIResourceSchemas gr =
     (case builtInAPIResourceSchemas gr of
        None \<Rightarrow> Inl (Errorf ''no schema found for built-in API %s.%s''
                       [Str (gr_Resource gr), Str (gr_Group gr)])
      | Some s \<Rightarrow> Inr s)"

lemma GetBuiltIn_total:
  "IsBuiltInAPI m gr \<longleftrightarrow> (\<exists>s. GetBuiltInAPISchema m gr = Inr s)"
  by (auto simp: IsBuiltInAPI_def GetBuiltInAPISchema_def split: option.splits)


text \<open>
  What \<open>init\<close> relies on: one schema for each internal API, of its group and resource,
  with the one version of its \<open>GroupVersion\<close>.
\<close>

definition schema_maker_law :: "schema_maker \<Rightarrow> bool" where
  "schema_maker_law create \<longleftrightarrow>
     (\<forall>apis ss. create apis = Inr ss \<longrightarrow>
        list_all2 (\<lambda>a s. sc_Group s = ia_Group a \<and> sc_Plural s = ia_Plural a
                     \<and> map v_Name (sc_Versions s) = [ia_Version a]) apis ss)"

definition ia_gr :: "internal_api \<Rightarrow> group_resource" where
  "ia_gr a = \<lparr>gr_Group = ia_Group a, gr_Resource = ia_Plural a\<rparr>"

lemma put_schemas_notin:
  "gr \<notin> schema_gr ` set ss \<Longrightarrow> put_schemas ss m gr = m gr"
  by (induction ss arbitrary: m) auto

lemma put_schemas_dom:
  "put_schemas ss m gr \<noteq> None \<longleftrightarrow> gr \<in> schema_gr ` set ss \<or> m gr \<noteq> None"
  by (induction ss arbitrary: m) auto

lemma put_schemas_SomeD:
  "put_schemas ss m gr = Some s \<Longrightarrow> s \<in> set ss \<and> schema_gr s = gr \<or> m gr = Some s"
proof (induction ss arbitrary: m)
  case (Cons a ss)
  have "s \<in> set ss \<and> schema_gr s = gr \<or> (m(schema_gr a \<mapsto> a)) gr = Some s"
    using Cons.prems unfolding put_schemas.simps by (rule Cons.IH)
  then show ?case by (auto split: if_splits)
qed simp

lemma list_all2_image:
  "list_all2 (\<lambda>a s. f a = g s) as ss \<Longrightarrow> f ` set as = g ` set ss"
  by (induction rule: list_all2_induct) auto

text \<open>
  After start-up the built-in lookup knows exactly the group-resources of the table, each
  listed once, and finds for each a schema of that group and resource.
\<close>

theorem builtin_complete:
  assumes law: "schema_maker_law create" and init: "init_builtin create = Inr m"
  shows "(IsBuiltInAPI m gr \<longleftrightarrow> gr \<in> ia_gr ` set BuiltInAPIs)
    \<and> (IsBuiltInAPI m gr \<longrightarrow> (\<exists>s. GetBuiltInAPISchema m gr = Inr s \<and> schema_gr s = gr))
    \<and> distinct (map ia_gr BuiltInAPIs)"
proof (intro conjI impI)
  obtain ss where ss: "create BuiltInAPIs = Inr ss" and m: "m = put_schemas ss Map.empty"
    using init by (auto simp: init_builtin_def split: sum.splits)
  then have "list_all2 (\<lambda>a s. ia_gr a = schema_gr s) BuiltInAPIs ss"
    using list_all2_mono [OF law [unfolded schema_maker_law_def, rule_format, OF ss]]
    by (simp add: ia_gr_def schema_gr_def)
  then have "ia_gr ` set BuiltInAPIs = schema_gr ` set ss" by (rule list_all2_image)
  then show "IsBuiltInAPI m gr \<longleftrightarrow> gr \<in> ia_gr ` set BuiltInAPIs"
    using put_schemas_dom [of ss Map.empty gr] by (simp add: IsBuiltInAPI_def m)
  show "\<exists>s. GetBuiltInAPISchema m gr = Inr s \<and> schema_gr s = gr" if "IsBuiltInAPI m gr"
    using that put_schemas_SomeD [of ss Map.empty gr]
    by (auto simp: IsBuiltInAPI_def GetBuiltInAPISchema_def m)
  show "distinct (map ia_gr BuiltInAPIs)"
    by (simp add: BuiltInAPIs_def BuiltInAPIs_core_def BuiltInAPIs_rest_def internal_api_def ia_gr_def)
qed

definition w_maker :: schema_maker where [world]:
  "w_maker apis = Inr (map (\<lambda>a. \<lparr>sc_Name = ia_Plural a, sc_UID = '''', sc_Annotations = None,
      sc_Group = ia_Group a, sc_Plural = ia_Plural a,
      sc_Versions = [\<lparr>v_Name = ia_Version a, v_Served = True, v_Raw = ''''\<rparr>]\<rparr>) apis)"

lemma w_maker_law [simp]: "schema_maker_law w_maker"
  by (auto simp: schema_maker_law_def w_maker_def list_all2_conv_all_nth)

definition w_builtin :: builtin_schemas where [world]:
  "w_builtin = (case init_builtin w_maker of Inl _ \<Rightarrow> Map.empty | Inr m \<Rightarrow> m)"

lemma init_w_maker: "init_builtin w_maker = Inr w_builtin"
  by (simp add: w_builtin_def init_builtin_def w_maker_def)

theorem builtin_complete_witness:
  "IsBuiltInAPI w_builtin \<lparr>gr_Group = '''', gr_Resource = ''configmaps''\<rparr>
   \<and> \<not> IsBuiltInAPI w_builtin \<lparr>gr_Group = '''', gr_Resource = ''widgets''\<rparr>"
  using builtin_complete [OF w_maker_law init_w_maker]
  by (simp add: BuiltInAPIs_def BuiltInAPIs_core_def BuiltInAPIs_rest_def internal_api_def ia_gr_def)

section \<open>The kcp APIs\<close>

record crd =
  crd_Group :: string
  crd_Plural :: string
  crd_Versions :: "(string \<times> bool) list"      \<comment> \<open>name and \<open>served\<close>\<close>

text \<open>The document \<open>configFile\<close>.\<close>

definition configFile_crd :: crd where
  "configFile_crd = \<lparr>crd_Group = ''filteredapiexport.kcp.io'',
                     crd_Plural = ''filteredapiexportendpointslices'',
                     crd_Versions = [(''v1alpha1'', True)]\<rparr>"

record crd_api =
  UnmarshalFile :: "string \<Rightarrow> go_error + crd"
  CRDToAPIResourceSchema :: "crd \<Rightarrow> string \<Rightarrow> go_error + APIResourceSchema"
  PreserveUnknownJSON :: "go_error + string"

definition wipe_schemas :: "string \<Rightarrow> APIResourceSchema \<Rightarrow> APIResourceSchema" where
  "wipe_schemas bs s = s\<lparr>sc_Versions := map (\<lambda>v. v\<lparr>v_Raw := bs\<rparr>) (sc_Versions s)\<rparr>"

definition add_crd ::
    "crd_api \<Rightarrow> string \<Rightarrow> crd \<Rightarrow> (string \<rightharpoonup> APIResourceSchema)
      \<Rightarrow> go_error + (string \<rightharpoonup> APIResourceSchema)" where
  "add_crd A resource c m =
     (case CRDToAPIResourceSchema A c ''crd'' of
        Inl err \<Rightarrow> Inl err
      | Inr s \<Rightarrow>
          (case PreserveUnknownJSON A of
             Inl err \<Rightarrow> Inl err
           | Inr bs \<Rightarrow> Inr (m(resource \<mapsto> wipe_schemas bs s))))"

fun add_apis ::
    "crd_api \<Rightarrow> string list \<Rightarrow> (string \<rightharpoonup> APIResourceSchema)
      \<Rightarrow> go_error + (string \<rightharpoonup> APIResourceSchema)" where
  "add_apis A [] m = Inr m"
| "add_apis A (resource # rs) m =
     (case UnmarshalFile A (''apis.kcp.io_'' @ resource @ ''.yaml'') of
        Inl err \<Rightarrow> Inl err
      | Inr c \<Rightarrow>
          (case add_crd A resource c m of
             Inl err \<Rightarrow> Inl err
           | Inr m' \<Rightarrow> add_apis A rs m'))"

text \<open>\<open>init\<close> of \<open>apis.go\<close>; an error is a panic.\<close>

definition init_apis :: "crd_api \<Rightarrow> go_error + (string \<rightharpoonup> APIResourceSchema)" where
  "init_apis A =
     (case add_apis A [''apibindings'', ''apiresourceschemas'', ''apiexports''] Map.empty of
        Inl err \<Rightarrow> Inl err
      | Inr m \<Rightarrow> add_crd A ''filteredapiexportendpointslices'' configFile_crd m)"

text \<open>
  What the conversion promises: group, resource, and the served versions of the CRD.
\<close>

definition crd_law :: "crd_api \<Rightarrow> bool" where
  "crd_law A \<longleftrightarrow>
     (\<forall>c p s. CRDToAPIResourceSchema A c p = Inr s \<longrightarrow>
        sc_Group s = crd_Group c \<and> sc_Plural s = crd_Plural c
        \<and> map (\<lambda>v. (v_Name v, v_Served v)) (sc_Versions s) = crd_Versions c)
     \<and> (\<forall>r c. UnmarshalFile A (''apis.kcp.io_'' @ r @ ''.yaml'') = Inr c \<longrightarrow>
          crd_Group c = ''apis.kcp.io'' \<and> crd_Plural c = r)"

lemma add_crd_Inr:
  assumes "crd_law A" "add_crd A r c m = Inr m'"
  obtains s where "m' = m(r \<mapsto> s)" "sc_Group s = crd_Group c" "sc_Plural s = crd_Plural c"
    "map (\<lambda>v. (v_Name v, v_Served v)) (sc_Versions s) = crd_Versions c"
  using assms by (auto simp: add_crd_def crd_law_def wipe_schemas_def comp_def split: sum.splits)

lemma add_apis_Inr:
  "crd_law A \<Longrightarrow> add_apis A rs m = Inr m' \<Longrightarrow>
     dom m' = dom m \<union> set rs
     \<and> (\<forall>r \<in> set rs. sc_Group (the (m' r)) = ''apis.kcp.io'' \<and> sc_Plural (the (m' r)) = r)
     \<and> (\<forall>r. r \<notin> set rs \<longrightarrow> m' r = m r)"
proof (induction rs arbitrary: m)
  case (Cons r rs)
  from Cons.prems obtain c m1 where
    c: "UnmarshalFile A (''apis.kcp.io_'' @ r @ ''.yaml'') = Inr c" "add_crd A r c m = Inr m1"
    and rest: "add_apis A rs m1 = Inr m'"
    by (auto split: sum.splits)
  from add_crd_Inr [OF Cons.prems(1) c(2)] obtain s where
    s: "m1 = m(r \<mapsto> s)" "sc_Group s = crd_Group c" "sc_Plural s = crd_Plural c" by metis
  have "crd_Group c = ''apis.kcp.io'' \<and> crd_Plural c = r"
    using Cons.prems(1) c(1) unfolding crd_law_def by blast
  with Cons.IH [OF Cons.prems(1) rest] s show ?case by auto
qed simp

text \<open>
  The kcp schemas read at start-up are keyed by their plural and are of apis.kcp.io, except
  the one for filteredapiexportendpointslices, which is of filteredapiexport.kcp.io and not of
  the API group of the program.
\<close>

theorem kcp_schema_groups:
  assumes law: "crd_law A" and init: "init_apis A = Inr schemas"
  shows "dom schemas = {''apibindings'', ''apiresourceschemas'', ''apiexports'',
                        ''filteredapiexportendpointslices''}
    \<and> (\<forall>r s. schemas r = Some s \<longrightarrow> sc_Plural s = r
         \<and> sc_Group s = (if r = ''filteredapiexportendpointslices'' then ''filteredapiexport.kcp.io''
                         else ''apis.kcp.io'')
         \<and> sc_Group s \<noteq> GroupName)"
proof (intro conjI allI impI)
  obtain m where m: "add_apis A [''apibindings'', ''apiresourceschemas'', ''apiexports''] Map.empty = Inr m"
    and add: "add_crd A ''filteredapiexportendpointslices'' configFile_crd m = Inr schemas"
    using init by (auto simp: init_apis_def split: sum.splits)
  from add_crd_Inr [OF law add] obtain e where e:
    "schemas = m(''filteredapiexportendpointslices'' \<mapsto> e)"
    "sc_Group e = ''filteredapiexport.kcp.io''" "sc_Plural e = ''filteredapiexportendpointslices''"
    "map (\<lambda>v. (v_Name v, v_Served v)) (sc_Versions e) = [(''v1alpha1'', True)]"
    by (auto simp: configFile_crd_def)
  note kcp = add_apis_Inr [OF law m]
  show "dom schemas = {''apibindings'', ''apiresourceschemas'', ''apiexports'',
                       ''filteredapiexportendpointslices''}"
    using kcp e(1) by auto
  fix r s
  assume r: "schemas r = Some s"
  have "sc_Plural s = r \<and> sc_Group s = ''apis.kcp.io''" if "r \<noteq> ''filteredapiexportendpointslices''"
  proof -
    have "m r = Some s" using r e(1) that by simp
    moreover from this have "r \<in> set [''apibindings'', ''apiresourceschemas'', ''apiexports'']"
      using kcp by blast
    ultimately show ?thesis using kcp by (metis option.sel)
  qed
  then show "sc_Plural s = r"
    and "sc_Group s = (if r = ''filteredapiexportendpointslices'' then ''filteredapiexport.kcp.io''
           else ''apis.kcp.io'')"
    and "sc_Group s \<noteq> GroupName"
    using e r by (auto simp: GroupName_def split: if_splits)
qed

definition w_crd_api :: crd_api where [world]:
  "w_crd_api = \<lparr>
     UnmarshalFile = (\<lambda>f. Inr \<lparr>crd_Group = ''apis.kcp.io'', crd_Plural = TrimSuffix (TrimPrefix f ''apis.kcp.io_'') ''.yaml'',
                         crd_Versions = [(''v1alpha1'', True), (''v1alpha2'', True)]\<rparr>),
     CRDToAPIResourceSchema = (\<lambda>c p. Inr \<lparr>sc_Name = p @ ''.'' @ crd_Plural c, sc_UID = '''',
        sc_Annotations = None, sc_Group = crd_Group c, sc_Plural = crd_Plural c,
        sc_Versions = map (\<lambda>(n, s). \<lparr>v_Name = n, v_Served = s, v_Raw = ''''\<rparr>) (crd_Versions c)\<rparr>),
     PreserveUnknownJSON = Inr ''{}''\<rparr>"

lemma w_crd_law [simp]: "crd_law w_crd_api"
proof -
  have "TrimSuffix (TrimPrefix (''apis.kcp.io_'' @ r @ ''.yaml'') ''apis.kcp.io_'') ''.yaml'' = r" for r
    by (simp only: TrimPrefix_append TrimSuffix_append)
  then show ?thesis
    by (simp add: crd_law_def w_crd_api_def comp_def split_def del: append_Cons append.simps)
qed

definition w_apis :: "string \<rightharpoonup> APIResourceSchema" where [world]:
  "w_apis = (case init_apis w_crd_api of Inl _ \<Rightarrow> Map.empty | Inr m \<Rightarrow> m)"

lemma add_crd_total: "\<exists>m'. add_crd w_crd_api r c m = Inr m'"
  by (simp add: add_crd_def w_crd_api_def)

lemma add_apis_total: "\<exists>m'. add_apis w_crd_api rs m = Inr m'"
proof (induction rs arbitrary: m)
  case (Cons r rs)
  obtain c where c: "UnmarshalFile w_crd_api (''apis.kcp.io_'' @ r @ ''.yaml'') = Inr c"
    by (simp add: w_crd_api_def)
  obtain m1 where "add_crd w_crd_api r c m = Inr m1" using add_crd_total by blast
  with c Cons.IH [of m1] show ?case by (simp del: append_Cons append.simps)
qed simp

lemma init_w_crd_api: "init_apis w_crd_api = Inr w_apis"
proof -
  obtain m where m: "add_apis w_crd_api [''apibindings'', ''apiresourceschemas'', ''apiexports''] Map.empty = Inr m"
    using add_apis_total by blast
  obtain m' where "add_crd w_crd_api ''filteredapiexportendpointslices'' configFile_crd m = Inr m'"
    using add_crd_total by blast
  with m have "init_apis w_crd_api = Inr m'" unfolding init_apis_def by (simp only: sum.case)
  then show ?thesis unfolding w_apis_def by (simp only: sum.case)
qed

theorem kcp_schema_groups_witness:
  "\<exists>s. w_apis ''filteredapiexportendpointslices'' = Some s \<and> sc_Group s \<noteq> GroupName"
proof -
  note facts = kcp_schema_groups [OF w_crd_law init_w_crd_api]
  have "''filteredapiexportendpointslices'' \<in> dom w_apis"
    unfolding conjunct1 [OF facts] by (simp only: insert_iff simp_thms)
  then obtain s where s: "w_apis ''filteredapiexportendpointslices'' = Some s" unfolding dom_def by blast
  moreover have "sc_Group s \<noteq> GroupName" using conjunct2 [OF facts] s by blast
  ultimately show ?thesis by (intro exI conjI)
qed

end
