(* ===== verification/Builder.thy ===== *)
theory Builder
  imports Schemas
begin

text \<open>
  \<open>builder/build.go\<close> and \<open>builder/forwarding.go\<close>: the client a request is forwarded
  with, the REST storage an API is served from, and the API definitions the API reconciler
  creates and tears down.

  \<^item> \<open>impersonatedDynamicClientGetter\<close>: the \<open>Extra\<close> map of the user is a reference
    into a store, because the code writes the warrant into the map the user object holds.
  \<^item> \<open>defs_state\<close> is the run-time state behind the \<open>APIDefinition\<close> interface values:
    contexts and definitions are numbered from one counter, and the state records which
    contexts are cancelled and which definitions are torn down, in order.
  \<^item> Parameters: the constants of the warrant, client construction, label selectors,
    \<open>ProvideReadOnlyRestStorage\<close> and \<open>CreateServingInfoFor\<close> of kcp (whether they fail).
\<close>

section \<open>The client a request is forwarded with\<close>

record warrant =
  wr_User :: string
  wr_Groups :: "string list"
  wr_Extra :: "string \<rightharpoonup> string list"

record impersonation =
  im_UserName :: string
  im_UID :: string
  im_Groups :: "string list"
  im_Extra :: nat                        \<comment> \<open>address of the map\<close>

datatype dynamic_client = Privileged | Impersonated impersonation

record request_user =
  ru_Name :: string
  ru_UID :: string
  ru_Groups :: "string list"
  ru_Extra :: "nat option"               \<comment> \<open>nil, or the address of the map\<close>

type_synonym extra_store = "nat \<rightharpoonup> (string \<rightharpoonup> string list)"

record client_env =
  ce_SystemKcpAdminGroup :: string
  ce_ClusterNameKey :: string
  ce_WarrantExtraKey :: string
  ce_PathString :: "string \<Rightarrow> string"
  ce_Marshal :: "warrant \<Rightarrow> go_error + string"
  ce_NewForConfig :: "dynamic_client \<Rightarrow> go_error option"

definition rest_warrant :: "client_env \<Rightarrow> string \<Rightarrow> warrant" where
  "rest_warrant env clusterName =
     \<lparr>wr_User = ''system:serviceaccount:default:rest'',
      wr_Groups = [ce_SystemKcpAdminGroup env],
      wr_Extra = [ce_ClusterNameKey env \<mapsto> [ce_PathString env clusterName]]\<rparr>"

text \<open>
  \<open>fresh\<close> is the address a \<open>map[string][]string{}\<close> literal gets; the user of the context
  is \<open>None\<close> when the request carries none.
\<close>

definition impersonatedDynamicClientGetter ::
    "client_env \<Rightarrow> go_error + cluster \<Rightarrow> request_user option \<Rightarrow> nat \<Rightarrow> extra_store
      \<Rightarrow> (go_error + dynamic_client) \<times> extra_store" where
  "impersonatedDynamicClientGetter env ctxCluster ctxUser fresh st =
     (case ctxCluster of
        Inl err \<Rightarrow> (Inl (Wrap ''error getting valid cluster from context: %w'' [] err), st)
      | Inr c \<Rightarrow>
        (case ctxUser of
           None \<Rightarrow> (Inl (Errorf ''error getting user from context'' []), st)
         | Some user \<Rightarrow>
           if cl_Wildcard c then (Inr Privileged, st)
           else
             (case ce_Marshal env (rest_warrant env (cl_Name c)) of
                Inl err \<Rightarrow> (Inl (Wrap ''error marshaling warrant: %w'' [] err), st)
              | Inr bs \<Rightarrow>
                let (addr, st1) = (case ru_Extra user of
                                     None \<Rightarrow> (fresh, st(fresh \<mapsto> Map.empty))
                                   | Some a \<Rightarrow> (a, st));
                    extra = go_map (st1 addr);
                    old = (case extra (ce_WarrantExtraKey env) of None \<Rightarrow> [] | Some vs \<Rightarrow> vs);
                    st2 = st1(addr \<mapsto> extra(ce_WarrantExtraKey env \<mapsto> old @ [bs]));
                    client = Impersonated \<lparr>im_UserName = ru_Name user, im_UID = ru_UID user,
                                           im_Groups = ru_Groups user, im_Extra = addr\<rparr>
                in (case ce_NewForConfig env client of
                      Some err \<Rightarrow> (Inl (Wrap ''error generating dynamic client: %w'' [] err), st2)
                    | None \<Rightarrow> (Inr client, st2)))))"


text \<open>
  When the request user has an Extra map, the warrant is written into that very map: each call
  makes the list of warrants of the user one longer.
\<close>

theorem impersonation_writes_user_extra:
  assumes "impersonatedDynamicClientGetter env (Inr c) (Some user) fresh st = (Inr (Impersonated im), st')"
    and "ru_Extra user = Some a"
  shows "im_Extra im = a
    \<and> length (the (go_map (st' a) (ce_WarrantExtraKey env)))
        = (case go_map (st a) (ce_WarrantExtraKey env) of None \<Rightarrow> 1 | Some vs \<Rightarrow> length vs + 1)"
  using assms
  by (auto simp: impersonatedDynamicClientGetter_def Let_def
      split: sum.splits option.splits if_splits prod.splits)

definition w_client_env :: client_env where [world]:
  "w_client_env = \<lparr>ce_SystemKcpAdminGroup = ''system:kcp:admin'', ce_ClusterNameKey = ''cluster'',
     ce_WarrantExtraKey = ''warrant'', ce_PathString = (\<lambda>s. s), ce_Marshal = (\<lambda>w. Inr (wr_User w)),
     ce_NewForConfig = (\<lambda>_. None)\<rparr>"

definition w_user :: request_user where [world]:
  "w_user = \<lparr>ru_Name = ''alice'', ru_UID = ''1'', ru_Groups = [''dev''], ru_Extra = Some 7\<rparr>"

definition w_im :: impersonation where [world]:
  "w_im = \<lparr>im_UserName = ''alice'', im_UID = ''1'', im_Groups = [''dev''], im_Extra = 7\<rparr>"

definition w_extra :: extra_store where [world]:
  "w_extra = [7 \<mapsto> [''scopes'' \<mapsto> [''x'']]]"

definition w_extra' :: extra_store where [world]:
  "w_extra' = [7 \<mapsto> [''scopes'' \<mapsto> [''x''], ''warrant'' \<mapsto> [''system:serviceaccount:default:rest'']]]"

lemma w_impersonated:
  "impersonatedDynamicClientGetter w_client_env (Inr \<lparr>cl_Name = ''cons'', cl_Wildcard = False\<rparr>)
     (Some w_user) 9 w_extra = (Inr (Impersonated w_im), w_extra')"
  by (simp add: impersonatedDynamicClientGetter_def Let_def rest_warrant_def world)


theorem impersonation_writes_user_extra_witness:
  "go_map (w_extra 7) ''warrant'' = None \<and> length (the (go_map (w_extra' 7) ''warrant'')) = 1"
  using impersonation_writes_user_extra [OF w_impersonated, of 7]
  by (simp add: w_user_def w_client_env_def w_extra_def)


section \<open>REST storage\<close>

text \<open>
  A storage as \<open>provideDelegatingRestStorage\<close> assembles it: what \<open>registry.NewStorage\<close>
  was called with, whether it is the status storage, and the functions exposed.
\<close>

datatype storage_func =
    FactoryFunc | ListFactoryFunc | DestroyerFunc
  | GetterFunc | ListerFunc | UpdaterFunc | WatcherFunc | CreaterFunc
  | CollectionDeleterFunc | GracefulDeleterFunc
  | TableConvertorFunc | CategoriesProviderFunc | ResetFieldsStrategyFunc

record 'req rest_storage =
  st_Context :: nat
  st_IdentityHash :: string
  st_Wrapper :: "'req list option"       \<comment> \<open>the label selector wrapper, if any\<close>
  st_IsStatus :: bool
  st_Funcs :: "storage_func list"

definition provideDelegatingRestStorage ::
    "nat \<Rightarrow> string \<Rightarrow> 'req list option \<Rightarrow> string set
      \<Rightarrow> 'req rest_storage \<times> (string \<rightharpoonup> 'req rest_storage)" where
  "provideDelegatingRestStorage ctx apiExportIdentityHash wrapper subresourcesSchemaValidator =
     (let statusEnabled = ''status'' \<in> subresourcesSchemaValidator;
          storage = \<lparr>st_Context = ctx, st_IdentityHash = apiExportIdentityHash, st_Wrapper = wrapper,
             st_IsStatus = False,
             st_Funcs = [FactoryFunc, ListFactoryFunc, DestroyerFunc, GetterFunc, ListerFunc,
                UpdaterFunc, WatcherFunc, CreaterFunc, CollectionDeleterFunc, GracefulDeleterFunc,
                TableConvertorFunc, CategoriesProviderFunc, ResetFieldsStrategyFunc]\<rparr>;
          statusStorage = \<lparr>st_Context = ctx, st_IdentityHash = apiExportIdentityHash,
             st_Wrapper = wrapper, st_IsStatus = True,
             st_Funcs = [FactoryFunc, DestroyerFunc, GetterFunc, UpdaterFunc,
                TableConvertorFunc, CategoriesProviderFunc, ResetFieldsStrategyFunc]\<rparr>
      in (storage, if statusEnabled then [''status'' \<mapsto> statusStorage] else Map.empty))"

text \<open>What a definition is served from: the delegating storage, or a read-only one.\<close>

datatype 'req provider =
    Delegating nat string "'req list option"
  | ReadOnly "'req list"

record 'req builder_env =
  be_SelectorFromSet :: "label_set \<Rightarrow> 'req list \<times> bool"
  be_BindingExportLabelKey :: string
  be_ToAPIBindingExportLabelValue :: "string \<Rightarrow> string \<Rightarrow> string"
  be_ReadOnlyRestStorage :: "'req list \<Rightarrow> go_error option"
  be_CreateServingInfoFor :: "APIResourceSchema option \<Rightarrow> string \<Rightarrow> 'req provider \<Rightarrow> go_error option"
  be_Schemas :: "string \<rightharpoonup> APIResourceSchema"

definition provideAPIExportFilteredRestStorage ::
    "'req builder_env \<Rightarrow> string \<Rightarrow> string \<Rightarrow> go_error + 'req provider" where
  "provideAPIExportFilteredRestStorage be clusterName exportName =
     (case be_SelectorFromSet be
             [be_BindingExportLabelKey be \<mapsto> be_ToAPIBindingExportLabelValue be clusterName exportName] of
        (requirements, selectable) \<Rightarrow>
          if \<not> selectable
          then Inl (Errorf ''unable to create a selector from the provided labels'' [])
          else (case be_ReadOnlyRestStorage be requirements of
                  Some err \<Rightarrow> Inl err
                | None \<Rightarrow> Inr (ReadOnly requirements)))"

section \<open>API definitions\<close>

record 'req api_definition =
  ad_Schema :: "APIResourceSchema option"
  ad_Version :: string
  ad_Provider :: "'req provider"
  ad_Cancel :: "nat option"              \<comment> \<open>the context \<open>cancelFn\<close> cancels, if wrapped\<close>

record 'req defs_state =
  ds_Next :: nat
  ds_Contexts :: nat                     \<comment> \<open>number of contexts made\<close>
  ds_Cancelled :: "nat list"
  ds_Defs :: "nat \<rightharpoonup> 'req api_definition"
  ds_Torn :: "nat list"

text \<open>\<open>CreateServingInfoFor\<close>: a new definition, or an error and no definition.\<close>

definition serve ::
    "'req builder_env \<Rightarrow> APIResourceSchema option \<Rightarrow> string \<Rightarrow> 'req provider \<Rightarrow> nat option
      \<Rightarrow> 'req defs_state \<Rightarrow> (go_error + nat) \<times> 'req defs_state" where
  "serve be schema version p cancel st =
     (case be_CreateServingInfoFor be schema version p of
        Some err \<Rightarrow> (Inl err, st)
      | None \<Rightarrow>
          (Inr (ds_Next st),
           st\<lparr>ds_Next := ds_Next st + 1,
              ds_Defs := (ds_Defs st)(ds_Next st \<mapsto>
                \<lparr>ad_Schema = schema, ad_Version = version, ad_Provider = p, ad_Cancel = cancel\<rparr>)\<rparr>))"

definition createAPIDefinition ::
    "'req builder_env \<Rightarrow> APIResourceSchema \<Rightarrow> string \<Rightarrow> string \<Rightarrow> 'req list
      \<Rightarrow> 'req defs_state \<Rightarrow> (go_error + nat) \<times> 'req defs_state" where
  "createAPIDefinition be apiResourceSchema version identityHash optionalLabelRequirements st =
     (let ctx = ds_Contexts st;
          st1 = st\<lparr>ds_Contexts := ctx + 1\<rparr>;
          wrapper = (if length optionalLabelRequirements > 0 then Some optionalLabelRequirements else None)
      in case serve be (Some apiResourceSchema) version (Delegating ctx identityHash wrapper) (Some ctx) st1 of
           (Inl err, st2) \<Rightarrow> (Inl err, st2\<lparr>ds_Cancelled := ds_Cancelled st2 @ [ctx]\<rparr>)
         | (Inr d, st2) \<Rightarrow> (Inr d, st2))"

definition createReadOnlyDefinition ::
    "'req builder_env \<Rightarrow> string \<Rightarrow> string \<Rightarrow> string \<Rightarrow> string
      \<Rightarrow> 'req defs_state \<Rightarrow> (go_error + nat) \<times> 'req defs_state" where
  "createReadOnlyDefinition be resource version clusterName apiExportName st =
     (case provideAPIExportFilteredRestStorage be clusterName apiExportName of
        Inl err \<Rightarrow> (Inl err, st)
      | Inr p \<Rightarrow> serve be (be_Schemas be resource) version p None st)"

definition createAPIBindingAPIDefinition ::
    "'req builder_env \<Rightarrow> string \<Rightarrow> string \<Rightarrow> string
      \<Rightarrow> 'req defs_state \<Rightarrow> (go_error + nat) \<times> 'req defs_state" where
  "createAPIBindingAPIDefinition be = createReadOnlyDefinition be ''apibindings''"

definition createFilteredAPIExportESAPIDefinition ::
    "'req builder_env \<Rightarrow> string \<Rightarrow> string \<Rightarrow> string
      \<Rightarrow> 'req defs_state \<Rightarrow> (go_error + nat) \<times> 'req defs_state" where
  "createFilteredAPIExportESAPIDefinition be =
     createReadOnlyDefinition be ''filteredapiexportendpointslices''"

text \<open>
  \<open>TearDown\<close> by dynamic dispatch: \<open>apiDefinitionWithCancel\<close> cancels its context first.
\<close>

definition TearDown :: "nat \<Rightarrow> 'req defs_state \<Rightarrow> 'req defs_state" where
  "TearDown d st =
     (let st1 = (case ds_Defs st d of
                   Some a \<Rightarrow> (case ad_Cancel a of
                                None \<Rightarrow> st
                              | Some c \<Rightarrow> st\<lparr>ds_Cancelled := ds_Cancelled st @ [c]\<rparr>)
                 | None \<Rightarrow> st)
      in st1\<lparr>ds_Torn := ds_Torn st1 @ [d]\<rparr>)"


section \<open>The definition store\<close>

text \<open>
  The state invariant: definitions are numbered consecutively, only existing ones are torn
  down, two definitions never share a context, and a context is live (not cancelled)
  exactly when it belongs to a definition that has not been torn down.
\<close>

definition live_context :: "'req defs_state \<Rightarrow> nat \<Rightarrow> bool" where
  "live_context st c \<longleftrightarrow>
     (\<exists>d a. ds_Defs st d = Some a \<and> ad_Cancel a = Some c \<and> d \<notin> set (ds_Torn st))"

definition defs_wf :: "'req defs_state \<Rightarrow> bool" where
  "defs_wf st \<longleftrightarrow>
     dom (ds_Defs st) = {..<ds_Next st} \<and> set (ds_Torn st) \<subseteq> {..<ds_Next st}
     \<and> (\<forall>d a c. ds_Defs st d = Some a \<longrightarrow> ad_Cancel a = Some c \<longrightarrow> c < ds_Contexts st)
     \<and> (\<forall>d d' a a' c. ds_Defs st d = Some a \<longrightarrow> ds_Defs st d' = Some a' \<longrightarrow>
          ad_Cancel a = Some c \<longrightarrow> ad_Cancel a' = Some c \<longrightarrow> d = d')
     \<and> set (ds_Cancelled st) = {c. c < ds_Contexts st \<and> \<not> live_context st c}"

datatype 'req origin = Delegated APIResourceSchema string string "'req list" | Fallback

definition origin_of :: "'req api_definition \<Rightarrow> 'req origin" where
  "origin_of a =
     (case ad_Provider a of
        Delegating _ i w \<Rightarrow>
          Delegated (the (ad_Schema a)) (ad_Version a) i (case w of None \<Rightarrow> [] | Some r \<Rightarrow> r)
      | ReadOnly _ \<Rightarrow> Fallback)"

definition serves :: "'req defs_state \<Rightarrow> nat \<Rightarrow> 'req origin option" where
  "serves st d = map_option origin_of (ds_Defs st d)"

definition torn :: "'req defs_state \<Rightarrow> nat set" where
  "torn st = set (ds_Torn st)"

locale definition_store =
  fixes create :: "APIResourceSchema \<Rightarrow> string \<Rightarrow> string \<Rightarrow> 'req list \<Rightarrow> 'rt \<Rightarrow> (go_error + nat) \<times> 'rt"
    and createB :: "string \<Rightarrow> string \<Rightarrow> string \<Rightarrow> 'rt \<Rightarrow> (go_error + nat) \<times> 'rt"
    and createS :: "string \<Rightarrow> string \<Rightarrow> string \<Rightarrow> 'rt \<Rightarrow> (go_error + nat) \<times> 'rt"
    and tear :: "nat \<Rightarrow> 'rt \<Rightarrow> 'rt"
    and wf :: "'rt \<Rightarrow> bool"
    and origin :: "'rt \<Rightarrow> nat \<Rightarrow> 'req origin option"
    and down :: "'rt \<Rightarrow> nat set"
  assumes create_ok: "wf rt \<Longrightarrow> create s v i r rt = (Inr d, rt') \<Longrightarrow>
      wf rt' \<and> origin rt d = None \<and> origin rt' = (origin rt)(d \<mapsto> Delegated s v i r) \<and> down rt' = down rt"
    and create_err: "wf rt \<Longrightarrow> create s v i r rt = (Inl e, rt') \<Longrightarrow>
      wf rt' \<and> origin rt' = origin rt \<and> down rt' = down rt"
    and createB_ok: "wf rt \<Longrightarrow> createB v c n rt = (Inr d, rt') \<Longrightarrow>
      wf rt' \<and> origin rt d = None \<and> origin rt' = (origin rt)(d \<mapsto> Fallback) \<and> down rt' = down rt"
    and createB_err: "wf rt \<Longrightarrow> createB v c n rt = (Inl e, rt') \<Longrightarrow>
      wf rt' \<and> origin rt' = origin rt \<and> down rt' = down rt"
    and createS_ok: "wf rt \<Longrightarrow> createS v c n rt = (Inr d, rt') \<Longrightarrow>
      wf rt' \<and> origin rt d = None \<and> origin rt' = (origin rt)(d \<mapsto> Fallback) \<and> down rt' = down rt"
    and createS_err: "wf rt \<Longrightarrow> createS v c n rt = (Inl e, rt') \<Longrightarrow>
      wf rt' \<and> origin rt' = origin rt \<and> down rt' = down rt"
    and tear_ok: "wf rt \<Longrightarrow> origin rt d \<noteq> None \<Longrightarrow>
      wf (tear d rt) \<and> origin (tear d rt) = origin rt \<and> down (tear d rt) = insert d (down rt)"
    and down_known: "wf rt \<Longrightarrow> down rt \<subseteq> dom (origin rt)"

lemma defs_wf_fresh: "defs_wf st \<Longrightarrow> ds_Defs st (ds_Next st) = None"
  by (auto simp: defs_wf_def dom_def)

lemma defs_wf_not_torn: "defs_wf st \<Longrightarrow> ds_Next st \<notin> set (ds_Torn st)"
  by (auto simp: defs_wf_def)

lemma live_context_add:
  assumes "ds_Defs st n = None" "n \<notin> set (ds_Torn st)" "ds_Torn st' = ds_Torn st"
    and "ds_Defs st' = (ds_Defs st)(n \<mapsto> a)"
  shows "live_context st' c \<longleftrightarrow> live_context st c \<or> ad_Cancel a = Some c"
proof -
  have "ds_Defs st' d = Some b \<longleftrightarrow> ds_Defs st d = Some b \<or> d = n \<and> b = a" for d b
    using assms by auto
  then show ?thesis unfolding live_context_def assms(3) using assms(2) by blast
qed

text \<open>Adding a definition with no context of its own.\<close>

lemma serve_plain:
  assumes "defs_wf st" and "serve be schema v p None st = (Inr d, st')"
  shows "defs_wf st'" and "ds_Defs st d = None" and "ds_Torn st' = ds_Torn st"
    and "ds_Defs st' = (ds_Defs st)(d \<mapsto> \<lparr>ad_Schema = schema, ad_Version = v, ad_Provider = p, ad_Cancel = None\<rparr>)"
proof -
  have st': "d = ds_Next st" "st' = st\<lparr>ds_Next := ds_Next st + 1,
      ds_Defs := (ds_Defs st)(d \<mapsto> \<lparr>ad_Schema = schema, ad_Version = v, ad_Provider = p, ad_Cancel = None\<rparr>)\<rparr>"
    using assms(2) by (auto simp: serve_def split: option.splits)
  note fresh = defs_wf_fresh [OF assms(1)]
  have live: "live_context st' c = live_context st c" for c
    using live_context_add [OF fresh defs_wf_not_torn [OF assms(1)], of st'] by (simp add: st')
  show "ds_Defs st d = None" using fresh st' by simp
  show "ds_Torn st' = ds_Torn st" by (simp add: st')
  show "ds_Defs st' = (ds_Defs st)(d \<mapsto> \<lparr>ad_Schema = schema, ad_Version = v, ad_Provider = p, ad_Cancel = None\<rparr>)"
    by (simp add: st')
  show "defs_wf st'"
    using assms(1) unfolding defs_wf_def live unfolding st'
    by (auto split: if_splits)
qed

lemma createAPIDefinition_ok:
  assumes "defs_wf st" and "createAPIDefinition be s v i r st = (Inr d, st')"
  shows "defs_wf st'" and "ds_Defs st d = None" and "ds_Torn st' = ds_Torn st"
    and "ds_Defs st' = (ds_Defs st)(d \<mapsto>
      \<lparr>ad_Schema = Some s, ad_Version = v,
       ad_Provider = Delegating (ds_Contexts st) i (if length r > 0 then Some r else None),
       ad_Cancel = Some (ds_Contexts st)\<rparr>)"
proof -
  let ?a = "\<lparr>ad_Schema = Some s, ad_Version = v,
       ad_Provider = Delegating (ds_Contexts st) i (if length r > 0 then Some r else None),
       ad_Cancel = Some (ds_Contexts st)\<rparr>"
  have st': "d = ds_Next st" "st' = st\<lparr>ds_Contexts := ds_Contexts st + 1, ds_Next := ds_Next st + 1,
      ds_Defs := (ds_Defs st)(d \<mapsto> ?a)\<rparr>"
    using assms(2) by (auto simp: createAPIDefinition_def serve_def Let_def split: option.splits)
  note fresh = defs_wf_fresh [OF assms(1)] defs_wf_not_torn [OF assms(1)]
  have live: "live_context st' c \<longleftrightarrow> live_context st c \<or> c = ds_Contexts st" for c
    using live_context_add [OF fresh, of st' ?a] by (auto simp: st')
  have new: "\<not> live_context st (ds_Contexts st)"
    using assms(1) unfolding defs_wf_def live_context_def by blast
  show "ds_Defs st d = None" using fresh st' by simp
  show "ds_Torn st' = ds_Torn st" by (simp add: st')
  show "ds_Defs st' = (ds_Defs st)(d \<mapsto> ?a)" by (simp add: st')
  have bound: "\<forall>d a c. ds_Defs st d = Some a \<longrightarrow> ad_Cancel a = Some c \<longrightarrow> c < ds_Contexts st"
    using assms(1) unfolding defs_wf_def by blast
  show "defs_wf st'"
    unfolding defs_wf_def live
  proof (intro conjI allI impI)
    show "dom (ds_Defs st') = {..<ds_Next st'}" "set (ds_Torn st') \<subseteq> {..<ds_Next st'}"
      using assms(1) unfolding defs_wf_def st' by auto
    show "c < ds_Contexts st'" if "ds_Defs st' d = Some a" "ad_Cancel a = Some c" for d a c
      using that bound unfolding st' by (auto split: if_splits intro: less_SucI)
    show "x = y" if "ds_Defs st' x = Some a" "ds_Defs st' y = Some a'" "ad_Cancel a = Some c"
      "ad_Cancel a' = Some c" for x y a a' c
      using that bound assms(1) unfolding st' defs_wf_def by (fastforce split: if_splits)
    show "set (ds_Cancelled st') = {c. c < ds_Contexts st' \<and> \<not> (live_context st c \<or> c = ds_Contexts st)}"
      using assms(1) unfolding defs_wf_def st' by auto
  qed
qed


lemma createAPIDefinition_err:
  assumes "defs_wf st" and "createAPIDefinition be s v i r st = (Inl e, st')"
  shows "defs_wf st'" and "ds_Defs st' = ds_Defs st" and "ds_Torn st' = ds_Torn st"
proof -
  have st': "st' = st\<lparr>ds_Contexts := ds_Contexts st + 1, ds_Cancelled := ds_Cancelled st @ [ds_Contexts st]\<rparr>"
    using assms(2) by (auto simp: createAPIDefinition_def serve_def Let_def split: option.splits)
  have live: "live_context st' c = live_context st c" for c
    by (simp add: live_context_def st')
  have new: "\<not> live_context st (ds_Contexts st)"
    using assms(1) unfolding defs_wf_def live_context_def by blast
  show "ds_Defs st' = ds_Defs st" "ds_Torn st' = ds_Torn st" by (simp_all add: st')
  have bound: "\<forall>d a c. ds_Defs st d = Some a \<longrightarrow> ad_Cancel a = Some c \<longrightarrow> c < ds_Contexts st"
    using assms(1) unfolding defs_wf_def by blast
  show "defs_wf st'"
    unfolding defs_wf_def live
  proof (intro conjI allI impI)
    show "c < ds_Contexts st'" if "ds_Defs st' d = Some a" "ad_Cancel a = Some c" for d a c
      using that bound unfolding st' by (auto intro: less_SucI)
    show "set (ds_Cancelled st') = {c. c < ds_Contexts st' \<and> \<not> live_context st c}"
      using assms(1) new unfolding defs_wf_def st' by auto
    show "x = y" if "ds_Defs st' x = Some a" "ds_Defs st' y = Some a'" "ad_Cancel a = Some c"
      "ad_Cancel a' = Some c" for x y a a' c
      using that assms(1) unfolding st' defs_wf_def by auto
  qed (use assms(1) in \<open>auto simp: st' defs_wf_def\<close>)
qed

lemma TearDown_ok:
  assumes "defs_wf st" and "ds_Defs st d = Some a"
  shows "defs_wf (TearDown d st)" and "ds_Defs (TearDown d st) = ds_Defs st"
    and "set (ds_Torn (TearDown d st)) = insert d (set (ds_Torn st))"
proof -
  let ?st = "TearDown d st"
  show defs: "ds_Defs ?st = ds_Defs st" and torn: "set (ds_Torn ?st) = insert d (set (ds_Torn st))"
    by (auto simp: TearDown_def Let_def split: option.splits)
  have nexts: "ds_Next ?st = ds_Next st" "ds_Contexts ?st = ds_Contexts st"
    by (auto simp: TearDown_def Let_def split: option.splits)
  have cancelled: "set (ds_Cancelled ?st) = set (ds_Cancelled st) \<union> set_option (ad_Cancel a)"
    using assms(2) by (auto simp: TearDown_def Let_def split: option.splits)
  have unique: "d' = d" if "ds_Defs st d' = Some b" "ad_Cancel b = Some c" "ad_Cancel a = Some c" for d' b c
    using assms that unfolding defs_wf_def by blast
  have live: "live_context ?st c \<longleftrightarrow> live_context st c \<and> ad_Cancel a \<noteq> Some c" for c
  proof
    assume "live_context ?st c"
    then show "live_context st c \<and> ad_Cancel a \<noteq> Some c"
      unfolding live_context_def defs torn using unique by blast
  next
    assume c: "live_context st c \<and> ad_Cancel a \<noteq> Some c"
    then obtain d' b where "ds_Defs st d' = Some b" "ad_Cancel b = Some c" "d' \<notin> set (ds_Torn st)"
      unfolding live_context_def by blast
    moreover from this c assms(2) have "d' \<noteq> d" by auto
    ultimately show "live_context ?st c" unfolding live_context_def defs torn by blast
  qed
  have old: "set (ds_Cancelled st) = {c. c < ds_Contexts st \<and> \<not> live_context st c}"
    and bound: "\<forall>c. ad_Cancel a = Some c \<longrightarrow> c < ds_Contexts st"
    and known: "d < ds_Next st"
    using assms unfolding defs_wf_def by blast+
  have "set (ds_Cancelled ?st) = {c. c < ds_Contexts st \<and> \<not> (live_context st c \<and> ad_Cancel a \<noteq> Some c)}"
    unfolding cancelled old using bound by auto
  then show "defs_wf ?st"
    using assms(1) known unfolding defs_wf_def live defs nexts torn by simp
qed

lemma createReadOnlyDefinition_ok:
  assumes "defs_wf st" and "createReadOnlyDefinition be resource v c n st = (Inr d, st')"
  shows "defs_wf st' \<and> ds_Defs st d = None \<and> ds_Torn st' = ds_Torn st
    \<and> (\<exists>r. ds_Defs st' = (ds_Defs st)(d \<mapsto>
         \<lparr>ad_Schema = be_Schemas be resource, ad_Version = v, ad_Provider = ReadOnly r, ad_Cancel = None\<rparr>)
       \<and> provideAPIExportFilteredRestStorage be c n = Inr (ReadOnly r))"
proof -
  obtain r where "provideAPIExportFilteredRestStorage be c n = Inr (ReadOnly r)"
    and s: "serve be (be_Schemas be resource) v (ReadOnly r) None st = (Inr d, st')"
    using assms(2) by (auto simp: createReadOnlyDefinition_def provideAPIExportFilteredRestStorage_def
        split: sum.splits prod.splits if_splits option.splits)
  with serve_plain [OF assms(1) s] show ?thesis by blast
qed

lemma createReadOnlyDefinition_err:
  "createReadOnlyDefinition be resource v c n st = (Inl e, st') \<Longrightarrow> st' = st"
  by (auto simp: createReadOnlyDefinition_def serve_def split: sum.splits option.splits)

lemma serves_update:
  "ds_Defs st' = (ds_Defs st)(d \<mapsto> a) \<Longrightarrow> serves st' = (serves st)(d \<mapsto> origin_of a)"
  by (rule ext) (simp add: serves_def)

lemma serves_same: "ds_Defs st' = ds_Defs st \<Longrightarrow> serves st' = serves st"
  by (rule ext) (simp add: serves_def)

interpretation vw_store: definition_store
  "createAPIDefinition be" "createAPIBindingAPIDefinition be"
  "createFilteredAPIExportESAPIDefinition be" TearDown defs_wf serves torn
proof unfold_locales
  fix s v i r d e c n and st st' :: "'a defs_state"
  assume wf: "defs_wf st"
  show "defs_wf st' \<and> serves st d = None \<and> serves st' = (serves st)(d \<mapsto> Delegated s v i r) \<and> torn st' = torn st"
    if "createAPIDefinition be s v i r st = (Inr d, st')"
    using createAPIDefinition_ok [OF wf that] serves_update [of st' st d]
    by (auto simp: torn_def serves_def origin_of_def)
  show "defs_wf st' \<and> serves st' = serves st \<and> torn st' = torn st"
    if "createAPIDefinition be s v i r st = (Inl e, st')"
    using createAPIDefinition_err [OF wf that] serves_same by (simp add: torn_def)
  show "defs_wf st' \<and> serves st d = None \<and> serves st' = (serves st)(d \<mapsto> Fallback) \<and> torn st' = torn st"
    if "createAPIBindingAPIDefinition be v c n st = (Inr d, st')"
    using createReadOnlyDefinition_ok [OF wf that [unfolded createAPIBindingAPIDefinition_def]]
      serves_update [of st' st d]
    by (auto simp: torn_def serves_def origin_of_def split: option.splits)
  show "defs_wf st' \<and> serves st d = None \<and> serves st' = (serves st)(d \<mapsto> Fallback) \<and> torn st' = torn st"
    if "createFilteredAPIExportESAPIDefinition be v c n st = (Inr d, st')"
    using createReadOnlyDefinition_ok [OF wf that [unfolded createFilteredAPIExportESAPIDefinition_def]]
      serves_update [of st' st d]
    by (auto simp: torn_def serves_def origin_of_def split: option.splits)
  show "defs_wf st' \<and> serves st' = serves st \<and> torn st' = torn st"
    if "createAPIBindingAPIDefinition be v c n st = (Inl e, st')"
    using createReadOnlyDefinition_err [OF that [unfolded createAPIBindingAPIDefinition_def]] wf by simp
  show "defs_wf st' \<and> serves st' = serves st \<and> torn st' = torn st"
    if "createFilteredAPIExportESAPIDefinition be v c n st = (Inl e, st')"
    using createReadOnlyDefinition_err [OF that [unfolded createFilteredAPIExportESAPIDefinition_def]] wf by simp
  show "defs_wf (TearDown d st) \<and> serves (TearDown d st) = serves st \<and> torn (TearDown d st) = insert d (torn st)"
    if "serves st d \<noteq> None"
    using that TearDown_ok [OF wf, of d] serves_same [of "TearDown d st" st]
    by (auto simp: serves_def torn_def)
  show "torn st \<subseteq> dom (serves st)"
    using wf unfolding defs_wf_def torn_def serves_def dom_def by auto
qed


section \<open>What the life of the definitions guarantees\<close>

text \<open>
  Every way the state of the definitions changes: a creation, successful or not, and the
  tear-down of an existing definition.
\<close>

inductive defs_step :: "'req builder_env \<Rightarrow> 'req defs_state \<Rightarrow> 'req defs_state \<Rightarrow> bool"
  for be where
  create: "createAPIDefinition be s v i r st = (res, st') \<Longrightarrow> defs_step be st st'"
| bindings: "createAPIBindingAPIDefinition be v c n st = (res, st') \<Longrightarrow> defs_step be st st'"
| slices: "createFilteredAPIExportESAPIDefinition be v c n st = (res, st') \<Longrightarrow> defs_step be st st'"
| tear_down: "ds_Defs st d = Some a \<Longrightarrow> defs_step be st (TearDown d st)"

definition defs_init :: "'req defs_state" where
  "defs_init = \<lparr>ds_Next = 0, ds_Contexts = 0, ds_Cancelled = [], ds_Defs = Map.empty, ds_Torn = []\<rparr>"

lemma defs_init_wf [simp]: "defs_wf defs_init"
  by (auto simp: defs_wf_def defs_init_def live_context_def)

lemma defs_step_wf: "defs_step be st st' \<Longrightarrow> defs_wf st \<Longrightarrow> defs_wf st'"
proof (induction rule: defs_step.induct)
  case (create s v i r st res st')
  then show ?case
    using vw_store.create_ok [of st be s v i r _ st'] vw_store.create_err [of st be s v i r _ st']
    by (cases res) blast+
next
  case (bindings v c n st res st')
  then show ?case
    using vw_store.createB_ok [of st be v c n _ st'] vw_store.createB_err [of st be v c n _ st']
    by (cases res) blast+
next
  case (slices v c n st res st')
  then show ?case
    using vw_store.createS_ok [of st be v c n _ st'] vw_store.createS_err [of st be v c n _ st']
    by (cases res) blast+
next
  case (tear_down st d a)
  then show ?case using TearDown_ok(1) by blast
qed

lemma defs_steps_wf: "(defs_step be)\<^sup>*\<^sup>* defs_init st \<Longrightarrow> defs_wf st"
  by (induction rule: rtranclp_induct) (auto dest: defs_step_wf)

text \<open>
  C21: Over every sequence of creations and tear-downs, the contexts that are open are exactly
  those of the definitions that were created and not torn down: a failed creation leaks none.
\<close>

theorem no_context_leak:
  assumes "(defs_step be)\<^sup>*\<^sup>* defs_init st"
  shows "c < ds_Contexts st \<and> c \<notin> set (ds_Cancelled st) \<longleftrightarrow> live_context st c"
    (is "?A \<longleftrightarrow> ?B")
proof
  have wf: "defs_wf st" using assms by (rule defs_steps_wf)
  show "?A \<Longrightarrow> ?B" using wf unfolding defs_wf_def by blast
  show "?B \<Longrightarrow> ?A" using wf unfolding defs_wf_def live_context_def by blast
qed

definition w_be :: "(string \<times> string list) builder_env" where [world]:
  "w_be = \<lparr>be_SelectorFromSet = (\<lambda>m. ([(''export'', [the (m ''export'')])], True)),
     be_BindingExportLabelKey = ''export'',
     be_ToAPIBindingExportLabelValue = (\<lambda>c n. c @ ''/'' @ n),
     be_ReadOnlyRestStorage = (\<lambda>_. None),
     be_CreateServingInfoFor = (\<lambda>s v p. if v = ''bad'' then Some (Err (Str ''bad version'')) else None),
     be_Schemas = w_apis\<rparr>"

definition w_widgets :: APIResourceSchema where [world]:
  "w_widgets = \<lparr>sc_Name = ''v1.widgets'', sc_UID = ''u1'', sc_Annotations = None,
     sc_Group = ''example.io'', sc_Plural = ''widgets'',
     sc_Versions = [\<lparr>v_Name = ''v1'', v_Served = True, v_Raw = ''''\<rparr>,
                    \<lparr>v_Name = ''v0'', v_Served = False, v_Raw = ''''\<rparr>]\<rparr>"

theorem no_context_leak_witness:
  "\<exists>st. (defs_step w_be)\<^sup>*\<^sup>* defs_init st \<and> ds_Contexts st = 2 \<and> ds_Cancelled st = [0]
     \<and> live_context st 1 \<and> \<not> live_context st 0"
proof -
  let ?s1 = "snd (createAPIDefinition w_be w_widgets ''bad'' ''id'' [] defs_init)"
  let ?s2 = "snd (createAPIDefinition w_be w_widgets ''v1'' ''id'' [] ?s1)"
  have "defs_step w_be defs_init ?s1" "defs_step w_be ?s1 ?s2"
    by (rule defs_step.create [OF surjective_pairing])+
  then have r: "(defs_step w_be)\<^sup>*\<^sup>* defs_init ?s2" by (meson converse_rtranclp_into_rtranclp rtranclp.rtrancl_refl)
  have "ds_Contexts ?s2 = 2" "ds_Cancelled ?s2 = [0]"
    by (simp_all add: createAPIDefinition_def serve_def Let_def defs_init_def w_be_def)
  with r no_context_leak [OF r, of 1] no_context_leak [OF r, of 0] show ?thesis by auto
qed

section \<open>Readiness\<close>

text \<open>
  The channel \<open>readyCh\<close> and the post-start hook. The range over the map of informers
  visits them in some order; \<open>WaitForNamedCacheSync\<close> is a parameter.
\<close>

record hook_state =
  readyCh_closed :: bool
  reconciler_started :: bool

definition ReadyChecker :: "hook_state \<Rightarrow> go_error option" where
  "ReadyChecker h =
     (if readyCh_closed h then None
      else Some (Err (Str ''filtered-apiexport virtual workspace controllers are not started'')))"

fun postStartHook :: "(string \<Rightarrow> bool) \<Rightarrow> string list \<Rightarrow> hook_state \<Rightarrow> hook_state" where
  "postStartHook synced [] h = h\<lparr>reconciler_started := True, readyCh_closed := True\<rparr>"
| "postStartHook synced (name # informers) h =
     (if \<not> synced name then h\<lparr>readyCh_closed := True\<rparr> else postStartHook synced informers h)"

text \<open>
  The virtual workspace reports ready after the post-start hook also when an informer did not
  sync and the reconciler was never started.
\<close>

theorem ready_without_reconciler:
  "ReadyChecker (postStartHook synced informers \<lparr>readyCh_closed = False, reconciler_started = False\<rparr>) = None
   \<and> (reconciler_started (postStartHook synced informers \<lparr>readyCh_closed = False, reconciler_started = False\<rparr>)
        \<longleftrightarrow> list_all synced informers)"
  by (induction informers) (auto simp: ReadyChecker_def split: if_splits)

end
