(* ===== verification/Key_Order.thy ===== *)
theory Key_Order
  imports Api_Types "HOL-Library.List_Lexorder" "HOL-Library.Char_ord" "HOL-Library.Product_Lexorder"
begin

text \<open>
  Keys of Go maps in a linear order, and the iteration orders the API reconciler is
  allowed to see: Go visits every entry of a (finite) map exactly once, in any order.
  \<open>sorted_range\<close> is one such order, used to evaluate examples; it needs the instances of
  \<open>linorder\<close> given here for the two key types, group-resources and
  group-version-resources, ordered by their fields.
\<close>

instantiation group_resource_ext :: (linorder) linorder
begin

definition less_eq_group_resource_ext ::
    "'a group_resource_scheme \<Rightarrow> 'a group_resource_scheme \<Rightarrow> bool" where
  "less_eq_group_resource_ext a b \<longleftrightarrow>
     (gr_Group a, gr_Resource a, group_resource.more a)
       \<le> (gr_Group b, gr_Resource b, group_resource.more b)"

definition less_group_resource_ext ::
    "'a group_resource_scheme \<Rightarrow> 'a group_resource_scheme \<Rightarrow> bool" where
  "less_group_resource_ext a b \<longleftrightarrow>
     (gr_Group a, gr_Resource a, group_resource.more a)
       < (gr_Group b, gr_Resource b, group_resource.more b)"

instance
  by standard
    (auto simp: less_eq_group_resource_ext_def less_group_resource_ext_def intro: group_resource.equality)

end

instantiation group_version_resource_ext :: (linorder) linorder
begin

definition less_eq_group_version_resource_ext ::
    "'a group_version_resource_scheme \<Rightarrow> 'a group_version_resource_scheme \<Rightarrow> bool" where
  "less_eq_group_version_resource_ext a b \<longleftrightarrow>
     (gvr_Group a, gvr_Version a, gvr_Resource a, group_version_resource.more a)
       \<le> (gvr_Group b, gvr_Version b, gvr_Resource b, group_version_resource.more b)"

definition less_group_version_resource_ext ::
    "'a group_version_resource_scheme \<Rightarrow> 'a group_version_resource_scheme \<Rightarrow> bool" where
  "less_group_version_resource_ext a b \<longleftrightarrow>
     (gvr_Group a, gvr_Version a, gvr_Resource a, group_version_resource.more a)
       < (gvr_Group b, gvr_Version b, gvr_Resource b, group_version_resource.more b)"

instance
  by standard
    (auto simp: less_eq_group_version_resource_ext_def less_group_version_resource_ext_def
      intro: group_version_resource.equality)

end

text \<open>The law of \<open>range\<close>, for every finite map.\<close>

definition range_law :: "('k, 'v) range_order \<Rightarrow> bool" where
  "range_law ord \<longleftrightarrow> (\<forall>i m. finite (dom m) \<longrightarrow> is_range (ord i m) m)"

definition sorted_range :: "('k::linorder, 'v) range_order" where
  "sorted_range i m = sorted_list_of_set (dom m)"

lemma range_law_sorted [simp, go_range]: "range_law sorted_range"
  by (simp add: range_law_def sorted_range_def is_range_def)

lemma range_lawD [go_range]: "range_law ord \<Longrightarrow> finite (dom m) \<Longrightarrow> is_range (ord i m) m"
  by (simp add: range_law_def)

lemma is_range_set [go_range]: "is_range ks m \<Longrightarrow> set ks = dom m"
  by (simp add: is_range_def)

end
