(* ===== verification/Api_Reconcile.thy ===== *)
theory Api_Reconcile
  imports Builder Key_Order
begin

text \<open>
  \<open>controllers/apireconciler/apiexport_apireconciler_reconcile.go\<close>: from an endpoint
  slice to the set of API definitions served for its domain key.

  The reconciler is split the way its inputs vary. \<open>kcp_view\<close> is what the informers know
  at one moment (it changes from one call to the next), \<open>api_library\<close> the kcp and
  apimachinery functions the code calls, and \<open>reconciler\<close> puts both together with the
  functions \<open>BuildVirtualWorkspace\<close> passes to \<open>NewAPIReconciler\<close>. The mutable state is
  \<open>reconciler_state\<close>: the map \<open>apiSets\<close>, the annotation maps of the schemas (by
  address, since \<open>shallow := *internalSchema\<close> shares them) and the definitions.

  A call returns \<open>Done\<close> with its error, or \<open>Panic\<close> (a method call on a nil
  definition). Log-only variables are left out.
\<close>

definition apis_GroupName :: string where
  "apis_GroupName = ''apis.kcp.io''"

record def_entry =                        \<comment> \<open>\<open>apiResourceSchemaApiDefinition\<close>\<close>
  de_Definition :: "nat option"
  de_UID :: string
  de_IdentityHash :: string

type_synonym api_set = "group_version_resource \<rightharpoonup> def_entry"

record annot_store =
  an_Next :: nat
  an_Maps :: "nat \<rightharpoonup> (string \<rightharpoonup> string)"

record 'rt reconciler_state =
  rs_apiSets :: "string \<rightharpoonup> api_set"
  rs_Annotations :: annot_store
  rs_Definitions :: 'rt

record kcp_view =
  kv_Slice :: "slice getter"
  kv_Slices :: "string \<Rightarrow> go_error + slice list"
  kv_Schema :: "APIResourceSchema getter"
  kv_Export :: "apiexport getter"
  kv_ByIdentity :: "string \<Rightarrow> go_error + apiexport list"
  kv_ByClaimedIdentities :: "string \<Rightarrow> go_error + apiexport list"

record ('sel, 'req) api_library =
  al_Labels :: "('sel, 'req) labels_api"
  al_ToLabelKeyAndValue :: "string \<Rightarrow> string \<Rightarrow> PermissionClaim \<Rightarrow> go_error + (string \<times> string)"
  al_ToReflexiveLabel :: "string \<Rightarrow> string \<Rightarrow> string \<times> string"
  al_AnnotationKey :: string
  al_LongSort :: "(apiexport \<Rightarrow> apiexport \<Rightarrow> bool) \<Rightarrow> apiexport list \<Rightarrow> apiexport list"
  al_SchemaRange :: "(group_resource, APIResourceSchema) range_order"
  al_DefRange :: "(group_version_resource, def_entry) range_order"
  al_BuiltIn :: builtin_schemas
  al_ApisKcpDevSchemas :: "string \<rightharpoonup> APIResourceSchema"

record ('rt, 'sel, 'req) reconciler =
  rc_view :: kcp_view
  rc_lib :: "('sel, 'req) api_library"
  rc_createAPIDefinition ::
    "APIResourceSchema \<Rightarrow> string \<Rightarrow> string \<Rightarrow> 'req list \<Rightarrow> 'rt \<Rightarrow> (go_error + nat) \<times> 'rt"
  rc_createAPIBindingAPIDefinition :: "string \<Rightarrow> string \<Rightarrow> string \<Rightarrow> 'rt \<Rightarrow> (go_error + nat) \<times> 'rt"
  rc_createFilteredAPIExportESAPIDefinition ::
    "string \<Rightarrow> string \<Rightarrow> string \<Rightarrow> 'rt \<Rightarrow> (go_error + nat) \<times> 'rt"
  rc_TearDown :: "nat \<Rightarrow> 'rt \<Rightarrow> 'rt"

datatype outcome = Done "go_error option" | Panic

section \<open>Schemas of an export\<close>

fun schemas_loop ::
    "APIResourceSchema getter \<Rightarrow> string \<Rightarrow> string list \<Rightarrow> builtin_schemas \<Rightarrow> go_error + builtin_schemas"
  where
  "schemas_loop lister clusterName [] m = Inr m"
| "schemas_loop lister clusterName (r # rs) m =
     (case lister clusterName r of
        Inl err \<Rightarrow> if \<not> IsNotFound err then Inl err else schemas_loop lister clusterName rs m
      | Inr s \<Rightarrow> schemas_loop lister clusterName rs (m(schema_gr s \<mapsto> s)))"

definition getSchemasFromAPIExport :: "kcp_view \<Rightarrow> apiexport \<Rightarrow> go_error + builtin_schemas" where
  "getSchemasFromAPIExport v apiExport =
     schemas_loop (kv_Schema v) (ex_Cluster apiExport) (ex_Resources apiExport) Map.empty"

section \<open>Permission claims\<close>

record plan =
  pl_Schemas :: builtin_schemas
  pl_Identities :: "group_resource \<rightharpoonup> string"
  pl_Claims :: "group_resource \<rightharpoonup> PermissionClaim"
  pl_claimsAPIBindings :: bool
  pl_claimFilteredAPIExportES :: bool

definition claim_gr :: "PermissionClaim \<Rightarrow> group_resource" where
  "claim_gr pc = \<lparr>gr_Group = pc_Group pc, gr_Resource = pc_Resource pc\<rparr>"

text \<open>\<open>shallow := *internalSchema\<close>, its annotations made if nil, and the cluster written.\<close>

definition shallow_with_cluster ::
    "string \<Rightarrow> string \<Rightarrow> APIResourceSchema \<Rightarrow> annot_store \<Rightarrow> APIResourceSchema \<times> annot_store" where
  "shallow_with_cluster key clusterName internalSchema an =
     (let (addr, an1) =
            (case sc_Annotations internalSchema of
               Some a \<Rightarrow> (a, an)
             | None \<Rightarrow> (an_Next an,
                 an\<lparr>an_Next := an_Next an + 1, an_Maps := (an_Maps an)(an_Next an \<mapsto> Map.empty)\<rparr>))
      in (internalSchema\<lparr>sc_Annotations := Some addr\<rparr>,
          an1\<lparr>an_Maps := (an_Maps an1)(addr \<mapsto> (go_map (an_Maps an1 addr))(key \<mapsto> clusterName))\<rparr>))"

definition add_schema :: "PermissionClaim \<Rightarrow> APIResourceSchema \<Rightarrow> plan \<Rightarrow> plan" where
  "add_schema pc s pl =
     pl\<lparr>pl_Schemas := (pl_Schemas pl)(claim_gr pc \<mapsto> s), pl_Claims := (pl_Claims pl)(claim_gr pc \<mapsto> pc)\<rparr>"

text \<open>The comparison handed to \<open>sort.Slice\<close>.\<close>

definition export_less :: "apiexport \<Rightarrow> apiexport \<Rightarrow> bool" where
  "export_less a b \<longleftrightarrow> ex_Name a < ex_Name b \<and> ex_Cluster a < ex_Cluster b"

text \<open>
  \<open>sort.Slice\<close>: insertion sort up to twelve elements, swapping an element to the left
  while it is less than its neighbour (the prefix sorted so far is kept reversed); what it
  does to longer slices is a parameter.
\<close>

fun sift :: "('a \<Rightarrow> 'a \<Rightarrow> bool) \<Rightarrow> 'a \<Rightarrow> 'a list \<Rightarrow> 'a list" where
  "sift lt x [] = [x]"
| "sift lt x (y # ys) = (if lt x y then y # sift lt x ys else x # y # ys)"

definition sort_Slice ::
    "(('a \<Rightarrow> 'a \<Rightarrow> bool) \<Rightarrow> 'a list \<Rightarrow> 'a list) \<Rightarrow> ('a \<Rightarrow> 'a \<Rightarrow> bool) \<Rightarrow> 'a list \<Rightarrow> 'a list" where
  "sort_Slice long lt xs =
     (if length xs \<le> 12 then rev (fold (sift lt) xs []) else long lt xs)"

fun pick_candidates ::
    "PermissionClaim \<Rightarrow> builtin_schemas \<Rightarrow> group_resource list \<Rightarrow> plan \<Rightarrow> plan" where
  "pick_candidates pc candidates [] pl = pl"
| "pick_candidates pc candidates (k # ks) pl =
     (case candidates k of
        None \<Rightarrow> pick_candidates pc candidates ks pl
      | Some s \<Rightarrow>
          if sc_Group s \<noteq> pc_Group pc \<or> sc_Plural s \<noteq> pc_Resource pc
          then pick_candidates pc candidates ks pl
          else pick_candidates pc candidates ks
                 ((add_schema pc s pl)\<lparr>pl_Identities :=
                    (pl_Identities pl)(claim_gr pc \<mapsto> pc_IdentityHash pc)\<rparr>))"

fun candidate_exports ::
    "('rt, 'sel, 'req) reconciler \<Rightarrow> PermissionClaim \<Rightarrow> apiexport list \<Rightarrow> plan \<Rightarrow> go_error + plan" where
  "candidate_exports c pc [] pl = Inr pl"
| "candidate_exports c pc (export # exports) pl =
     (case getSchemasFromAPIExport (rc_view c) export of
        Inl err \<Rightarrow> Inl err
      | Inr candidates \<Rightarrow>
          candidate_exports c pc exports
            (pick_candidates pc candidates (al_SchemaRange (rc_lib c) 0 candidates) pl))"

text \<open>One iteration of the loop over the claims.\<close>

definition claim_step ::
    "('rt, 'sel, 'req) reconciler \<Rightarrow> string \<Rightarrow> PermissionClaim \<Rightarrow> plan \<Rightarrow> annot_store
      \<Rightarrow> (go_error + plan) \<times> annot_store" where
  "claim_step c clusterName pc pl an =
     (if pl_Schemas pl (claim_gr pc) \<noteq> None then (Inr pl, an)
      else if IsBuiltInAPI (al_BuiltIn (rc_lib c)) (claim_gr pc) then
        (case GetBuiltInAPISchema (al_BuiltIn (rc_lib c)) (claim_gr pc) of
           Inl err \<Rightarrow> (Inl err, an)
         | Inr internalSchema \<Rightarrow>
             (case shallow_with_cluster (al_AnnotationKey (rc_lib c)) clusterName internalSchema an of
                (shallow, an') \<Rightarrow> (Inr (add_schema pc shallow pl), an')))
      else if pc_Group pc = apis_GroupName then
        (case al_ApisKcpDevSchemas (rc_lib c) (pc_Resource pc) of
           None \<Rightarrow> (Inr pl, an)
         | Some s \<Rightarrow>
             (Inr ((add_schema pc s pl)\<lparr>pl_claimsAPIBindings :=
                     (pl_claimsAPIBindings pl \<or> pc_Resource pc = ''apibindings'')\<rparr>), an))
      else if pc_Group pc = GroupName then
        (case al_ApisKcpDevSchemas (rc_lib c) (pc_Resource pc) of
           None \<Rightarrow> (Inr pl, an)
         | Some s \<Rightarrow>
             (Inr ((add_schema pc s pl)\<lparr>pl_claimFilteredAPIExportES :=
                     (pl_claimFilteredAPIExportES pl \<or> pc_Resource pc = ''filteredapiexportendpointslices'')\<rparr>), an))
      else if pc_IdentityHash pc = '''' then (Inr pl, an)
      else
        (case kv_ByIdentity (rc_view c) (pc_IdentityHash pc) of
           Inl err \<Rightarrow> (Inl err, an)
         | Inr exports \<Rightarrow>
             (candidate_exports c pc (sort_Slice (al_LongSort (rc_lib c)) export_less exports) pl, an)))"

fun claims_loop ::
    "('rt, 'sel, 'req) reconciler \<Rightarrow> string \<Rightarrow> PermissionClaim list \<Rightarrow> plan \<Rightarrow> annot_store
      \<Rightarrow> (go_error + plan) \<times> annot_store" where
  "claims_loop c clusterName [] pl an = (Inr pl, an)"
| "claims_loop c clusterName (pc # pcs) pl an =
     (case claim_step c clusterName pc pl an of
        (Inl err, an') \<Rightarrow> (Inl err, an')
      | (Inr pl', an') \<Rightarrow> claims_loop c clusterName pcs pl' an')"

text \<open>Everything before the definitions are built.\<close>

definition make_plan ::
    "('rt, 'sel, 'req) reconciler \<Rightarrow> apiexport \<Rightarrow> annot_store \<Rightarrow> (go_error + plan) \<times> annot_store" where
  "make_plan c apiExport an =
     (case getSchemasFromAPIExport (rc_view c) apiExport of
        Inl err \<Rightarrow> (Inl err, an)
      | Inr apiResourceSchemas \<Rightarrow>
          claims_loop c (ex_Cluster apiExport) (ex_PermissionClaims apiExport)
            \<lparr>pl_Schemas = apiResourceSchemas,
             pl_Identities = (\<lambda>gr. if apiResourceSchemas gr = None then None
                                   else Some (ex_IdentityHash apiExport)),
             pl_Claims = Map.empty, pl_claimsAPIBindings = False, pl_claimFilteredAPIExportES = False\<rparr>
            an)"


section \<open>Building the definitions\<close>

text \<open>The requirements of the slice's object selector.\<close>

definition slice_requirements ::
    "('sel, 'req) labels_api \<Rightarrow> label_selector \<Rightarrow> go_error + 'req list" where
  "slice_requirements L objectSelector =
     (case LabelSelectorAsSelector L objectSelector of
        Inl err \<Rightarrow> Inl err
      | Inr selector \<Rightarrow>
          (case Requirements L selector of
             (labelReqs, selectable) \<Rightarrow>
               if \<not> selectable then Inl (Errorf
                 ''unable to create a selector from the provided labels in the FilteredAPIExportEndpointSlice'' [])
               else Inr labelReqs))"

text \<open>The requirement a permission claim adds, none when the resource is not claimed.\<close>

definition claim_requirement ::
    "('sel, 'req) api_library \<Rightarrow> apiexport \<Rightarrow> (group_resource \<rightharpoonup> PermissionClaim) \<Rightarrow> group_resource
      \<Rightarrow> go_error + 'req list" where
  "claim_requirement lib apiExport claims gr =
     (case claims gr of
        None \<Rightarrow> Inr []
      | Some c \<Rightarrow>
          (case al_ToLabelKeyAndValue lib (ex_Cluster apiExport) (ex_Name apiExport) c of
             Inl err \<Rightarrow> Inl (Wrap ''failed to convert permission claim %v to label key and value: %w'' [] err)
           | Inr (key, label) \<Rightarrow>
               let claimLabels =
                     (if gr = \<lparr>gr_Group = apis_GroupName, gr_Resource = ''apibindings''\<rparr>
                      then [label, snd (al_ToReflexiveLabel lib (ex_Cluster apiExport) (ex_Name apiExport))]
                      else [label])
               in (case NewRequirementIn (al_Labels lib) key claimLabels of
                     Inl err \<Rightarrow> Inl (Wrap
                       ''failed to create label requirement for permission claim %v: %w'' [] err)
                   | Inr req \<Rightarrow> Inr [req])))"

definition schema_gvr :: "APIResourceSchema \<Rightarrow> string \<Rightarrow> group_version_resource" where
  "schema_gvr s version =
     \<lparr>gvr_Group = sc_Group s, gvr_Version = version, gvr_Resource = sc_Plural s\<rparr>"

text \<open>\<open>this is the same schema and identity as before\<close>: the old definition is kept.\<close>

definition keeps_old :: "apiexport \<Rightarrow> APIResourceSchema \<Rightarrow> def_entry option \<Rightarrow> bool" where
  "keeps_old apiExport s old \<longleftrightarrow>
     (case old of None \<Rightarrow> False
      | Some e \<Rightarrow> de_UID e = sc_UID s \<and> de_IdentityHash e = ex_IdentityHash apiExport)"

definition version_step ::
    "('rt, 'sel, 'req) reconciler \<Rightarrow> slice \<Rightarrow> apiexport \<Rightarrow> plan \<Rightarrow> api_set \<Rightarrow> APIResourceSchema
      \<Rightarrow> schema_version \<Rightarrow> api_set \<Rightarrow> 'rt \<Rightarrow> (go_error + api_set) \<times> 'rt" where
  "version_step c filteredSlice apiExport pl oldSet s version newSet rt =
     (if \<not> v_Served version then (Inr newSet, rt)
      else let gvr = schema_gvr s (v_Name version) in
      if keeps_old apiExport s (oldSet gvr) then (Inr (newSet(gvr := oldSet gvr)), rt)
      else
        (case slice_requirements (al_Labels (rc_lib c)) (ObjectSelector (Spec filteredSlice)) of
           Inl err \<Rightarrow> (Inl err, rt)
         | Inr labelReqs \<Rightarrow>
           (case claim_requirement (rc_lib c) apiExport (pl_Claims pl) (GroupResource gvr) of
              Inl err \<Rightarrow> (Inl err, rt)
            | Inr req \<Rightarrow>
              (case rc_createAPIDefinition c s (v_Name version)
                      (case pl_Identities pl (GroupResource gvr) of None \<Rightarrow> '''' | Some i \<Rightarrow> i)
                      (labelReqs @ req) rt of
                 (Inl err, rt') \<Rightarrow> (Inr newSet, rt')
               | (Inr d, rt') \<Rightarrow>
                   (Inr (newSet(gvr \<mapsto> \<lparr>de_Definition = Some d, de_UID = sc_UID s,
                                      de_IdentityHash = ex_IdentityHash apiExport\<rparr>)), rt')))))"

fun versions_loop ::
    "('rt, 'sel, 'req) reconciler \<Rightarrow> slice \<Rightarrow> apiexport \<Rightarrow> plan \<Rightarrow> api_set \<Rightarrow> APIResourceSchema
      \<Rightarrow> schema_version list \<Rightarrow> api_set \<Rightarrow> 'rt \<Rightarrow> (go_error + api_set) \<times> 'rt" where
  "versions_loop c fs ex pl oldSet s [] newSet rt = (Inr newSet, rt)"
| "versions_loop c fs ex pl oldSet s (v # vs) newSet rt =
     (case version_step c fs ex pl oldSet s v newSet rt of
        (Inl err, rt') \<Rightarrow> (Inl err, rt')
      | (Inr newSet', rt') \<Rightarrow> versions_loop c fs ex pl oldSet s vs newSet' rt')"

fun build_loop ::
    "('rt, 'sel, 'req) reconciler \<Rightarrow> slice \<Rightarrow> apiexport \<Rightarrow> plan \<Rightarrow> api_set \<Rightarrow> group_resource list
      \<Rightarrow> api_set \<Rightarrow> 'rt \<Rightarrow> (go_error + api_set) \<times> 'rt" where
  "build_loop c fs ex pl oldSet [] newSet rt = (Inr newSet, rt)"
| "build_loop c fs ex pl oldSet (gr # grs) newSet rt =
     (case pl_Schemas pl gr of
        None \<Rightarrow> build_loop c fs ex pl oldSet grs newSet rt
      | Some s \<Rightarrow>
          (case versions_loop c fs ex pl oldSet s (sc_Versions s) newSet rt of
             (Inl err, rt') \<Rightarrow> (Inl err, rt')
           | (Inr newSet', rt') \<Rightarrow> build_loop c fs ex pl oldSet grs newSet' rt'))"

text \<open>The fallback APIs. A failed creation is logged and a nil definition stored.\<close>

definition binding_gvrs :: "group_version_resource list" where
  "binding_gvrs =
     [\<lparr>gvr_Group = apis_GroupName, gvr_Version = ''v1alpha1'', gvr_Resource = ''apibindings''\<rparr>,
      \<lparr>gvr_Group = apis_GroupName, gvr_Version = ''v1alpha2'', gvr_Resource = ''apibindings''\<rparr>]"

definition fallback_entry :: "go_error + nat \<Rightarrow> def_entry" where
  "fallback_entry res =
     \<lparr>de_Definition = (case res of Inl _ \<Rightarrow> None | Inr d \<Rightarrow> Some d), de_UID = '''', de_IdentityHash = ''''\<rparr>"

fun add_fallbacks ::
    "(string \<Rightarrow> string \<Rightarrow> string \<Rightarrow> 'rt \<Rightarrow> (go_error + nat) \<times> 'rt) \<Rightarrow> apiexport
      \<Rightarrow> group_version_resource list \<Rightarrow> api_set \<Rightarrow> 'rt \<Rightarrow> api_set \<times> 'rt" where
  "add_fallbacks create ex [] newSet rt = (newSet, rt)"
| "add_fallbacks create ex (gvr # gvrs) newSet rt =
     (case create (gvr_Version gvr) (ex_Cluster ex) (ex_Name ex) rt of
        (res, rt') \<Rightarrow> add_fallbacks create ex gvrs (newSet(gvr \<mapsto> fallback_entry res)) rt')"

text \<open>The whole construction of \<open>newSet\<close>.\<close>

definition build_set ::
    "('rt, 'sel, 'req) reconciler \<Rightarrow> slice \<Rightarrow> apiexport \<Rightarrow> plan \<Rightarrow> api_set \<Rightarrow> 'rt
      \<Rightarrow> (go_error + api_set) \<times> 'rt" where
  "build_set c filteredSlice apiExport pl oldSet rt =
     (case build_loop c filteredSlice apiExport pl oldSet
             (al_SchemaRange (rc_lib c) 1 (pl_Schemas pl)) Map.empty rt of
        (Inl err, rt1) \<Rightarrow> (Inl err, rt1)
      | (Inr set1, rt1) \<Rightarrow>
          (case (if pl_claimsAPIBindings pl then (set1, rt1)
                 else add_fallbacks (rc_createAPIBindingAPIDefinition c) apiExport binding_gvrs set1 rt1) of
             (set2, rt2) \<Rightarrow>
               (case (if pl_claimFilteredAPIExportES pl then (set2, rt2)
                      else add_fallbacks (rc_createFilteredAPIExportESAPIDefinition c) apiExport
                             [slice_gvr] set2 rt2) of
                  (set3, rt3) \<Rightarrow> (Inr set3, rt3))))"

section \<open>Cleanup and commit\<close>

text \<open>\<open>TearDown\<close> of the old definitions that are not served any more; \<open>False\<close> is a panic.\<close>

fun cleanup ::
    "('rt, 'sel, 'req) reconciler \<Rightarrow> api_set \<Rightarrow> api_set \<Rightarrow> group_version_resource list \<Rightarrow> 'rt
      \<Rightarrow> bool \<times> 'rt" where
  "cleanup c oldSet newSet [] rt = (True, rt)"
| "cleanup c oldSet newSet (gvr # gvrs) rt =
     (case oldSet gvr of
        None \<Rightarrow> cleanup c oldSet newSet gvrs rt
      | Some old \<Rightarrow>
          if (case newSet gvr of None \<Rightarrow> True | Some new \<Rightarrow> de_Definition old \<noteq> de_Definition new)
          then (case de_Definition old of
                  None \<Rightarrow> (False, rt)
                | Some d \<Rightarrow> cleanup c oldSet newSet gvrs (rc_TearDown c d rt))
          else cleanup c oldSet newSet gvrs rt)"

text \<open>The export of the slice: an error, or none, or one.\<close>

definition lookup_export ::
    "('rt, 'sel, 'req) reconciler \<Rightarrow> slice option \<Rightarrow> go_error + apiexport option" where
  "lookup_export c filteredSlice =
     (case filteredSlice of
        None \<Rightarrow> Inr None
      | Some s \<Rightarrow>
          (case kv_Export (rc_view c) (sl_Cluster s) (ref_Name (APIExport (Spec s))) of
             Inl err \<Rightarrow> if \<not> IsNotFound err then Inl err else Inr None
           | Inr e \<Rightarrow> Inr (Some e)))"

definition remove_domain ::
    "string \<Rightarrow> 'rt reconciler_state \<Rightarrow> outcome \<times> 'rt reconciler_state" where
  "remove_domain apiDomainKey st =
     (if rs_apiSets st apiDomainKey = None then (Done None, st)
      else (Done None, st\<lparr>rs_apiSets := (rs_apiSets st)(apiDomainKey := None)\<rparr>))"

definition update_domain ::
    "('rt, 'sel, 'req) reconciler \<Rightarrow> slice \<Rightarrow> apiexport \<Rightarrow> string \<Rightarrow> 'rt reconciler_state
      \<Rightarrow> outcome \<times> 'rt reconciler_state" where
  "update_domain c filteredSlice apiExport apiDomainKey st =
     (let oldSet = go_map (rs_apiSets st apiDomainKey) in
      case make_plan c apiExport (rs_Annotations st) of
        (Inl err, an) \<Rightarrow> (Done (Some err), st\<lparr>rs_Annotations := an\<rparr>)
      | (Inr pl, an) \<Rightarrow>
          (case build_set c filteredSlice apiExport pl oldSet (rs_Definitions st) of
             (Inl err, rt) \<Rightarrow> (Done (Some err), st\<lparr>rs_Annotations := an, rs_Definitions := rt\<rparr>)
           | (Inr newSet, rt) \<Rightarrow>
               (case cleanup c oldSet newSet (al_DefRange (rc_lib c) 0 oldSet) rt of
                  (False, rt') \<Rightarrow> (Panic, st\<lparr>rs_Annotations := an, rs_Definitions := rt'\<rparr>)
                | (True, rt') \<Rightarrow>
                    (Done None,
                     st\<lparr>rs_apiSets := (rs_apiSets st)(apiDomainKey \<mapsto> newSet),
                        rs_Annotations := an, rs_Definitions := rt'\<rparr>))))"

definition reconcile ::
    "('rt, 'sel, 'req) reconciler \<Rightarrow> slice option \<Rightarrow> string \<Rightarrow> 'rt reconciler_state
      \<Rightarrow> outcome \<times> 'rt reconciler_state" where
  "reconcile c filteredSlice apiDomainKey st =
     (case lookup_export c filteredSlice of
        Inl err \<Rightarrow> (Done (Some err), st)
      | Inr apiExport \<Rightarrow>
          (case (filteredSlice, apiExport) of
             (Some s, Some e) \<Rightarrow>
               if ex_IdentityHash e = '''' then remove_domain apiDomainKey st
               else update_domain c s e apiDomainKey st
           | _ \<Rightarrow> remove_domain apiDomainKey st))"

end
