(* ===== verification/Work_Queue.thy ===== *)
theory Work_Queue
  imports Api_Reconcile
begin

text \<open>
  The work queue as the controllers see it. \<open>workqueue.TypedRateLimitingInterface\<close> is
  client-go's: a controller's use of it is the list of calls it makes. \<open>Get\<close> yields a
  key, or \<open>None\<close> when the queue is shut down. The keys of objects come from kcp's
  \<open>cache\<close> package, with the documented law that splitting a key gives the cluster and the
  name of its object back.

  \<open>worker\<close> is the contract of \<open>processNextWorkItem\<close>, which both controllers of the
  program implement: what happens to a key depends on what \<open>process\<close> returned for it.
\<close>

datatype queue_op =
    QAdd string
  | QAddRateLimited string
  | QForget string
  | QDone string
  | QShutDown

record key_api =
  ka_SliceKey :: "slice \<Rightarrow> go_error + string"
  ka_ExportKey :: "apiexport \<Rightarrow> go_error + string"
  ka_SchemaKey :: "APIResourceSchema \<Rightarrow> go_error + string"
  ka_SplitKey :: "string \<Rightarrow> go_error + (string \<times> string \<times> string)"

definition keys_law :: "key_api \<Rightarrow> bool" where
  "keys_law K \<longleftrightarrow>
     (\<forall>s k. ka_SliceKey K s = Inr k \<longrightarrow> ka_SplitKey K k = Inr (sl_Cluster s, '''', sl_Name s))
     \<and> (\<forall>e k. ka_ExportKey K e = Inr k \<longrightarrow> ka_SplitKey K k = Inr (ex_Cluster e, '''', ex_Name e))"

text \<open>
  What an informer hands to a handler: an object, or the tombstone of one whose deletion it
  missed, with the last known state.
\<close>

datatype 'o delivered = Object 'o | DeletedFinalStateUnknown 'o

text \<open>
  \<open>startWorker\<close>: handle items until \<open>processNextWorkItem\<close> says no. \<open>gets i\<close> is what the
  \<open>i\<close>-th call of \<open>Get\<close> yields. The loop need not end; when it does, the result says
  whether it ended normally (not by a panic), after how many items, and in which state.
\<close>

partial_function (option) startWorker ::
    "(string option \<Rightarrow> 's \<Rightarrow> bool option \<times> queue_op list \<times> 's) \<Rightarrow> (nat \<Rightarrow> string option)
      \<Rightarrow> nat \<Rightarrow> 's \<Rightarrow> (bool \<times> nat \<times> 's) option" where
  "startWorker next_item gets i s =
     (case next_item (gets i) s of
        (r, ops, s') \<Rightarrow>
          if r = None then Some (False, i, s')
          else if r = Some False then Some (True, i, s')
          else startWorker next_item gets (Suc i) s')"

text \<open>The state after \<open>n\<close> items, from the \<open>i\<close>-th on.\<close>

fun state_after :: "(string \<Rightarrow> 's \<Rightarrow> outcome \<times> 's) \<Rightarrow> (nat \<Rightarrow> string option) \<Rightarrow> nat \<Rightarrow> nat \<Rightarrow> 's \<Rightarrow> 's" where
  "state_after process gets i 0 s = s"
| "state_after process gets i (Suc n) s =
     state_after process gets (Suc i) n (snd (process (the (gets i)) s))"

definition stops ::
    "(string \<Rightarrow> 's \<Rightarrow> outcome \<times> 's) \<Rightarrow> (nat \<Rightarrow> string option) \<Rightarrow> nat \<Rightarrow> 's \<Rightarrow> nat \<Rightarrow> bool" where
  "stops process gets i s n \<longleftrightarrow>
     gets (i + n) = None
     \<or> fst (process (the (gets (i + n))) (state_after process gets i n s)) = Panic"

lemma stops_Suc:
  "stops process gets i s (Suc n) = stops process gets (Suc i) (snd (process (the (gets i)) s)) n"
  by (simp add: stops_def)

locale worker =
  fixes process :: "string \<Rightarrow> 's \<Rightarrow> outcome \<times> 's"
    and next_item :: "string option \<Rightarrow> 's \<Rightarrow> bool option \<times> queue_op list \<times> 's"
      \<comment> \<open>whether to go on (\<open>None\<close>: panic), the calls on the queue, the new state\<close>
  assumes quit: "next_item None s = (Some False, [], s)"
    and success: "process k s = (Done None, s') \<Longrightarrow> next_item (Some k) s = (Some True, [QForget k, QDone k], s')"
    and failure: "process k s = (Done (Some e), s') \<Longrightarrow>
      next_item (Some k) s = (Some True, [QAddRateLimited k, QDone k], s')"
    and crash: "process k s = (Panic, s') \<Longrightarrow> next_item (Some k) s = (None, [QDone k], s')"
begin

lemma item_cases:
  obtains s' where "process k s = (Done None, s')" "next_item (Some k) s = (Some True, [QForget k, QDone k], s')"
  | e s' where "process k s = (Done (Some e), s')"
      "next_item (Some k) s = (Some True, [QAddRateLimited k, QDone k], s')"
  | s' where "process k s = (Panic, s')" "next_item (Some k) s = (None, [QDone k], s')"
proof -
  obtain out s' where p: "process k s = (out, s')" by force
  show thesis
  proof (cases out)
    case (Done e)
    then show thesis using p that(1,2) success failure by (cases e) blast+
  next
    case Panic
    then show thesis using p that(3) crash by blast
  qed
qed

lemma state_is_process: "snd (snd (next_item (Some k) s)) = snd (process k s)"
  by (cases rule: item_cases [of k s]) auto

lemma done_once:
  "next_item (Some k) s = (r, ops, s') \<Longrightarrow> count_list ops (QDone k) = 1 \<and> last ops = QDone k
     \<and> set ops \<subseteq> {QForget k, QAddRateLimited k, QDone k}"
  by (cases rule: item_cases [of k s]) auto

lemma retried_iff_failed:
  "next_item (Some k) s = (r, ops, s') \<Longrightarrow>
     (QAddRateLimited k \<in> set ops \<longleftrightarrow> (\<exists>e. fst (process k s) = Done (Some e)))
     \<and> (QForget k \<in> set ops \<longleftrightarrow> fst (process k s) = Done None)"
  by (cases rule: item_cases [of k s]) auto

lemma goes_on_iff:
  "fst (next_item (Some k) s) = Some True \<longleftrightarrow> fst (process k s) \<noteq> Panic"
  by (cases rule: item_cases [of k s]) auto

lemma next_unless_stopped:
  assumes "\<not> stops process gets i s 0"
  obtains ops where "next_item (gets i) s = (Some True, ops, snd (process (the (gets i)) s))"
proof -
  from assms obtain k where k: "gets i = Some k" "fst (process k s) \<noteq> Panic"
    by (auto simp: stops_def)
  then have "\<exists>ops. next_item (gets i) s = (Some True, ops, snd (process (the (gets i)) s))"
    by (cases rule: item_cases [of k s]) auto
  then show thesis using that by blast
qed

lemma worker_goes_on:
  assumes "\<not> stops process gets i s 0"
  shows "startWorker next_item gets i s
    = startWorker next_item gets (Suc i) (snd (process (the (gets i)) s))"
  by (rule next_unless_stopped [OF assms]) (simp add: startWorker.simps [of next_item gets i s])

lemma worker_ends:
  "stops process gets i s 0 \<Longrightarrow>
     \<exists>s'. startWorker next_item gets i s = Some (gets i = None, i, s') \<and> (gets i = None \<longrightarrow> s' = s)"
proof (cases "gets i")
  case None
  then show ?thesis by (simp add: startWorker.simps [of next_item gets i s] quit)
next
  case (Some k)
  assume "stops process gets i s 0"
  with Some have "fst (process k s) = Panic" by (simp add: stops_def)
  then obtain s' where "process k s = (Panic, s')" by (metis prod.collapse)
  from crash [OF this] Some show ?thesis by (simp add: startWorker.simps [of next_item gets i s])
qed

lemma worker_at_first_stop:
  "stops process gets i s n \<Longrightarrow> (\<And>m. m < n \<Longrightarrow> \<not> stops process gets i s m) \<Longrightarrow>
     \<exists>s'. startWorker next_item gets i s = Some (gets (i + n) = None, i + n, s')
       \<and> (gets (i + n) = None \<longrightarrow> s' = state_after process gets i n s)"
proof (induction n arbitrary: i s)
  case 0
  then show ?case using worker_ends by simp
next
  case (Suc n)
  have "\<not> stops process gets i s 0" using Suc.prems(2) by blast
  note step = worker_goes_on [OF this]
  have "stops process gets (Suc i) (snd (process (the (gets i)) s)) n"
    using Suc.prems(1) by (simp add: stops_Suc)
  moreover have "\<not> stops process gets (Suc i) (snd (process (the (gets i)) s)) m" if "m < n" for m
    using Suc.prems(2) [of "Suc m"] that by (simp add: stops_Suc)
  ultimately show ?case using Suc.IH unfolding step by fastforce
qed

lemma worker_returned:
  assumes "startWorker next_item gets i s = Some r"
  shows "\<exists>n. stops process gets i s n"
proof -
  have "next_item = next_item \<longrightarrow> (\<exists>n. stops process gets i s n)"
  proof (rule startWorker.raw_induct
      [where P = "\<lambda>nx g i s r. nx = next_item \<longrightarrow> (\<exists>n. stops process g i s n)", OF _ assms])
    fix sw nx g i s r
    assume IH: "\<And>nx g i s r. sw nx g i s = Some r \<Longrightarrow> nx = next_item \<longrightarrow> (\<exists>n. stops process g i s n)"
      and body: "(case nx (g i) s of (r, ops, s') \<Rightarrow>
          if r = None then Some (False, i, s')
          else if r = Some False then Some (True, i, s')
          else sw nx g (Suc i) s') = Some r"
    show "nx = next_item \<longrightarrow> (\<exists>n. stops process g i s n)"
    proof (intro impI, cases "stops process g i s 0")
      case False
      assume nx: "nx = next_item"
      from False obtain ops where "next_item (g i) s = (Some True, ops, snd (process (the (g i)) s))"
        by (rule next_unless_stopped)
      then have "sw nx g (Suc i) (snd (process (the (g i)) s)) = Some r"
        using body by (simp add: nx)
      then obtain n where "stops process g (Suc i) (snd (process (the (g i)) s)) n"
        using IH nx by blast
      then have "stops process g i s (Suc n)" by (simp add: stops_Suc)
      then show "\<exists>n. stops process g i s n" ..
    qed blast
  qed
  then show ?thesis by blast
qed

lemma worker_returns_iff:
  "(\<exists>r. startWorker next_item gets i s = Some r) \<longleftrightarrow> (\<exists>n. stops process gets i s n)"
proof
  assume "\<exists>n. stops process gets i s n"
  define n where "n = (LEAST n. stops process gets i s n)"
  have "stops process gets i s n" using \<open>\<exists>n. stops process gets i s n\<close> unfolding n_def by (rule LeastI_ex)
  moreover have "\<not> stops process gets i s m" if "m < n" for m
    using that not_less_Least unfolding n_def by blast
  ultimately show "\<exists>r. startWorker next_item gets i s = Some r" using worker_at_first_stop by blast
qed (use worker_returned in blast)

end

end
