(* ===== verification/Api_Plan.thy ===== *)
theory Api_Plan
  imports Api_Reconcile
begin

text \<open>
  What the first half of \<open>reconcile\<close> computes: which schemas are served, with which
  identity, and which permission claim each of them is served for.
\<close>

section \<open>Schemas of an export\<close>

definition keyed :: "builtin_schemas \<Rightarrow> bool" where
  "keyed m \<longleftrightarrow> finite (dom m) \<and> (\<forall>gr s. m gr = Some s \<longrightarrow> schema_gr s = gr)"

lemma keyed_empty [simp]: "keyed Map.empty"
  by (simp add: keyed_def)

lemma keyed_update: "keyed m \<Longrightarrow> keyed (m(schema_gr s \<mapsto> s))"
  by (simp add: keyed_def)

lemma schemas_loop_keyed:
  "schemas_loop l c rs m = Inr m' \<Longrightarrow> keyed m \<Longrightarrow> keyed m'"
  by (induction l c rs m rule: schemas_loop.induct)
    (auto split: sum.splits if_splits dest: keyed_update simp del: fun_upd_apply)

lemma getSchemas_keyed: "getSchemasFromAPIExport v e = Inr m \<Longrightarrow> keyed m"
  unfolding getSchemasFromAPIExport_def by (rule schemas_loop_keyed) auto

section \<open>The plan invariant\<close>

text \<open>
  Relative to the exported schemas, the identity of the export and its claims: exported
  resources keep their schema and identity and are never claimed, everything else in the
  plan is there because of a claim of the export for that very resource.
\<close>

definition plan_ok ::
    "builtin_schemas \<Rightarrow> string \<Rightarrow> PermissionClaim set \<Rightarrow> plan \<Rightarrow> bool" where
  "plan_ok exported identity pcs pl \<longleftrightarrow>
     finite (dom (pl_Schemas pl))
     \<and> dom (pl_Schemas pl) = dom exported \<union> dom (pl_Claims pl)
     \<and> dom exported \<inter> dom (pl_Claims pl) = {}
     \<and> (\<forall>gr \<in> dom exported. pl_Schemas pl gr = exported gr \<and> pl_Identities pl gr = Some identity)
     \<and> (\<forall>gr pc. pl_Claims pl gr = Some pc \<longrightarrow> pc \<in> pcs \<and> claim_gr pc = gr
          \<and> pl_Identities pl gr \<in> {None, Some (pc_IdentityHash pc)})
     \<and> (\<forall>gr. gr \<notin> dom (pl_Schemas pl) \<longrightarrow> pl_Identities pl gr = None)"

named_theorems plan_keeps \<open>the operations that keep \<open>plan_ok\<close>\<close>

lemma plan_ok_add [plan_keeps]:
  assumes "plan_ok exported identity pcs pl" "pc \<in> pcs" "exported (claim_gr pc) = None"
    "pl_Schemas pl (claim_gr pc) = None"
  shows "plan_ok exported identity pcs (add_schema pc s pl)"
proof -
  have "pl_Identities pl (claim_gr pc) = None"
    using assms unfolding plan_ok_def by blast
  with assms show ?thesis unfolding plan_ok_def add_schema_def by (auto split: if_splits)
qed

lemma plan_ok_flags [plan_keeps]:
  "plan_ok exported identity pcs (pl\<lparr>pl_claimsAPIBindings := b\<rparr>) \<longleftrightarrow> plan_ok exported identity pcs pl"
  "plan_ok exported identity pcs (pl\<lparr>pl_claimFilteredAPIExportES := b\<rparr>) \<longleftrightarrow> plan_ok exported identity pcs pl"
  by (simp_all add: plan_ok_def)

lemma plan_ok_identity [plan_keeps]:
  assumes "plan_ok exported identity pcs pl" "pc \<in> pcs" "exported (claim_gr pc) = None"
  shows "plan_ok exported identity pcs ((add_schema pc s pl)\<lparr>pl_Identities :=
           (pl_Identities pl)(claim_gr pc \<mapsto> pc_IdentityHash pc)\<rparr>)"
  using assms unfolding plan_ok_def add_schema_def by (auto split: if_splits)

lemma pick_candidates_ok [plan_keeps]:
  "plan_ok exported identity pcs pl \<Longrightarrow> pc \<in> pcs \<Longrightarrow> exported (claim_gr pc) = None \<Longrightarrow>
     plan_ok exported identity pcs (pick_candidates pc candidates ks pl)"
  by (induction pc candidates ks pl rule: pick_candidates.induct)
    (auto split: option.splits intro: plan_ok_identity)

lemma candidate_exports_ok [plan_keeps]:
  "candidate_exports c pc es pl = Inr pl' \<Longrightarrow> plan_ok exported identity pcs pl \<Longrightarrow> pc \<in> pcs \<Longrightarrow>
     exported (claim_gr pc) = None \<Longrightarrow> plan_ok exported identity pcs pl'"
  by (induction c pc es pl rule: candidate_exports.induct)
    (auto split: sum.splits intro: pick_candidates_ok)

lemma claim_step_ok [plan_keeps]:
  assumes "claim_step c cl pc pl an = (Inr pl', an')" "plan_ok exported identity pcs pl" "pc \<in> pcs"
  shows "plan_ok exported identity pcs pl'"
proof (cases "pl_Schemas pl (claim_gr pc) = None")
  case True
  then have "exported (claim_gr pc) = None"
    using assms(2) unfolding plan_ok_def by blast
  with True assms show ?thesis
    unfolding claim_step_def
    by (auto simp: plan_keeps split: if_splits sum.splits option.splits prod.splits
        intro: candidate_exports_ok plan_ok_add)
next
  case False
  then show ?thesis using assms by (simp add: claim_step_def)
qed

lemma claims_loop_ok:
  "claims_loop c cl pcs' pl an = (Inr pl', an') \<Longrightarrow> plan_ok exported identity pcs pl \<Longrightarrow>
     set pcs' \<subseteq> pcs \<Longrightarrow> plan_ok exported identity pcs pl'"
proof (induction c cl pcs' pl an rule: claims_loop.induct)
  case (2 c cl pc pcs' pl an)
  from "2.prems" obtain pl1 an1 where step: "claim_step c cl pc pl an = (Inr pl1, an1)"
    and rest: "claims_loop c cl pcs' pl1 an1 = (Inr pl', an')"
    by (auto split: prod.splits sum.splits)
  have "plan_ok exported identity pcs pl1"
    using claim_step_ok [OF step] "2.prems" by simp
  with "2.IH" [OF step [symmetric] refl rest] "2.prems" show ?case by simp
qed simp

lemma make_plan_ok:
  assumes "make_plan c e an = (Inr pl, an')"
  obtains exported where "getSchemasFromAPIExport (rc_view c) e = Inr exported"
    "keyed exported" "plan_ok exported (ex_IdentityHash e) (set (ex_PermissionClaims e)) pl"
proof -
  obtain exported where ex: "getSchemasFromAPIExport (rc_view c) e = Inr exported"
    and loop: "claims_loop c (ex_Cluster e) (ex_PermissionClaims e)
      \<lparr>pl_Schemas = exported, pl_Identities = (\<lambda>gr. if exported gr = None then None
         else Some (ex_IdentityHash e)), pl_Claims = Map.empty, pl_claimsAPIBindings = False,
         pl_claimFilteredAPIExportES = False\<rparr> an = (Inr pl, an')"
    using assms by (auto simp: make_plan_def split: sum.splits)
  have k: "keyed exported" using ex by (rule getSchemas_keyed)
  have "plan_ok exported (ex_IdentityHash e) (set (ex_PermissionClaims e)) pl"
    by (rule claims_loop_ok [OF loop]) (use k in \<open>auto simp: plan_ok_def keyed_def\<close>)
  with ex k that show thesis by blast
qed


section \<open>An example reconciler\<close>

definition w_gadgets_schema :: APIResourceSchema where [world]:
  "w_gadgets_schema = \<lparr>sc_Name = ''v1.gadgets'', sc_UID = ''u2'', sc_Annotations = None,
     sc_Group = ''gadgets.io'', sc_Plural = ''gadgets'',
     sc_Versions = [\<lparr>v_Name = ''v1'', v_Served = True, v_Raw = ''''\<rparr>]\<rparr>"

definition w_schemas :: "APIResourceSchema getter" where [world]:
  "w_schemas c n =
     (if c = ''prov'' \<and> n = ''v1.widgets'' then Inr w_widgets
      else if c = ''gprov'' \<and> n = ''v1.gadgets'' then Inr w_gadgets_schema
      else Inl (NotFound (Str n)))"

definition w_view :: kcp_view where [world]:
  "w_view = \<lparr>kv_Slice = w_slices,
     kv_Slices = (\<lambda>c. Inr (if c = ''prov'' then [w_slice] else [])),
     kv_Schema = w_schemas, kv_Export = w_exports, kv_ByIdentity = w_byIdentity,
     kv_ByClaimedIdentities = (\<lambda>h. Inr (if h = ''gid'' then [w_export] else []))\<rparr>"

definition w_lib :: "(label_selector, string \<times> string list) api_library" where [world]:
  "w_lib = \<lparr>al_Labels = ref_labels [''env'', ''team''],
     al_ToLabelKeyAndValue = (\<lambda>c n pc. Inr (''claimed'', pc_Resource pc)),
     al_ToReflexiveLabel = (\<lambda>c n. (''claimed'', n)),
     al_AnnotationKey = ''kcp.io/cluster'', al_LongSort = (\<lambda>lt xs. xs),
     al_SchemaRange = sorted_range, al_DefRange = sorted_range,
     al_BuiltIn = w_builtin, al_ApisKcpDevSchemas = w_apis\<rparr>"

text \<open>\<open>NewAPIReconciler\<close>, with the closures \<open>BuildVirtualWorkspace\<close> passes to it.\<close>

definition NewAPIReconciler ::
    "'req builder_env \<Rightarrow> ('sel, 'req) api_library \<Rightarrow> kcp_view
      \<Rightarrow> ('req defs_state, 'sel, 'req) reconciler" where
  "NewAPIReconciler be lib v =
     \<lparr>rc_view = v, rc_lib = lib,
      rc_createAPIDefinition = createAPIDefinition be,
      rc_createAPIBindingAPIDefinition = createAPIBindingAPIDefinition be,
      rc_createFilteredAPIExportESAPIDefinition = createFilteredAPIExportESAPIDefinition be,
      rc_TearDown = TearDown\<rparr>"

lemma NewAPIReconciler_simps [simp]:
  "rc_view (NewAPIReconciler be lib v) = v"
  "rc_lib (NewAPIReconciler be lib v) = lib"
  "rc_createAPIDefinition (NewAPIReconciler be lib v) = createAPIDefinition be"
  "rc_createAPIBindingAPIDefinition (NewAPIReconciler be lib v) = createAPIBindingAPIDefinition be"
  "rc_createFilteredAPIExportESAPIDefinition (NewAPIReconciler be lib v)
     = createFilteredAPIExportESAPIDefinition be"
  "rc_TearDown (NewAPIReconciler be lib v) = TearDown"
  by (simp_all add: NewAPIReconciler_def)

definition w_rc :: "((string \<times> string list) defs_state, label_selector, string \<times> string list) reconciler"
  where [world]: "w_rc = NewAPIReconciler w_be w_lib w_view"

definition w_annot :: annot_store where [world]:
  "w_annot = \<lparr>an_Next = 0, an_Maps = Map.empty\<rparr>"

definition w_cm_schema :: APIResourceSchema where [world]:
  "w_cm_schema = \<lparr>sc_Name = ''configmaps'', sc_UID = '''', sc_Annotations = None,
     sc_Group = '''', sc_Plural = ''configmaps'',
     sc_Versions = [\<lparr>v_Name = ''v1'', v_Served = True, v_Raw = ''''\<rparr>]\<rparr>"

lemma w_builtin_configmaps: "w_builtin \<lparr>gr_Group = '''', gr_Resource = ''configmaps''\<rparr> = Some w_cm_schema"
  unfolding w_builtin_def init_builtin_def w_maker_def
  by (simp add: BuiltInAPIs_def BuiltInAPIs_core_def BuiltInAPIs_rest_def internal_api_def
      schema_gr_def w_cm_schema_def)

lemma w_builtin_gadgets: "w_builtin \<lparr>gr_Group = ''gadgets.io'', gr_Resource = ''gadgets''\<rparr> = None"
  unfolding w_builtin_def init_builtin_def w_maker_def
  by (simp add: BuiltInAPIs_def BuiltInAPIs_core_def BuiltInAPIs_rest_def internal_api_def
      schema_gr_def)

definition w_plan :: plan where [world]:
  "w_plan =
     \<lparr>pl_Schemas = [schema_gr w_widgets \<mapsto> w_widgets,
        claim_gr w_configmaps \<mapsto> w_cm_schema\<lparr>sc_Annotations := Some 0\<rparr>,
        claim_gr w_gadgets \<mapsto> w_gadgets_schema],
      pl_Identities = [schema_gr w_widgets \<mapsto> ''id'', claim_gr w_gadgets \<mapsto> ''gid''],
      pl_Claims = [claim_gr w_configmaps \<mapsto> w_configmaps, claim_gr w_gadgets \<mapsto> w_gadgets],
      pl_claimsAPIBindings = False, pl_claimFilteredAPIExportES = False\<rparr>"

lemma w_exported:
  "getSchemasFromAPIExport w_view w_export = Inr [schema_gr w_widgets \<mapsto> w_widgets]"
  by (simp add: getSchemasFromAPIExport_def w_view_def w_export_def w_schemas_def)

lemma w_candidates:
  "getSchemasFromAPIExport w_view w_gadget_export = Inr [schema_gr w_gadgets_schema \<mapsto> w_gadgets_schema]"
  by (simp add: getSchemasFromAPIExport_def w_view_def w_gadget_export_def w_schemas_def)

definition w_annot' :: annot_store where [world]:
  "w_annot' = \<lparr>an_Next = 1, an_Maps = [0 \<mapsto> [''kcp.io/cluster'' \<mapsto> ''prov'']]\<rparr>"

lemma w_make_plan: "make_plan w_rc w_export w_annot = (Inr w_plan, w_annot')"
proof -
  let ?pl0 = "\<lparr>pl_Schemas = [schema_gr w_widgets \<mapsto> w_widgets],
     pl_Identities = [schema_gr w_widgets \<mapsto> ''id''],
     pl_Claims = Map.empty, pl_claimsAPIBindings = False, pl_claimFilteredAPIExportES = False\<rparr>"
  let ?pl1 = "add_schema w_configmaps (w_cm_schema\<lparr>sc_Annotations := Some 0\<rparr>) ?pl0"
  have 1: "claim_step w_rc ''prov'' w_configmaps ?pl0 w_annot = (Inr ?pl1, w_annot')"
    by (simp add: claim_step_def w_rc_def w_lib_def claim_gr_def w_configmaps_def schema_gr_def
        w_widgets_def IsBuiltInAPI_def GetBuiltInAPISchema_def w_builtin_configmaps
        shallow_with_cluster_def w_cm_schema_def w_annot_def w_annot'_def add_schema_def)
  have 2: "claim_step w_rc ''prov'' w_gadgets ?pl1 w_annot' = (Inr w_plan, w_annot')"
    by (simp add: claim_step_def w_rc_def w_lib_def claim_gr_def w_configmaps_def schema_gr_def
        w_widgets_def IsBuiltInAPI_def w_builtin_gadgets w_gadgets_def apis_GroupName_def GroupName_def
        add_schema_def w_view_def w_byIdentity_def sort_Slice_def w_candidates [unfolded w_view_def]
        sorted_range_def w_gadgets_schema_def w_plan_def)
  have 0: "(\<lambda>gr. if [schema_gr w_widgets \<mapsto> w_widgets] gr = None then None else Some ''id'')
      = [schema_gr w_widgets \<mapsto> ''id'']"
    by (rule ext) simp
  have "rc_view w_rc = w_view" "ex_Cluster w_export = ''prov''" "ex_IdentityHash w_export = ''id''"
    "ex_PermissionClaims w_export = [w_configmaps, w_gadgets]"
    by (simp_all add: w_rc_def w_export_def)
  then show ?thesis
    by (simp only: make_plan_def w_exported sum.case 0 claims_loop.simps 1 2 prod.case)
qed


section \<open>Properties of the plan\<close>

text \<open>
  C17: In the plan of a reconcile, the schemas of the export itself are never replaced by a
  claim, carry the identity of the export and have no claim recorded; every other planned
  schema comes from a permission claim for that very group and resource.
\<close>

theorem exported_have_priority:
  assumes "getSchemasFromAPIExport (rc_view c) e = Inr exported"
    and "make_plan c e an = (Inr pl, an')"
  shows "(\<forall>gr s. exported gr = Some s \<longrightarrow>
            pl_Schemas pl gr = Some s \<and> pl_Identities pl gr = Some (ex_IdentityHash e)
            \<and> pl_Claims pl gr = None)
    \<and> (\<forall>gr. exported gr = None \<and> pl_Schemas pl gr \<noteq> None \<longrightarrow>
          (\<exists>pc \<in> set (ex_PermissionClaims e). pl_Claims pl gr = Some pc \<and> claim_gr pc = gr
             \<and> pl_Identities pl gr \<in> {None, Some (pc_IdentityHash pc)}))"
proof -
  have ok: "plan_ok exported (ex_IdentityHash e) (set (ex_PermissionClaims e)) pl"
    using assms by (elim make_plan_ok) simp
  show ?thesis
  proof (intro conjI allI impI)
    fix gr s
    assume "exported gr = Some s"
    then have gr: "gr \<in> dom exported" "exported gr = Some s" by auto
    with ok show "pl_Schemas pl gr = Some s" "pl_Identities pl gr = Some (ex_IdentityHash e)"
      unfolding plan_ok_def by auto
    have "gr \<notin> dom (pl_Claims pl)" using ok gr(1) unfolding plan_ok_def by blast
    then show "pl_Claims pl gr = None" by auto
  next
    fix gr
    assume "exported gr = None \<and> pl_Schemas pl gr \<noteq> None"
    then have "gr \<in> dom (pl_Schemas pl)" "gr \<notin> dom exported" by auto
    then have "gr \<in> dom (pl_Claims pl)" using ok unfolding plan_ok_def by blast
    then obtain pc where "pl_Claims pl gr = Some pc" by auto
    with ok show "\<exists>pc \<in> set (ex_PermissionClaims e). pl_Claims pl gr = Some pc \<and> claim_gr pc = gr
        \<and> pl_Identities pl gr \<in> {None, Some (pc_IdentityHash pc)}"
      unfolding plan_ok_def by blast
  qed
qed

theorem exported_have_priority_witness:
  "pl_Schemas w_plan (schema_gr w_widgets) = Some w_widgets
   \<and> pl_Identities w_plan (schema_gr w_widgets) = Some ''id''"
  using exported_have_priority [of w_rc w_export, OF _ w_make_plan] w_exported
  by (simp add: w_rc_def w_export_def)

text \<open>What the filteredvw branch of the loop over the claims does.\<close>

lemma claim_step_filteredvw:
  assumes "pc_Group pc = GroupName" "pl_Schemas pl (claim_gr pc) = None"
    "\<not> IsBuiltInAPI (al_BuiltIn (rc_lib c)) (claim_gr pc)"
    "al_ApisKcpDevSchemas (rc_lib c) (pc_Resource pc) = Some s"
  shows "claim_step c cl pc pl an = (Inr ((add_schema pc s pl)\<lparr>pl_claimFilteredAPIExportES :=
     (pl_claimFilteredAPIExportES pl \<or> pc_Resource pc = ''filteredapiexportendpointslices'')\<rparr>), an)"
  using assms by (simp add: claim_step_def GroupName_def apis_GroupName_def)

text \<open>
  C24: A claim of filteredapiexportendpointslices plans a schema of another group than the
  claim, so that the served API carries no claim label requirement while the read-only
  fallback is suppressed.
\<close>

theorem claimed_slices_lose_their_claim:
  assumes law: "crd_law A" and init: "init_apis A = Inr (al_ApisKcpDevSchemas (rc_lib c))"
    and pc: "claim_gr pc = Resource ''filteredapiexportendpointslices''"
    and unclaimed: "pl_Schemas pl (claim_gr pc) = None" "\<not> IsBuiltInAPI (al_BuiltIn (rc_lib c)) (claim_gr pc)"
    and other: "pl_Claims pl \<lparr>gr_Group = ''filteredapiexport.kcp.io'',
                  gr_Resource = ''filteredapiexportendpointslices''\<rparr> = None"
  shows "\<exists>s pl'. claim_step c cl pc pl an = (Inr pl', an)
     \<and> pl_claimFilteredAPIExportES pl'
     \<and> pl_Schemas pl' (claim_gr pc) = Some s \<and> schema_gr s \<noteq> claim_gr pc
     \<and> claim_requirement (rc_lib c) e (pl_Claims pl') (schema_gr s) = Inr []"
proof -
  obtain m where add: "add_crd A ''filteredapiexportendpointslices'' configFile_crd m
      = Inr (al_ApisKcpDevSchemas (rc_lib c))"
    using init by (auto simp: init_apis_def split: sum.splits)
  obtain s where
    s0: "al_ApisKcpDevSchemas (rc_lib c) = m(''filteredapiexportendpointslices'' \<mapsto> s)"
      "sc_Group s = crd_Group configFile_crd" "sc_Plural s = crd_Plural configFile_crd"
    by (rule add_crd_Inr [OF law add])
  have s: "al_ApisKcpDevSchemas (rc_lib c) ''filteredapiexportendpointslices'' = Some s"
      "sc_Group s = ''filteredapiexport.kcp.io''" "sc_Plural s = ''filteredapiexportendpointslices''"
    unfolding s0 by (simp_all add: configFile_crd_def)
  have gr: "pc_Group pc = GroupName" "pc_Resource pc = ''filteredapiexportendpointslices''"
    using pc by (simp_all add: claim_gr_def Resource_def GroupResource_def)
  have moved: "schema_gr s = \<lparr>gr_Group = ''filteredapiexport.kcp.io'',
      gr_Resource = ''filteredapiexportendpointslices''\<rparr>" "schema_gr s \<noteq> claim_gr pc"
    using s gr by (simp_all add: schema_gr_def claim_gr_def GroupName_def)
  let ?pl = "(add_schema pc s pl)\<lparr>pl_claimFilteredAPIExportES := True\<rparr>"
  have "claim_step c cl pc pl an = (Inr ?pl, an)"
    unfolding claim_step_filteredvw [OF gr(1) unclaimed, unfolded gr(2), OF s(1)] gr(2)
    by (simp only: simp_thms)
  moreover have "pl_Claims ?pl (schema_gr s) = None"
    using other moved by (simp add: add_schema_def)
  then have "claim_requirement (rc_lib c) e (pl_Claims ?pl) (schema_gr s) = Inr []"
    by (simp add: claim_requirement_def)
  moreover have "pl_Schemas ?pl (claim_gr pc) = Some s" "pl_claimFilteredAPIExportES ?pl"
    by (simp_all add: add_schema_def)
  ultimately show ?thesis using moved(2) by blast
qed

definition w_slices_claim :: PermissionClaim where [world]:
  "w_slices_claim = \<lparr>pc_Group = ''filteredvw.kcp.io'', pc_Resource = ''filteredapiexportendpointslices'',
     pc_IdentityHash = '''', pc_Verbs = [''*'']\<rparr>"

lemma w_builtin_slices: "w_builtin (claim_gr w_slices_claim) = None"
  unfolding w_builtin_def init_builtin_def w_maker_def
  by (simp add: BuiltInAPIs_def BuiltInAPIs_core_def BuiltInAPIs_rest_def internal_api_def
      schema_gr_def claim_gr_def w_slices_claim_def)

theorem claimed_slices_lose_their_claim_witness:
  "\<exists>s pl'. claim_step w_rc ''prov'' w_slices_claim w_plan w_annot = (Inr pl', w_annot)
     \<and> pl_claimFilteredAPIExportES pl'
     \<and> pl_Schemas pl' (claim_gr w_slices_claim) = Some s \<and> schema_gr s \<noteq> claim_gr w_slices_claim
     \<and> claim_requirement (rc_lib w_rc) w_export (pl_Claims pl') (schema_gr s) = Inr []"
proof (rule claimed_slices_lose_their_claim [OF w_crd_law])
  show "init_apis w_crd_api = Inr (al_ApisKcpDevSchemas (rc_lib w_rc))"
    by (simp add: w_rc_def w_lib_def init_w_crd_api)
  show "claim_gr w_slices_claim = Resource ''filteredapiexportendpointslices''"
    by (simp add: w_slices_claim_def claim_gr_def Resource_def GroupResource_def GroupName_def)
  show "\<not> IsBuiltInAPI (al_BuiltIn (rc_lib w_rc)) (claim_gr w_slices_claim)"
    by (simp add: IsBuiltInAPI_def w_rc_def w_lib_def w_builtin_slices)
qed (simp_all add: w_plan_def w_slices_claim_def claim_gr_def schema_gr_def world)

text \<open>
  The comparator of the exports does not decide between two exports that differ in opposite
  directions, so their order is that of the index.
\<close>

theorem sort_is_not_deterministic:
  assumes "ex_Name a < ex_Name b" and "\<not> ex_Cluster a < ex_Cluster b"
  shows "sort_Slice long export_less [a, b] = [a, b] \<and> sort_Slice long export_less [b, a] = [b, a]"
  using assms by (auto simp: sort_Slice_def export_less_def)

theorem sort_is_not_deterministic_witness:
  "sort_Slice (\<lambda>lt xs. xs) export_less [w_export, w_gadget_export\<lparr>ex_Cluster := ''a''\<rparr>]
     = [w_export, w_gadget_export\<lparr>ex_Cluster := ''a''\<rparr>]
   \<and> sort_Slice (\<lambda>lt xs. xs) export_less [w_gadget_export\<lparr>ex_Cluster := ''a''\<rparr>, w_export]
     = [w_gadget_export\<lparr>ex_Cluster := ''a''\<rparr>, w_export]"
  by (rule sort_is_not_deterministic)
    (simp_all add: w_export_def w_gadget_export_def less_char_def)

end
