(* ===== verification/Api_Sets.thy ===== *)
theory Api_Sets
  imports Api_Plan
begin

text \<open>
  What the second half of \<open>reconcile\<close> does to the served definitions. The facts are proved
  once in \<open>reconciler_world\<close>, over the contract \<open>definition_store\<close> of the functions the
  reconciler calls, and interpreted on the closures of \<open>BuildVirtualWorkspace\<close>.
\<close>

definition identity_of :: "plan \<Rightarrow> group_resource \<Rightarrow> string" where
  "identity_of pl gr = (case pl_Identities pl gr of None \<Rightarrow> '''' | Some i \<Rightarrow> i)"

text \<open>An entry the reconciler made for a schema: filtered by the slice and by the claim.\<close>

definition delegated_entry ::
    "('sel, 'req) api_library \<Rightarrow> slice \<Rightarrow> apiexport \<Rightarrow> plan \<Rightarrow> (nat \<Rightarrow> 'req origin option)
      \<Rightarrow> group_version_resource \<Rightarrow> def_entry \<Rightarrow> bool" where
  "delegated_entry lib fs ex pl org gvr e \<longleftrightarrow>
     (\<exists>s d reqs extra.
        e = \<lparr>de_Definition = Some d, de_UID = sc_UID s, de_IdentityHash = ex_IdentityHash ex\<rparr>
        \<and> s \<in> ran (pl_Schemas pl) \<and> gvr = schema_gvr s (gvr_Version gvr)
        \<and> org d = Some (Delegated s (gvr_Version gvr) (identity_of pl (GroupResource gvr)) (reqs @ extra))
        \<and> slice_requirements (al_Labels lib) (ObjectSelector (Spec fs)) = Inr reqs
        \<and> claim_requirement lib ex (pl_Claims pl) (GroupResource gvr) = Inr extra)"

definition fallback_ok :: "(nat \<Rightarrow> 'req origin option) \<Rightarrow> group_version_resource \<Rightarrow> def_entry \<Rightarrow> bool" where
  "fallback_ok org gvr e \<longleftrightarrow>
     gvr \<in> set (slice_gvr # binding_gvrs)
     \<and> (\<forall>d. de_Definition e = Some d \<longrightarrow> org d = Some Fallback)"

definition kept_entry :: "apiexport \<Rightarrow> api_set \<Rightarrow> group_version_resource \<Rightarrow> def_entry \<Rightarrow> bool" where
  "kept_entry ex oldSet gvr e \<longleftrightarrow> oldSet gvr = Some e \<and> de_IdentityHash e = ex_IdentityHash ex"

text \<open>
  The invariant of the construction: an entry is kept from the old set, or new; no new
  definition is entered twice.
\<close>

definition fresh_entry :: "(nat \<Rightarrow> 'req origin option) \<Rightarrow> def_entry \<Rightarrow> bool" where
  "fresh_entry org0 e \<longleftrightarrow> (\<forall>d. de_Definition e = Some d \<longrightarrow> org0 d = None)"

definition set_inv ::
    "('sel, 'req) api_library \<Rightarrow> slice \<Rightarrow> apiexport \<Rightarrow> plan \<Rightarrow> api_set \<Rightarrow> (nat \<Rightarrow> 'req origin option)
      \<Rightarrow> (nat \<Rightarrow> 'req origin option) \<Rightarrow> api_set \<Rightarrow> bool" where
  "set_inv lib fs ex pl oldSet org0 org newSet \<longleftrightarrow>
     org0 \<subseteq>\<^sub>m org
     \<and> (\<forall>gvr e. newSet gvr = Some e \<longrightarrow> kept_entry ex oldSet gvr e
          \<or> fresh_entry org0 e \<and> (delegated_entry lib fs ex pl org gvr e \<or> fallback_ok org gvr e))
     \<and> (\<forall>g g' e e' d. newSet g = Some e \<longrightarrow> newSet g' = Some e' \<longrightarrow> de_Definition e = Some d \<longrightarrow>
          de_Definition e' = Some d \<longrightarrow> org0 d = None \<longrightarrow> g = g')"

definition old_known :: "(nat \<Rightarrow> 'req origin option) \<Rightarrow> api_set \<Rightarrow> bool" where
  "old_known org oldSet \<longleftrightarrow> (\<forall>gvr e d. oldSet gvr = Some e \<longrightarrow> de_Definition e = Some d \<longrightarrow> org d \<noteq> None)"

lemma set_inv_entry:
  "set_inv lib fs ex pl oldSet org0 org newSet \<Longrightarrow> newSet gvr = Some e \<Longrightarrow>
     kept_entry ex oldSet gvr e
     \<or> fresh_entry org0 e \<and> (delegated_entry lib fs ex pl org gvr e \<or> fallback_ok org gvr e)"
  by (simp add: set_inv_def)

lemma set_inv_once:
  "set_inv lib fs ex pl oldSet org0 org newSet \<Longrightarrow> newSet g = Some e \<Longrightarrow> newSet g' = Some e' \<Longrightarrow>
     de_Definition e = Some d \<Longrightarrow> de_Definition e' = Some d \<Longrightarrow> org0 d = None \<Longrightarrow> g = g'"
  unfolding set_inv_def by blast

text \<open>A definition of the old set that the new set does not have at the same place.\<close>

definition drops :: "api_set \<Rightarrow> api_set \<Rightarrow> group_version_resource \<Rightarrow> nat \<Rightarrow> bool" where
  "drops oldSet newSet gvr d \<longleftrightarrow>
     (\<exists>old. oldSet gvr = Some old \<and> de_Definition old = Some d
        \<and> (\<forall>new. newSet gvr = Some new \<longrightarrow> de_Definition new \<noteq> Some d))"

lemma entry_mono:
  assumes "org \<subseteq>\<^sub>m org'"
  shows "delegated_entry lib fs ex pl org gvr e \<Longrightarrow> delegated_entry lib fs ex pl org' gvr e"
    and "fallback_ok org gvr e \<Longrightarrow> fallback_ok org' gvr e"
proof -
  have sub: "org d = Some x \<Longrightarrow> org' d = Some x" for d x
    using assms unfolding map_le_def by (metis domI)
  show "delegated_entry lib fs ex pl org gvr e \<Longrightarrow> delegated_entry lib fs ex pl org' gvr e"
    unfolding delegated_entry_def using sub by blast
  show "fallback_ok org gvr e \<Longrightarrow> fallback_ok org' gvr e"
    unfolding fallback_ok_def using sub by blast
qed

lemma set_inv_mono:
  assumes "set_inv lib fs ex pl oldSet org0 org newSet" "org \<subseteq>\<^sub>m org'"
  shows "set_inv lib fs ex pl oldSet org0 org' newSet"
proof -
  have "org0 \<subseteq>\<^sub>m org'" using assms map_le_trans unfolding set_inv_def by blast
  with assms entry_mono [OF assms(2)] show ?thesis unfolding set_inv_def by blast
qed

lemma set_inv_known:
  assumes "set_inv lib fs ex pl oldSet org0 org newSet" "old_known org0 oldSet"
    "newSet g = Some e" "de_Definition e = Some d"
  shows "org d \<noteq> None"
proof -
  have le: "org0 \<subseteq>\<^sub>m org" using assms(1) unfolding set_inv_def by blast
  consider "kept_entry ex oldSet g e" | "delegated_entry lib fs ex pl org g e" | "fallback_ok org g e"
    using assms unfolding set_inv_def by blast
  then show ?thesis
  proof cases
    case 1
    then have "org0 d \<noteq> None" using assms unfolding old_known_def kept_entry_def by blast
    then show ?thesis using le unfolding map_le_def by (metis domIff)
  next
    case 2
    then show ?thesis using assms(4) unfolding delegated_entry_def by auto
  next
    case 3
    then show ?thesis using assms(4) unfolding fallback_ok_def by auto
  qed
qed

text \<open>Entering something new: its definition is unknown so far, or there is none.\<close>

lemma set_inv_enter:
  assumes inv: "set_inv lib fs ex pl oldSet org0 org newSet" and known: "old_known org0 oldSet"
    and le: "org \<subseteq>\<^sub>m org'" and fresh: "\<And>d. de_Definition e = Some d \<Longrightarrow> org d = None"
    and e: "delegated_entry lib fs ex pl org' gvr e \<or> fallback_ok org' gvr e"
  shows "set_inv lib fs ex pl oldSet org0 org' (newSet(gvr \<mapsto> e))"
proof -
  have inv': "set_inv lib fs ex pl oldSet org0 org' newSet" using inv le by (rule set_inv_mono)
  have le0: "org0 \<subseteq>\<^sub>m org" using inv unfolding set_inv_def by blast
  have f0: "fresh_entry org0 e"
    unfolding fresh_entry_def
  proof (intro allI impI)
    fix d
    assume "de_Definition e = Some d"
    then have "org d = None" by (rule fresh)
    then show "org0 d = None" using le0 unfolding map_le_def by (metis domIff)
  qed
  have unused: "de_Definition e' \<noteq> Some d" if "newSet g = Some e'" "de_Definition e = Some d" for g e' d
    using set_inv_known [OF inv known that(1)] fresh that(2) by blast
  show ?thesis
    unfolding set_inv_def
  proof (intro conjI allI impI)
    show "org0 \<subseteq>\<^sub>m org'" using inv' unfolding set_inv_def by blast
  next
    fix g e'
    assume "(newSet(gvr \<mapsto> e)) g = Some e'"
    then show "kept_entry ex oldSet g e' \<or> fresh_entry org0 e' \<and>
        (delegated_entry lib fs ex pl org' g e' \<or> fallback_ok org' g e')"
      using inv' e f0 unfolding set_inv_def by (cases "g = gvr") auto
  next
    fix g g' e1 e2 d
    assume "(newSet(gvr \<mapsto> e)) g = Some e1" "(newSet(gvr \<mapsto> e)) g' = Some e2"
      "de_Definition e1 = Some d" "de_Definition e2 = Some d" "org0 d = None"
    then show "g = g'"
      using inv' unused unfolding set_inv_def by (cases "g = gvr"; cases "g' = gvr") auto
  qed
qed

text \<open>Keeping an old entry.\<close>

lemma set_inv_keep:
  assumes inv: "set_inv lib fs ex pl oldSet org0 org newSet" and known: "old_known org0 oldSet"
    and old: "oldSet gvr = Some e" "de_IdentityHash e = ex_IdentityHash ex"
  shows "set_inv lib fs ex pl oldSet org0 org (newSet(gvr \<mapsto> e))"
  using inv known old unfolding set_inv_def kept_entry_def old_known_def
  by (auto split: if_splits)


section \<open>The invariant of the reconciler state\<close>

text \<open>The definition a domain key serves for a resource, if any.\<close>

definition served_def :: "'rt reconciler_state \<Rightarrow> string \<Rightarrow> group_version_resource \<Rightarrow> nat option" where
  "served_def st key gvr =
     (case rs_apiSets st key of None \<Rightarrow> None
      | Some apis \<Rightarrow> (case apis gvr of None \<Rightarrow> None | Some e \<Rightarrow> de_Definition e))"

text \<open>
  What a definition may serve for an object selector at a resource: one of the read-only
  fallbacks, or a schema of that resource with (at least) the requirements of the selector.
\<close>

definition filtered_origin ::
    "('sel, 'req) labels_api \<Rightarrow> label_selector \<Rightarrow> group_version_resource \<Rightarrow> 'req origin option \<Rightarrow> bool" where
  "filtered_origin L selector gvr org \<longleftrightarrow>
     org = Some Fallback \<and> gvr \<in> set (slice_gvr # binding_gvrs)
     \<or> (\<exists>s v i reqs extra. org = Some (Delegated s v i (reqs @ extra)) \<and> gvr = schema_gvr s v
          \<and> slice_requirements L selector = Inr reqs)"

definition world_inv ::
    "('rt \<Rightarrow> bool) \<Rightarrow> ('rt \<Rightarrow> nat \<Rightarrow> 'req origin option) \<Rightarrow> ('rt \<Rightarrow> nat set) \<Rightarrow> ('sel, 'req) labels_api
      \<Rightarrow> (string \<Rightarrow> label_selector) \<Rightarrow> 'rt reconciler_state \<Rightarrow> bool" where
  "world_inv ok origin down L sel st \<longleftrightarrow>
     ok (rs_Definitions st)
     \<and> (\<forall>key gvr d. served_def st key gvr = Some d \<longrightarrow>
          d \<notin> down (rs_Definitions st) \<and> filtered_origin L (sel key) gvr (origin (rs_Definitions st) d))
     \<and> (\<forall>key gvr key' gvr' d. served_def st key gvr = Some d \<longrightarrow> served_def st key' gvr' = Some d \<longrightarrow>
          key = key' \<and> gvr = gvr')"

lemma filtered_known: "filtered_origin L selector gvr (org d) \<Longrightarrow> org d \<noteq> None"
  by (auto simp: filtered_origin_def)

lemma served_go_map:
  "go_map (rs_apiSets st key) gvr = Some e \<Longrightarrow> served_def st key gvr = de_Definition e"
  by (auto simp: served_def_def go_map_def split: option.splits)

lemma served_defD:
  "served_def st key gvr = Some d \<Longrightarrow> \<exists>e. go_map (rs_apiSets st key) gvr = Some e \<and> de_Definition e = Some d"
  by (auto simp: served_def_def go_map_def split: option.splits)

lemma world_inv_frame:
  assumes inv: "world_inv ok origin down L sel st" and ok: "ok (rs_Definitions st')"
    and down: "down (rs_Definitions st') = down (rs_Definitions st)"
    and le: "origin (rs_Definitions st) \<subseteq>\<^sub>m origin (rs_Definitions st')"
    and served: "\<And>key gvr d. served_def st' key gvr = Some d \<Longrightarrow> served_def st key gvr = Some d"
  shows "world_inv ok origin down L sel st'"
proof -
  have "filtered_origin L (sel key) gvr (origin (rs_Definitions st') d)"
    if "served_def st key gvr = Some d" for key gvr d
  proof -
    have f: "filtered_origin L (sel key) gvr (origin (rs_Definitions st) d)"
      using inv that unfolding world_inv_def by blast
    then have "origin (rs_Definitions st') d = origin (rs_Definitions st) d"
      using filtered_known le unfolding map_le_def by (metis domIff)
    with f show ?thesis by simp
  qed
  with assms show ?thesis unfolding world_inv_def by metis
qed

section \<open>The reconciler over any definition store\<close>

locale reconciler_world =
  definition_store "rc_createAPIDefinition c" "rc_createAPIBindingAPIDefinition c"
    "rc_createFilteredAPIExportESAPIDefinition c" "rc_TearDown c" wf origin down
  for c :: "('rt, 'sel, 'req) reconciler"
    and wf :: "'rt \<Rightarrow> bool" and origin :: "'rt \<Rightarrow> nat \<Rightarrow> 'req origin option" and down :: "'rt \<Rightarrow> nat set"
begin

definition build_inv where
  "build_inv fs ex pl oldSet rt0 newSet rt \<longleftrightarrow>
     wf rt \<and> down rt = down rt0 \<and> old_known (origin rt0) oldSet
     \<and> set_inv (rc_lib c) fs ex pl oldSet (origin rt0) (origin rt) newSet"

lemma build_inv_mono:
  assumes "build_inv fs ex pl oldSet rt0 newSet rt" "wf rt'" "down rt' = down rt" "origin rt \<subseteq>\<^sub>m origin rt'"
  shows "build_inv fs ex pl oldSet rt0 newSet rt'"
  using assms set_inv_mono unfolding build_inv_def by metis

lemma build_inv_enter:
  assumes "build_inv fs ex pl oldSet rt0 newSet rt" "wf rt'" "down rt' = down rt"
    "origin rt \<subseteq>\<^sub>m origin rt'" "\<And>d. de_Definition e = Some d \<Longrightarrow> origin rt d = None"
    "delegated_entry (rc_lib c) fs ex pl (origin rt') gvr e \<or> fallback_ok (origin rt') gvr e"
  shows "build_inv fs ex pl oldSet rt0 (newSet(gvr \<mapsto> e)) rt'"
  using assms set_inv_enter [of "rc_lib c" fs ex pl oldSet "origin rt0" "origin rt" newSet "origin rt'" e gvr]
  unfolding build_inv_def by metis

lemma version_step_inv:
  assumes inv: "build_inv fs ex pl oldSet rt0 newSet rt" and s: "s \<in> ran (pl_Schemas pl)"
    and run: "version_step c fs ex pl oldSet s v newSet rt = (res, rt')"
  shows "build_inv fs ex pl oldSet rt0 (case res of Inl _ \<Rightarrow> newSet | Inr ns \<Rightarrow> ns) rt'"
proof -
  have wf: "wf rt" using inv by (simp add: build_inv_def)
  let ?gvr = "schema_gvr s (v_Name v)"
  consider "\<not> v_Served v" | "v_Served v" "keeps_old ex s (oldSet ?gvr)"
    | (err) err where "v_Served v" "\<not> keeps_old ex s (oldSet ?gvr)" "res = Inl err" "rt' = rt"
    | (create) reqs extra where "v_Served v" "\<not> keeps_old ex s (oldSet ?gvr)"
        "slice_requirements (al_Labels (rc_lib c)) (ObjectSelector (Spec fs)) = Inr reqs"
        "claim_requirement (rc_lib c) ex (pl_Claims pl) (GroupResource ?gvr) = Inr extra"
    by (cases "v_Served v"; cases "keeps_old ex s (oldSet ?gvr)";
        cases "slice_requirements (al_Labels (rc_lib c)) (ObjectSelector (Spec fs))";
        cases "claim_requirement (rc_lib c) ex (pl_Claims pl) (GroupResource ?gvr)")
      (use run in \<open>auto simp: version_step_def Let_def\<close>)
  then show ?thesis
  proof cases
    case 1
    then show ?thesis using inv run by (auto simp: version_step_def)
  next
    case 2
    then obtain e where e: "oldSet ?gvr = Some e" "de_IdentityHash e = ex_IdentityHash ex"
      by (auto simp: keeps_old_def split: option.splits)
    have "res = Inr (newSet(?gvr \<mapsto> e)) \<and> rt' = rt"
      using run 2 e by (simp add: version_step_def Let_def)
    then show ?thesis
      using inv e unfolding build_inv_def by (auto intro: set_inv_keep)
  next
    case err
    then show ?thesis using inv by simp
  next
    case create
    let ?i = "identity_of pl (GroupResource ?gvr)"
    obtain cres where cr: "rc_createAPIDefinition c s (v_Name v) ?i (reqs @ extra) rt = (cres, rt')"
      and res: "res = Inr (case cres of Inl _ \<Rightarrow> newSet
                 | Inr d \<Rightarrow> newSet(?gvr \<mapsto> \<lparr>de_Definition = Some d, de_UID = sc_UID s,
                                         de_IdentityHash = ex_IdentityHash ex\<rparr>))"
      using run create
      by (auto simp: version_step_def Let_def identity_of_def split: prod.splits sum.splits)
    show ?thesis
    proof (cases cres)
      case (Inl err)
      with create_err [OF wf] cr res inv show ?thesis by (auto intro: build_inv_mono)
    next
      case (Inr d)
      note ok = create_ok [OF wf cr [unfolded Inr]]
      let ?e = "\<lparr>de_Definition = Some d, de_UID = sc_UID s, de_IdentityHash = ex_IdentityHash ex\<rparr>"
      have "delegated_entry (rc_lib c) fs ex pl (origin rt') ?gvr ?e"
        unfolding delegated_entry_def using ok create s by (auto simp: schema_gvr_def)
      then have "build_inv fs ex pl oldSet rt0 (newSet(?gvr \<mapsto> ?e)) rt'"
        using ok by (intro build_inv_enter [OF inv]) (auto simp: map_le_def)
      then show ?thesis using res Inr by simp
    qed
  qed
qed

lemma versions_loop_inv:
  "build_inv fs ex pl oldSet rt0 newSet rt \<Longrightarrow> s \<in> ran (pl_Schemas pl) \<Longrightarrow>
     versions_loop c fs ex pl oldSet s vs newSet rt = (res, rt') \<Longrightarrow>
     \<exists>ns. (\<forall>x. res = Inr x \<longrightarrow> ns = x) \<and> build_inv fs ex pl oldSet rt0 ns rt'"
proof (induction vs arbitrary: newSet rt)
  case (Cons v vs)
  obtain r1 rt1 where step: "version_step c fs ex pl oldSet s v newSet rt = (r1, rt1)" by force
  note inv1 = version_step_inv [OF Cons.prems(1,2) step]
  show ?case
  proof (cases r1)
    case (Inl err)
    then show ?thesis using Cons.prems(3) step inv1 by auto
  next
    case (Inr ns)
    then show ?thesis using Cons.IH [of ns rt1] Cons.prems step inv1 by simp
  qed
qed auto

lemma build_loop_inv:
  "build_inv fs ex pl oldSet rt0 newSet rt \<Longrightarrow>
     build_loop c fs ex pl oldSet grs newSet rt = (res, rt') \<Longrightarrow>
     \<exists>ns. (\<forall>x. res = Inr x \<longrightarrow> ns = x) \<and> build_inv fs ex pl oldSet rt0 ns rt'"
proof (induction grs arbitrary: newSet rt)
  case (Cons gr grs)
  show ?case
  proof (cases "pl_Schemas pl gr")
    case None
    then show ?thesis using Cons by simp
  next
    case (Some s)
    then have ran: "s \<in> ran (pl_Schemas pl)" by (auto simp: ran_def)
    obtain r1 rt1 where loop: "versions_loop c fs ex pl oldSet s (sc_Versions s) newSet rt = (r1, rt1)"
      by force
    from versions_loop_inv [OF Cons.prems(1) ran loop] obtain ns where
      ns: "\<forall>x. r1 = Inr x \<longrightarrow> ns = x" "build_inv fs ex pl oldSet rt0 ns rt1" by blast
    show ?thesis
      using Cons.IH [OF ns(2)] Cons.prems(2) Some loop ns by (cases r1) auto
  qed
qed auto

lemma add_fallbacks_inv:
  assumes create: "\<And>v cl n rt d rt'. wf rt \<Longrightarrow> create v cl n rt = (Inr d, rt') \<Longrightarrow>
      wf rt' \<and> origin rt d = None \<and> origin rt' = (origin rt)(d \<mapsto> Fallback) \<and> down rt' = down rt"
    and fails: "\<And>v cl n rt e rt'. wf rt \<Longrightarrow> create v cl n rt = (Inl e, rt') \<Longrightarrow>
      wf rt' \<and> origin rt' = origin rt \<and> down rt' = down rt"
  shows "build_inv fs ex pl oldSet rt0 newSet rt \<Longrightarrow> set gvrs \<subseteq> set (slice_gvr # binding_gvrs) \<Longrightarrow>
     add_fallbacks create ex gvrs newSet rt = (newSet', rt') \<Longrightarrow> build_inv fs ex pl oldSet rt0 newSet' rt'"
proof (induction gvrs arbitrary: newSet rt)
  case (Cons gvr gvrs)
  have wf: "wf rt" using Cons.prems(1) by (simp add: build_inv_def)
  obtain res rt1 where cr: "create (gvr_Version gvr) (ex_Cluster ex) (ex_Name ex) rt = (res, rt1)" by force
  have "build_inv fs ex pl oldSet rt0 (newSet(gvr \<mapsto> fallback_entry res)) rt1"
  proof (cases res)
    case (Inl err)
    with fails [OF wf] cr have "wf rt1 \<and> origin rt1 = origin rt \<and> down rt1 = down rt" by blast
    with Inl Cons.prems(1,2) show ?thesis
      by (intro build_inv_enter) (auto simp: fallback_entry_def fallback_ok_def)
  next
    case (Inr d)
    with create [OF wf] cr have "wf rt1 \<and> origin rt d = None \<and> origin rt1 = (origin rt)(d \<mapsto> Fallback)
        \<and> down rt1 = down rt" by blast
    with Inr Cons.prems(1,2) show ?thesis
      by (intro build_inv_enter) (auto simp: fallback_entry_def fallback_ok_def map_le_def)
  qed
  then show ?case using Cons.IH Cons.prems cr by auto
qed simp

lemma add_bindings_inv:
  assumes "build_inv fs ex pl oldSet rt0 newSet rt"
    and "add_fallbacks (rc_createAPIBindingAPIDefinition c) ex binding_gvrs newSet rt = (newSet', rt')"
  shows "build_inv fs ex pl oldSet rt0 newSet' rt'"
  by (rule add_fallbacks_inv [OF _ _ assms(1) _ assms(2)]) (erule (1) createB_ok createB_err | auto)+

lemma add_slices_inv:
  assumes "build_inv fs ex pl oldSet rt0 newSet rt"
    and "add_fallbacks (rc_createFilteredAPIExportESAPIDefinition c) ex [slice_gvr] newSet rt = (newSet', rt')"
  shows "build_inv fs ex pl oldSet rt0 newSet' rt'"
  by (rule add_fallbacks_inv [OF _ _ assms(1) _ assms(2)]) (erule (1) createS_ok createS_err | auto)+

lemma build_set_inv:
  assumes "wf rt" "old_known (origin rt) oldSet"
    and run: "build_set c fs ex pl oldSet rt = (res, rt')"
  shows "\<exists>ns. (\<forall>x. res = Inr x \<longrightarrow> ns = x) \<and> build_inv fs ex pl oldSet rt ns rt'"
proof -
  have "build_inv fs ex pl oldSet rt Map.empty rt"
    using assms by (simp add: build_inv_def set_inv_def)
  obtain r1 rt1 where loop: "build_loop c fs ex pl oldSet
      (al_SchemaRange (rc_lib c) 1 (pl_Schemas pl)) Map.empty rt = (r1, rt1)" by force
  from build_loop_inv [OF \<open>build_inv fs ex pl oldSet rt Map.empty rt\<close> loop] obtain set1 where
    s1: "\<forall>x. r1 = Inr x \<longrightarrow> set1 = x" "build_inv fs ex pl oldSet rt set1 rt1" by blast
  show ?thesis
  proof (cases r1)
    case (Inl err)
    then show ?thesis using run loop s1 by (auto simp: build_set_def)
  next
    case (Inr x)
    obtain set2 rt2 where f2: "(if pl_claimsAPIBindings pl then (set1, rt1)
        else add_fallbacks (rc_createAPIBindingAPIDefinition c) ex binding_gvrs set1 rt1) = (set2, rt2)"
      by force
    have s2: "build_inv fs ex pl oldSet rt set2 rt2"
      using f2 s1(2) add_bindings_inv
      by (auto split: if_splits)
    obtain set3 rt3 where f3: "(if pl_claimFilteredAPIExportES pl then (set2, rt2)
        else add_fallbacks (rc_createFilteredAPIExportESAPIDefinition c) ex [slice_gvr] set2 rt2) = (set3, rt3)"
      by force
    have "build_inv fs ex pl oldSet rt set3 rt3"
      using f3 s2 add_slices_inv
      by (auto split: if_splits)
    moreover have "res = Inr set3 \<and> rt' = rt3"
      using run loop Inr s1(1) f2 f3 by (auto simp: build_set_def split: if_splits)
    ultimately show ?thesis by auto
  qed
qed


text \<open>What \<open>cleanup\<close> tears down.\<close>

lemma cleanup_down:
  "wf rt \<Longrightarrow> old_known (origin rt) oldSet \<Longrightarrow> cleanup c oldSet newSet gvrs rt = (ok, rt') \<Longrightarrow>
     wf rt' \<and> origin rt' = origin rt \<and> down rt \<subseteq> down rt'
     \<and> (\<forall>d \<in> down rt'. d \<in> down rt \<or> (\<exists>gvr. drops oldSet newSet gvr d))
     \<and> (ok \<longrightarrow> (\<forall>gvr \<in> set gvrs. \<forall>d. drops oldSet newSet gvr d \<longrightarrow> d \<in> down rt'))"
proof (induction gvrs arbitrary: rt)
  case (Cons gvr gvrs)
  have skip: ?case if "cleanup c oldSet newSet gvrs rt = (ok, rt')" "\<And>d. \<not> drops oldSet newSet gvr d"
    using Cons.IH [OF Cons.prems(1,2) that(1)] that(2) by simp
  show ?case
  proof (cases "oldSet gvr")
    case None
    then show ?thesis using Cons.prems(3) by (intro skip) (auto simp: drops_def)
  next
    case (Some old)
    show ?thesis
    proof (cases "case newSet gvr of None \<Rightarrow> True | Some new \<Rightarrow> de_Definition old \<noteq> de_Definition new")
      case False
      then show ?thesis
        using Cons.prems(3) Some by (intro skip) (auto simp: drops_def split: option.splits)
    next
      case True
      show ?thesis
      proof (cases "de_Definition old")
        case None
        then show ?thesis using Cons.prems Some True by simp
      next
        case (Some d)
        note old = \<open>oldSet gvr = Some old\<close>
        have known: "origin rt d \<noteq> None" using Cons.prems(2) old Some unfolding old_known_def by blast
        let ?rt = "rc_TearDown c d rt"
        note tear = tear_ok [OF Cons.prems(1) known]
        have run: "cleanup c oldSet newSet gvrs ?rt = (ok, rt')"
          using Cons.prems(3) old True Some by simp
        have "old_known (origin ?rt) oldSet" using tear Cons.prems(2) by simp
        note ih = Cons.IH [OF conjunct1 [OF tear] this run]
        have d: "drops oldSet newSet gvr d'  \<longleftrightarrow> d' = d" for d'
          using True Some old by (auto simp: drops_def)
        show ?thesis
        proof (intro conjI ballI allI impI)
          show "wf rt'" "origin rt' = origin rt" "down rt \<subseteq> down rt'" using ih tear by auto
          show "x \<in> down rt \<or> (\<exists>gvr. drops oldSet newSet gvr x)" if "x \<in> down rt'" for x
            using ih tear d that by blast
          show "x \<in> down rt'" if "ok" "g \<in> set (gvr # gvrs)" "drops oldSet newSet g x" for g x
            using ih tear d that by auto
        qed
      qed
    qed
  qed
qed auto


lemma world_inv_known:
  "world_inv wf origin down L sel st \<Longrightarrow> old_known (origin (rs_Definitions st)) (go_map (rs_apiSets st key))"
  unfolding old_known_def world_inv_def using served_go_map filtered_known by metis

text \<open>Committing a new set.\<close>

lemma commit_inv:
  assumes inv: "world_inv wf origin down (al_Labels (rc_lib c)) (\<lambda>k. sel k) st"
    and sel: "ObjectSelector (Spec fs) = sel key"
    and build: "build_inv fs ex pl (go_map (rs_apiSets st key)) (rs_Definitions st) newSet rt"
    and clean: "cleanup c (go_map (rs_apiSets st key)) newSet gvrs rt = (ok, rt')"
    and st': "rs_Definitions st' = rt'" "rs_apiSets st' = (rs_apiSets st)(key \<mapsto> newSet)"
  shows "world_inv wf origin down (al_Labels (rc_lib c)) sel st'"
proof -
  let ?old = "go_map (rs_apiSets st key)" and ?rt = "rs_Definitions st" and ?L = "al_Labels (rc_lib c)"
  have set: "set_inv (rc_lib c) fs ex pl ?old (origin ?rt) (origin rt) newSet"
    and rt: "wf rt" "down rt = down ?rt"
    using build unfolding build_inv_def by auto
  have le: "origin ?rt \<subseteq>\<^sub>m origin rt" using set unfolding set_inv_def by blast
  have old_known: "old_known (origin ?rt) ?old" using inv by (rule world_inv_known)
  then have "old_known (origin rt) ?old"
    using le unfolding old_known_def map_le_def by (metis domIff)
  from cleanup_down [OF rt(1) this clean]
  have cl: "wf rt'" "origin rt' = origin rt"
    and drop: "\<forall>d \<in> down rt'. d \<in> down rt \<or> (\<exists>gvr. drops ?old newSet gvr d)"
    by simp_all
  have known: "origin ?rt d \<noteq> None" if "served_def st k g = Some d" for k g d
    using inv that filtered_known unfolding world_inv_def by metis
  have same: "origin rt' d = origin ?rt d" if "origin ?rt d \<noteq> None" for d
    using le that cl(2) unfolding map_le_def by (metis domIff)
  have up: "d \<notin> down ?rt" and filt: "filtered_origin ?L (sel k) g (origin ?rt d)"
    if "served_def st k g = Some d" for k g d
    using inv that unfolding world_inv_def by blast+
  have inj: "k = k' \<and> g = g'" if "served_def st k g = Some d" "served_def st k' g' = Some d" for k g k' g' d
    using inv that unfolding world_inv_def by blast
  have dropped: "\<exists>g. served_def st key g = Some d \<and> served_def st' key g \<noteq> Some d"
    if down: "d \<in> down rt'" "d \<notin> down ?rt" for d
  proof -
    obtain g where "drops ?old newSet g d" using bspec [OF drop down(1)] down(2) rt(2) by auto
    then obtain o1 where "?old g = Some o1" "de_Definition o1 = Some d"
      and new: "\<forall>new. newSet g = Some new \<longrightarrow> de_Definition new \<noteq> Some d" unfolding drops_def by blast
    then have "served_def st key g = Some d" by (simp add: served_go_map)
    moreover have "served_def st' key g \<noteq> Some d"
      using new st'(2) by (auto simp: served_def_def split: option.splits)
    ultimately show ?thesis by blast
  qed
  have cases: "served_def st k g = Some d
      \<or> k = key \<and> origin ?rt d = None \<and> filtered_origin ?L (sel k) g (origin rt' d)
        \<and> (\<exists>e. newSet g = Some e \<and> de_Definition e = Some d)"
    if served: "served_def st' k g = Some d" for k g d
  proof (cases "k = key")
    case False
    then show ?thesis using served st'(2) by (simp add: served_def_def)
  next
    case True
    then obtain e where e: "newSet g = Some e" "de_Definition e = Some d"
      using served st'(2) by (auto simp: served_def_def split: option.splits)
    have fresh: "fresh_entry (origin ?rt) e \<Longrightarrow> origin ?rt d = None"
      using e(2) by (simp add: fresh_entry_def)
    consider "kept_entry ex ?old g e"
      | "origin ?rt d = None" "delegated_entry (rc_lib c) fs ex pl (origin rt) g e \<or> fallback_ok (origin rt) g e"
      using set_inv_entry [OF set e(1)] fresh by (elim disjE conjE) simp_all
    then show ?thesis
    proof cases
      case 1
      then have "?old g = Some e" by (simp add: kept_entry_def)
      from served_go_map [OF this] show ?thesis using e(2) True by simp
    next
      case 2
      have "filtered_origin ?L (sel k) g (origin rt d)"
        using 2(2)
      proof
        assume "delegated_entry (rc_lib c) fs ex pl (origin rt) g e"
        then show ?thesis using e(2) sel True unfolding delegated_entry_def filtered_origin_def by fastforce
      next
        assume "fallback_ok (origin rt) g e"
        then show ?thesis using e(2) unfolding fallback_ok_def filtered_origin_def by auto
      qed
      then show ?thesis using 2(1) True e cl by simp
    qed
  qed
  show ?thesis
    unfolding world_inv_def st'(1)
  proof (intro conjI allI impI)
    show "wf rt'" by (rule cl(1))
  next
    fix k g d
    assume s: "served_def st' k g = Some d"
    show "d \<notin> down rt'"
    proof
      assume d: "d \<in> down rt'"
      have "d \<notin> down ?rt"
        using cases [OF s] up down_known [of ?rt] inv unfolding world_inv_def by blast
      with dropped d obtain g' where g': "served_def st key g' = Some d" "served_def st' key g' \<noteq> Some d" by blast
      with cases [OF s] known have "served_def st k g = Some d" by blast
      with g' inj s show False by metis
    qed
    show "filtered_origin ?L (sel k) g (origin rt' d)"
      using cases [OF s] filt known same by metis
  next
    fix k g k' g' d
    assume s: "served_def st' k g = Some d" "served_def st' k' g' = Some d"
    have "k = k' \<and> g = g'"
      using cases [OF s(1)] cases [OF s(2)]
    proof (elim disjE conjE exE)
      fix e e'
      assume "k = key" "k' = key" "newSet g = Some e" "newSet g' = Some e'"
        "de_Definition e = Some d" "de_Definition e' = Some d" "origin ?rt d = None"
      then show ?thesis using set_inv_once [OF set] by blast
    qed (use inj known in blast)+
    then show "k = k'" "g = g'" by simp_all
  qed
qed


lemma remove_domain_inv:
  assumes "world_inv wf origin down L sel st" "remove_domain key st = (res, st')"
  shows "world_inv wf origin down L sel st'"
proof (rule world_inv_frame [OF assms(1)])
  have "rs_Definitions st' = rs_Definitions st"
    using assms(2) by (auto simp: remove_domain_def split: if_splits)
  then show "wf (rs_Definitions st')" "down (rs_Definitions st') = down (rs_Definitions st)"
    "origin (rs_Definitions st) \<subseteq>\<^sub>m origin (rs_Definitions st')"
    using assms(1) by (auto simp: world_inv_def map_le_def)
  show "served_def st k g = Some d" if "served_def st' k g = Some d" for k g d
    using assms(2) that by (auto simp: remove_domain_def served_def_def split: if_splits)
qed

lemma update_domain_inv:
  assumes inv: "world_inv wf origin down (al_Labels (rc_lib c)) sel st"
    and run: "update_domain c fs ex key st = (Done res, st')"
    and sel: "ObjectSelector (Spec fs) = sel key"
  shows "world_inv wf origin down (al_Labels (rc_lib c)) sel st'"
proof -
  let ?old = "go_map (rs_apiSets st key)" and ?rt = "rs_Definitions st"
  have wf: "wf ?rt" using inv by (simp add: world_inv_def)
  obtain r1 an where plan: "make_plan c ex (rs_Annotations st) = (r1, an)" by force
  show ?thesis
  proof (cases r1)
    case (Inl err)
    then have "st' = st\<lparr>rs_Annotations := an\<rparr>" using run plan by (simp add: update_domain_def)
    then show ?thesis using inv by (simp add: world_inv_def served_def_def)
  next
    case (Inr pl)
    obtain r2 rt where build: "build_set c fs ex pl ?old ?rt = (r2, rt)" by force
    from build_set_inv [OF wf world_inv_known [OF inv] build] obtain ns where
      ns: "\<forall>x. r2 = Inr x \<longrightarrow> ns = x" "build_inv fs ex pl ?old ?rt ns rt" by blast
    show ?thesis
    proof (cases r2)
      case (Inl err)
      then have st': "st' = st\<lparr>rs_Annotations := an, rs_Definitions := rt\<rparr>"
        using run plan Inr build by (simp add: update_domain_def)
      show ?thesis
        by (rule world_inv_frame [OF inv])
          (use ns(2) in \<open>auto simp: st' build_inv_def set_inv_def served_def_def\<close>)
    next
      case (Inr newSet)
      note r2 = this
      obtain ok rt' where clean: "cleanup c ?old newSet (al_DefRange (rc_lib c) 0 ?old) rt = (ok, rt')"
        by force
      have ok: "ok" and st': "st' = st\<lparr>rs_apiSets := (rs_apiSets st)(key \<mapsto> newSet),
          rs_Annotations := an, rs_Definitions := rt'\<rparr>"
        using run plan \<open>r1 = Inr pl\<close> build r2 clean by (auto simp: update_domain_def split: bool.splits)
      have "build_inv fs ex pl ?old ?rt newSet rt" using ns r2 by simp
      then show ?thesis
        by (rule commit_inv [OF inv sel _ clean]) (simp_all add: st')
    qed
  qed
qed

lemma reconcile_inv:
  assumes inv: "world_inv wf origin down (al_Labels (rc_lib c)) sel st"
    and run: "reconcile c fs key st = (Done res, st')"
    and sel: "\<And>s. fs = Some s \<Longrightarrow> ObjectSelector (Spec s) = sel key"
  shows "world_inv wf origin down (al_Labels (rc_lib c)) sel st'"
proof -
  consider "st' = st" | "\<exists>res. remove_domain key st = (res, st')"
    | s e where "fs = Some s" "update_domain c s e key st = (Done res, st')"
    using run unfolding reconcile_def by (auto split: sum.splits option.splits if_splits)
  then show ?thesis
  proof cases
    case 1
    then show ?thesis using inv by simp
  next
    case 2
    then show ?thesis using remove_domain_inv [OF inv] by blast
  next
    case 3
    then show ?thesis using update_domain_inv [OF inv] sel by blast
  qed
qed

end

section \<open>The reconciler of the virtual workspace\<close>

interpretation vw: reconciler_world
  "NewAPIReconciler be lib v" defs_wf serves torn
  unfolding reconciler_world_def NewAPIReconciler_simps by (rule vw_store.definition_store_axioms)

end
