(* ===== verification/Api_Example.thy ===== *)
theory Api_Example
  imports Api_Sets
begin

text \<open>
  One call of \<open>reconcile\<close> in the example world, evaluated: the export's own resource, its
  two claimed resources and the three fallback APIs are served.
\<close>

lemma w_schema_order:
  "sorted_range (Suc 0) (pl_Schemas w_plan) = [claim_gr w_configmaps, schema_gr w_widgets, claim_gr w_gadgets]"
  by (simp add: sorted_range_def w_plan_def claim_gr_def schema_gr_def w_configmaps_def w_widgets_def
      w_gadgets_def less_eq_group_resource_ext_def less_char_def insort_key.simps)

abbreviation w_entry :: "nat \<Rightarrow> string \<Rightarrow> string \<Rightarrow> def_entry" where
  "w_entry d uid i \<equiv> \<lparr>de_Definition = Some d, de_UID = uid, de_IdentityHash = i\<rparr>"

definition w_set :: api_set where [world]:
  "w_set = [schema_gvr w_cm_schema ''v1'' \<mapsto> w_entry 0 '''' ''id'',
     schema_gvr w_widgets ''v1'' \<mapsto> w_entry 1 ''u1'' ''id'',
     schema_gvr w_gadgets_schema ''v1'' \<mapsto> w_entry 2 ''u2'' ''id'']"

definition w_built :: "(string \<times> string list) defs_state" where
  "w_built = snd (build_loop w_rc w_slice w_export w_plan Map.empty
      [claim_gr w_configmaps, schema_gr w_widgets, claim_gr w_gadgets] Map.empty defs_init)"

lemma w_requirements:
  "slice_requirements (al_Labels w_lib) w_selector = Inr [(''env'', [''prod''])]"
  by (simp add: slice_requirements_def w_lib_def ref_labels_def w_selector_def w_labels_def)

lemmas w_eval = w_plan_def claim_gr_def schema_gr_def schema_gvr_def w_configmaps_def w_widgets_def
  w_cm_schema_def w_gadgets_def w_gadgets_schema_def version_step_def keeps_old_def Let_def w_rc_def
  w_slice_def w_lib_def claim_requirement_def GroupResource_def ref_labels_def createAPIDefinition_def
  serve_def w_be_def defs_init_def apis_GroupName_def w_selector_def w_labels_def
  slice_requirements_def w_export_def

lemma w_build_loop_set:
  "fst (build_loop w_rc w_slice w_export w_plan Map.empty
      [claim_gr w_configmaps, schema_gr w_widgets, claim_gr w_gadgets] Map.empty defs_init) = Inr w_set"
  by (simp add: w_eval w_set_def eval_nat_numeral)

lemma w_build_loop:
  "build_loop w_rc w_slice w_export w_plan Map.empty
      [claim_gr w_configmaps, schema_gr w_widgets, claim_gr w_gadgets] Map.empty defs_init = (Inr w_set, w_built)"
  unfolding w_built_def using w_build_loop_set by (simp add: prod_eq_iff)

lemma w_built_next: "ds_Next w_built = Suc (Suc (Suc 0))"
  by (simp add: w_built_def w_eval)

definition w_full_set :: api_set where [world]:
  "w_full_set = w_set(
     \<lparr>gvr_Group = ''apis.kcp.io'', gvr_Version = ''v1alpha1'', gvr_Resource = ''apibindings''\<rparr> \<mapsto> w_entry 3 '''' '''',
     \<lparr>gvr_Group = ''apis.kcp.io'', gvr_Version = ''v1alpha2'', gvr_Resource = ''apibindings''\<rparr> \<mapsto> w_entry 4 '''' '''',
     slice_gvr \<mapsto> w_entry 5 '''' '''')"

lemma w_rc_simps [simp]:
  "rc_view w_rc = w_view" "rc_lib w_rc = w_lib"
  "rc_createAPIBindingAPIDefinition w_rc = createAPIBindingAPIDefinition w_be"
  "rc_createFilteredAPIExportESAPIDefinition w_rc = createFilteredAPIExportESAPIDefinition w_be"
  "al_SchemaRange w_lib = sorted_range" "al_DefRange w_lib = sorted_range"
  by (simp_all add: w_rc_def w_lib_def)

definition w_bump where
  "w_bump r v c n st = snd (createReadOnlyDefinition w_be r v c n st)"

lemma w_fallback:
  "v \<noteq> ''bad'' \<Longrightarrow> createReadOnlyDefinition w_be r v c n st = (Inr (ds_Next st), w_bump r v c n st)"
  "v \<noteq> ''bad'' \<Longrightarrow> ds_Next (w_bump r v c n st) = Suc (ds_Next st)"
  unfolding w_bump_def
  by (simp_all add: createReadOnlyDefinition_def provideAPIExportFilteredRestStorage_def w_be_def serve_def)

definition w_rt :: "(string \<times> string list) defs_state" where
  "w_rt = snd (build_set w_rc w_slice w_export w_plan Map.empty defs_init)"

lemma w_build_set:
  "build_set w_rc w_slice w_export w_plan Map.empty defs_init = (Inr w_full_set, w_rt)"
proof -
  have "\<not> pl_claimsAPIBindings w_plan" "\<not> pl_claimFilteredAPIExportES w_plan"
    by (simp_all add: w_plan_def)
  then have "fst (build_set w_rc w_slice w_export w_plan Map.empty defs_init) = Inr w_full_set"
    by (simp add: build_set_def w_schema_order w_build_loop binding_gvrs_def w_full_set_def
        createAPIBindingAPIDefinition_def createFilteredAPIExportESAPIDefinition_def w_fallback
        w_built_next fallback_entry_def eval_nat_numeral slice_gvr_def GroupVersion_def apis_GroupName_def
        del: build_loop.simps)
  then show ?thesis unfolding w_rt_def by (simp add: prod_eq_iff)
qed

definition w_st :: "(string \<times> string list) defs_state reconciler_state" where
  "w_st = \<lparr>rs_apiSets = [w_key \<mapsto> w_full_set], rs_Annotations = w_annot', rs_Definitions = w_rt\<rparr>"

definition w_st0 :: "(string \<times> string list) defs_state reconciler_state" where
  "w_st0 = \<lparr>rs_apiSets = Map.empty, rs_Annotations = w_annot, rs_Definitions = defs_init\<rparr>"

lemma w_reconcile: "reconcile w_rc (Some w_slice) w_key w_st0 = (Done None, w_st)"
proof -
  have "lookup_export w_rc (Some w_slice) = Inr (Some w_export)"
    by (simp add: lookup_export_def w_rc_def w_view_def w_exports_def w_slice_def)
  moreover have "ex_IdentityHash w_export = ''id''" by (simp add: w_export_def)
  moreover have "update_domain w_rc w_slice w_export w_key w_st0 = (Done None, w_st)"
    by (simp add: update_domain_def w_st0_def w_make_plan w_build_set sorted_range_def w_st_def)
  ultimately show ?thesis by (simp add: reconcile_def)
qed

lemma w_served: "served_def w_st w_key (schema_gvr w_widgets ''v1'') = Some 1"
  by (simp add: served_def_def w_st_def w_full_set_def w_set_def schema_gvr_def w_widgets_def
      w_cm_schema_def w_gadgets_schema_def slice_gvr_def GroupName_def)

end
