(* ===== verification/Api_Served.thy ===== *)
theory Api_Served
  imports Api_Example
begin

text \<open>
  What the API reconciler guarantees about the definitions it serves, over every sequence
  of \<open>reconcile\<close> calls: the informers may show anything at each call, the functions and
  libraries stay the same, and the object selector of an endpoint slice is the one it was
  created with (\<open>ValidateEndpointSliceUpdate\<close> refuses to change it).
\<close>

inductive reconcile_step ::
    "'req builder_env \<Rightarrow> ('sel, 'req) api_library \<Rightarrow> (string \<Rightarrow> label_selector)
      \<Rightarrow> 'req defs_state reconciler_state \<Rightarrow> 'req defs_state reconciler_state \<Rightarrow> bool"
  for be lib sel where
  reconcile_step:
    "reconcile (NewAPIReconciler be lib v) fs key st = (Done res, st') \<Longrightarrow>
     (\<And>s. fs = Some s \<Longrightarrow> ObjectSelector (Spec s) = sel key) \<Longrightarrow>
     reconcile_step be lib sel st st'"

inductive_cases reconcile_stepE: "reconcile_step be lib sel st st'"

definition reconciler_init :: "annot_store \<Rightarrow> 'req defs_state reconciler_state" where
  "reconciler_init an = \<lparr>rs_apiSets = Map.empty, rs_Annotations = an, rs_Definitions = defs_init\<rparr>"

abbreviation vw_inv ::
    "('sel, 'req) api_library \<Rightarrow> (string \<Rightarrow> label_selector) \<Rightarrow> 'req defs_state reconciler_state \<Rightarrow> bool"
  where "vw_inv lib sel st \<equiv> world_inv defs_wf serves torn (al_Labels lib) sel st"

lemma vw_inv_init: "vw_inv lib sel (reconciler_init an)"
  by (simp add: world_inv_def reconciler_init_def served_def_def)

lemma vw_inv_step: "reconcile_step be lib sel st st' \<Longrightarrow> vw_inv lib sel st \<Longrightarrow> vw_inv lib sel st'"
  by (elim reconcile_stepE) (use vw.reconcile_inv in fastforce)

lemma vw_inv_reachable:
  "(reconcile_step be lib sel)\<^sup>*\<^sup>* (reconciler_init an) st \<Longrightarrow> vw_inv lib sel st"
  by (induction rule: rtranclp_induct) (auto intro: vw_inv_init dest: vw_inv_step)

lemma filtered_provider:
  assumes "filtered_origin L selector gvr (serves st d)"
  obtains (fallback) a r where "ds_Defs st d = Some a" "ad_Provider a = ReadOnly r"
        "gvr \<in> set (slice_gvr # binding_gvrs)"
    | (delegating) a ctx i w reqs where "ds_Defs st d = Some a" "ad_Provider a = Delegating ctx i w"
        "gvr = schema_gvr (the (ad_Schema a)) (ad_Version a)"
        "slice_requirements L selector = Inr reqs" "prefix reqs (case w of None \<Rightarrow> [] | Some r \<Rightarrow> r)"
proof -
  obtain a where a: "ds_Defs st d = Some a" "filtered_origin L selector gvr (Some (origin_of a))"
    using assms by (cases "ds_Defs st d") (auto simp: serves_def filtered_origin_def)
  show thesis
  proof (cases "ad_Provider a")
    case (Delegating ctx i w)
    then have "\<exists>reqs extra. slice_requirements L selector = Inr reqs
        \<and> (case w of None \<Rightarrow> [] | Some r \<Rightarrow> r) = reqs @ extra
        \<and> gvr = schema_gvr (the (ad_Schema a)) (ad_Version a)"
      using a(2) by (auto simp: filtered_origin_def origin_of_def)
    then show thesis using delegating [OF a(1) Delegating] by (auto simp: prefix_def)
  next
    case (ReadOnly r)
    then have "gvr \<in> set (slice_gvr # binding_gvrs)"
      using a(2) by (auto simp: filtered_origin_def origin_of_def)
    then show thesis using fallback [OF a(1) ReadOnly] by blast
  qed
qed

lemma w_reachable:
  "(reconcile_step w_be w_lib (\<lambda>_. w_selector))\<^sup>*\<^sup>* (reconciler_init w_annot) w_st"
proof (rule r_into_rtranclp)
  have "reconcile (NewAPIReconciler w_be w_lib w_view) (Some w_slice) w_key (reconciler_init w_annot)
      = (Done None, w_st)"
    using w_reconcile by (simp add: w_rc_def w_st0_def reconciler_init_def)
  then show "reconcile_step w_be w_lib (\<lambda>_. w_selector) (reconciler_init w_annot) w_st"
    by (rule reconcile_step.intros) (simp add: w_slice_def)
qed








section \<open>Frame, errors and removal\<close>

lemma update_domain_frame:
  "update_domain c fs e key st = (out, st') \<Longrightarrow> rs_apiSets st' k \<noteq> rs_apiSets st k \<Longrightarrow>
     k = key \<and> out = Done None"
  by (auto simp: update_domain_def Let_def split: prod.splits sum.splits bool.splits if_splits)

text \<open>
  A reconcile touches the set of its own domain key only, and no set at all when it fails or
  panics.
\<close>

theorem reconcile_frame:
  assumes "reconcile c fs key st = (out, st')"
  shows "(\<forall>k. k \<noteq> key \<longrightarrow> rs_apiSets st' k = rs_apiSets st k)
    \<and> (out \<noteq> Done None \<longrightarrow> rs_apiSets st' = rs_apiSets st)"
proof -
  consider "st' = st" | "remove_domain key st = (out, st')"
    | s e where "update_domain c s e key st = (out, st')"
    using assms unfolding reconcile_def by (auto split: sum.splits option.splits if_splits)
  then show ?thesis
  proof cases
    case 3
    then show ?thesis using update_domain_frame by (metis ext)
  qed (auto simp: remove_domain_def split: if_splits)
qed

theorem reconcile_frame_witness:
  "rs_apiSets w_st ''other/es'' = None \<and> w_key \<noteq> ''other/es''"
  using reconcile_frame [OF w_reconcile] by (auto simp: w_st0_def w_key_def)

text \<open>
  Without the export, or while it has no identity, a reconcile removes the domain.
\<close>

theorem reconcile_removes:
  assumes "lookup_export c fs = Inr None \<or> (\<exists>e. lookup_export c fs = Inr (Some e) \<and> ex_IdentityHash e = '''')"
  shows "\<exists>st'. reconcile c fs key st = (Done None, st') \<and> rs_apiSets st' = (rs_apiSets st)(key := None)
    \<and> rs_Definitions st' = rs_Definitions st"
proof -
  have "reconcile c fs key st = remove_domain key st"
    using assms by (auto simp: reconcile_def split: option.splits)
  then show ?thesis by (auto simp: remove_domain_def fun_upd_idem)
qed

theorem reconcile_removes_witness:
  "\<exists>st'. reconcile w_rc None w_key w_st = (Done None, st') \<and> rs_apiSets st' = (rs_apiSets w_st)(w_key := None)
    \<and> rs_Definitions st' = rs_Definitions w_st"
  by (rule reconcile_removes) (simp add: lookup_export_def)

text \<open>
  Removing a domain stops serving its definitions but never tears them down: their contexts
  stay open for ever.
\<close>

theorem removed_domain_leaks:
  assumes "(reconcile_step be lib sel)\<^sup>*\<^sup>* (reconciler_init an) st"
    and "served_def st key gvr = Some d" "ds_Defs (rs_Definitions st) d = Some a" "ad_Cancel a = Some ctx"
    and "remove_domain key st = (out, st')"
  shows "(\<forall>k g. served_def st' k g \<noteq> Some d) \<and> d \<notin> set (ds_Torn (rs_Definitions st'))
    \<and> ctx \<notin> set (ds_Cancelled (rs_Definitions st'))"
proof -
  note inv = vw_inv_reachable [OF assms(1)]
  have st': "rs_apiSets st' = (rs_apiSets st)(key := None)" "rs_Definitions st' = rs_Definitions st"
    using assms(5) by (auto simp: remove_domain_def split: if_splits)
  have wf: "defs_wf (rs_Definitions st)" and up: "d \<notin> set (ds_Torn (rs_Definitions st))"
    using inv assms(2) unfolding world_inv_def torn_def by blast+
  have "live_context (rs_Definitions st) ctx"
    using assms(3,4) up unfolding live_context_def by blast
  then have "ctx \<notin> set (ds_Cancelled (rs_Definitions st))" using wf unfolding defs_wf_def by blast
  moreover have "served_def st' k g \<noteq> Some d" for k g
  proof
    assume s: "served_def st' k g = Some d"
    then have k: "k \<noteq> key" by (auto simp: served_def_def st')
    then have "served_def st k g = Some d" using s by (simp add: served_def_def st')
    then show False using inv assms(2) k unfolding world_inv_def by blast
  qed
  ultimately show ?thesis using up st'(2) by simp
qed

lemma w_rt_built: "ds_Defs w_rt (Suc 0) = ds_Defs w_built (Suc 0)"
proof -
  have next3: "ds_Next w_built = 3" by (simp add: w_built_def w_eval)
  have keep: "ds_Defs (w_bump r v c n st) (Suc 0) = ds_Defs st (Suc 0)"
    if "v \<noteq> ''bad''" "ds_Next st \<noteq> Suc 0" for r v c n and st
    using that by (simp add: w_bump_def createReadOnlyDefinition_def provideAPIExportFilteredRestStorage_def
        w_be_def serve_def)
  have "\<not> pl_claimsAPIBindings w_plan" "\<not> pl_claimFilteredAPIExportES w_plan"
    by (simp_all add: w_plan_def)
  then show ?thesis
    by (simp add: w_rt_def build_set_def w_schema_order w_build_loop binding_gvrs_def
        createAPIBindingAPIDefinition_def createFilteredAPIExportESAPIDefinition_def w_fallback keep
        next3 slice_gvr_def GroupVersion_def del: build_loop.simps)
qed

lemma w_rt_widgets: "\<exists>a. ds_Defs w_rt (Suc 0) = Some a \<and> ad_Cancel a = Some (Suc 0)"
  unfolding w_rt_built by (simp add: w_built_def w_eval)

theorem removed_domain_leaks_witness:
  "\<forall>k g. served_def (snd (remove_domain w_key w_st)) k g \<noteq> Some 1"
proof -
  obtain a where a: "ds_Defs w_rt 1 = Some a" "ad_Cancel a = Some 1"
    using w_rt_widgets unfolding One_nat_def by blast
  have "ds_Defs (rs_Definitions w_st) 1 = Some a" using a(1) by (simp add: w_st_def)
  from removed_domain_leaks [OF w_reachable w_served this a(2) surjective_pairing]
  show ?thesis by blast
qed

end
