(* ===== verification/Api_Refresh.thy ===== *)
theory Api_Refresh
  imports Api_Served
begin

text \<open>
  What one \<open>reconcile\<close> of an existing domain changes: which old definitions it tears down,
  which it keeps, which resources are served afterwards, and what a nil definition does.
\<close>

section \<open>API sets are finite\<close>

lemma version_step_finite:
  assumes "version_step c fs ex pl oldSet s v newSet rt = (Inr ns, rt')" "finite (dom newSet)"
  shows "finite (dom ns)"
proof -
  have "ns = newSet \<or> (\<exists>g x. ns = newSet(g := x))"
    using assms(1) by (auto simp: version_step_def Let_def split: if_splits sum.splits prod.splits)
  then show ?thesis using assms(2) by auto
qed

lemma versions_loop_finite:
  "versions_loop c fs ex pl oldSet s vs newSet rt = (Inr ns, rt') \<Longrightarrow> finite (dom newSet) \<Longrightarrow> finite (dom ns)"
proof (induction vs arbitrary: newSet rt)
  case (Cons v vs)
  obtain ns1 rt1 where "version_step c fs ex pl oldSet s v newSet rt = (Inr ns1, rt1)"
    "versions_loop c fs ex pl oldSet s vs ns1 rt1 = (Inr ns, rt')"
    using Cons.prems(1) by (auto split: prod.splits sum.splits)
  then show ?case using Cons.IH [of ns1 rt1] version_step_finite [of c fs ex pl oldSet s v newSet rt ns1 rt1]
      Cons.prems(2) by simp
qed simp

lemma build_loop_finite:
  "build_loop c fs ex pl oldSet grs newSet rt = (Inr ns, rt') \<Longrightarrow> finite (dom newSet) \<Longrightarrow> finite (dom ns)"
proof (induction grs arbitrary: newSet rt)
  case (Cons gr grs)
  then show ?case
    by (cases "pl_Schemas pl gr") (auto split: prod.splits sum.splits dest: versions_loop_finite)
qed simp

lemma add_fallbacks_finite:
  "add_fallbacks create ex gvrs newSet rt = (ns, rt') \<Longrightarrow> finite (dom newSet) \<Longrightarrow> finite (dom ns)"
  by (induction create ex gvrs newSet rt rule: add_fallbacks.induct) (auto split: prod.splits)

lemma build_set_finite:
  assumes "build_set c fs ex pl oldSet rt = (Inr ns, rt')"
  shows "finite (dom ns)"
proof -
  obtain set1 rt1 where 1: "build_loop c fs ex pl oldSet
      (al_SchemaRange (rc_lib c) 1 (pl_Schemas pl)) Map.empty rt = (Inr set1, rt1)"
    using assms by (auto simp: build_set_def split: prod.splits sum.splits)
  have "finite (dom set1)" using build_loop_finite [OF 1] by simp
  then show ?thesis
    using assms 1 add_fallbacks_finite
    by (fastforce simp: build_set_def split: if_splits prod.splits)
qed

definition finite_sets :: "'rt reconciler_state \<Rightarrow> bool" where
  "finite_sets st \<longleftrightarrow> (\<forall>key. finite (dom (go_map (rs_apiSets st key))))"

lemma update_domain_success:
  assumes "update_domain c fs e key st = (Done None, st')"
  obtains pl an newSet rt rt' where
    "make_plan c e (rs_Annotations st) = (Inr pl, an)"
    "build_set c fs e pl (go_map (rs_apiSets st key)) (rs_Definitions st) = (Inr newSet, rt)"
    "cleanup c (go_map (rs_apiSets st key)) newSet
       (al_DefRange (rc_lib c) 0 (go_map (rs_apiSets st key))) rt = (True, rt')"
    "st' = st\<lparr>rs_apiSets := (rs_apiSets st)(key \<mapsto> newSet), rs_Annotations := an, rs_Definitions := rt'\<rparr>"
  using assms by (auto simp: update_domain_def Let_def split: prod.splits sum.splits bool.splits)

lemma reconcile_finite:
  assumes "reconcile c fs key st = (out, st')" "finite_sets st"
  shows "finite_sets st'"
proof (cases "out = Done None")
  case False
  then have "rs_apiSets st' = rs_apiSets st"
    using assms(1) unfolding reconcile_def
    by (auto simp: remove_domain_def update_domain_def Let_def
        split: sum.splits option.splits if_splits prod.splits bool.splits)
  then show ?thesis using assms(2) by (simp add: finite_sets_def)
next
  case True
  consider "st' = st" | "remove_domain key st = (out, st')"
    | s e where "update_domain c s e key st = (Done None, st')"
    using assms(1) True unfolding reconcile_def by (auto split: sum.splits option.splits if_splits)
  then show ?thesis
  proof cases
    case 3
    then obtain ns rt rt' pl an where "build_set c s e pl (go_map (rs_apiSets st key)) (rs_Definitions st) = (Inr ns, rt)"
      "rs_apiSets st' = (rs_apiSets st)(key \<mapsto> ns)"
      by (elim update_domain_success) auto
    then show ?thesis using assms(2) build_set_finite [of c s e pl _ _ ns rt]
      by (auto simp: finite_sets_def)
  qed (use assms(2) in \<open>auto simp: finite_sets_def remove_domain_def split: if_splits\<close>)
qed

lemma reachable_finite:
  "(reconcile_step be lib sel)\<^sup>*\<^sup>* (reconciler_init an) st \<Longrightarrow> finite_sets st"
proof (induction rule: rtranclp_induct)
  case (step st st')
  then show ?case by (elim reconcile_stepE) (blast intro: reconcile_finite)
qed (simp add: finite_sets_def reconciler_init_def)

section \<open>Tear-down\<close>

context reconciler_world
begin

lemma update_domain_down:
  assumes inv: "world_inv wf origin down L sel st"
    and run: "update_domain c fs e key st = (Done None, st')"
    and range: "set (al_DefRange (rc_lib c) 0 (go_map (rs_apiSets st key))) = dom (go_map (rs_apiSets st key))"
  shows "down (rs_Definitions st') = down (rs_Definitions st)
    \<union> {d. \<exists>gvr. served_def st key gvr = Some d \<and> served_def st' key gvr \<noteq> Some d}"
proof -
  let ?old = "go_map (rs_apiSets st key)" and ?rt = "rs_Definitions st"
  obtain pl an newSet rt rt' where build: "build_set c fs e pl ?old ?rt = (Inr newSet, rt)"
    and clean: "cleanup c ?old newSet (al_DefRange (rc_lib c) 0 ?old) rt = (True, rt')"
    and st': "rs_Definitions st' = rt'" "rs_apiSets st' = (rs_apiSets st)(key \<mapsto> newSet)"
    using run by (elim update_domain_success) auto
  have "wf ?rt" using inv unfolding world_inv_def by blast
  from build_set_inv [OF this world_inv_known [OF inv] build]
  have b: "build_inv fs e pl ?old ?rt newSet rt" by auto
  then have "wf rt" "down rt = down ?rt" and "origin ?rt \<subseteq>\<^sub>m origin rt"
    unfolding build_inv_def set_inv_def by auto
  moreover have "old_known (origin rt) ?old"
    using world_inv_known [OF inv, of key] calculation(3) unfolding old_known_def map_le_def by (metis domIff)
  ultimately have cl: "down rt \<subseteq> down rt'" "\<forall>d \<in> down rt'. d \<in> down rt \<or> (\<exists>gvr. drops ?old newSet gvr d)"
    "\<forall>gvr \<in> dom ?old. \<forall>d. drops ?old newSet gvr d \<longrightarrow> d \<in> down rt'"
    using cleanup_down [OF _ _ clean] range by simp_all
  have served: "drops ?old newSet g d \<longleftrightarrow> served_def st key g = Some d \<and> served_def st' key g \<noteq> Some d" for g d
    by (cases "rs_apiSets st key"; cases "newSet g") (auto simp: drops_def served_def_def st' split: option.splits)
  have "d \<in> down rt'" if "drops ?old newSet g d" for g d
  proof -
    have "g \<in> dom ?old" using that by (auto simp: drops_def)
    then show ?thesis using cl(3) that by blast
  qed
  then have "down rt' = down rt \<union> {d. \<exists>g. drops ?old newSet g d}" using cl(1,2) by blast
  then show ?thesis unfolding served st'(1) \<open>down rt = down ?rt\<close> .
qed

end

text \<open>
  C15: A successful refresh of a domain tears down exactly the definitions that the domain
  served before and does not serve at the same place afterwards.
\<close>

theorem tear_down_exact:
  assumes reach: "(reconcile_step be lib sel)\<^sup>*\<^sup>* (reconciler_init an) st"
    and range: "range_law (al_DefRange lib)"
    and run: "update_domain (NewAPIReconciler be lib v) fs e key st = (Done None, st')"
  shows "set (ds_Torn (rs_Definitions st')) = set (ds_Torn (rs_Definitions st))
    \<union> {d. \<exists>gvr. served_def st key gvr = Some d \<and> served_def st' key gvr \<noteq> Some d}"
proof -
  have "finite (dom (go_map (rs_apiSets st key)))"
    using reachable_finite [OF reach] by (simp add: finite_sets_def)
  then have "set (al_DefRange lib 0 (go_map (rs_apiSets st key))) = dom (go_map (rs_apiSets st key))"
    using range_lawD [OF range] is_range_set by blast
  then show ?thesis
    using vw.update_domain_down [OF vw_inv_reachable [OF reach] run] by (simp add: torn_def)
qed


text \<open>A second call for the example slice, after the export dropped its claims.\<close>

lemma cleanup_no_nil:
  assumes "\<And>g e. oldSet g = Some e \<Longrightarrow> de_Definition e \<noteq> None"
  shows "fst (cleanup c oldSet newSet gvrs rt) = True"
proof (induction gvrs arbitrary: rt)
  case (Cons gvr gvrs)
  show ?case
  proof (cases "oldSet gvr")
    case (Some old)
    then obtain d where "de_Definition old = Some d" using assms by blast
    with Some Cons show ?thesis by (simp split: option.splits)
  qed (use Cons in simp)
qed simp

definition w_export2 :: apiexport where [world]:
  "w_export2 = w_export\<lparr>ex_PermissionClaims := []\<rparr>"

definition w_plan2 :: plan where [world]:
  "w_plan2 = \<lparr>pl_Schemas = [schema_gr w_widgets \<mapsto> w_widgets],
     pl_Identities = (\<lambda>gr. if [schema_gr w_widgets \<mapsto> w_widgets] gr = None then None else Some ''id''),
     pl_Claims = Map.empty, pl_claimsAPIBindings = False, pl_claimFilteredAPIExportES = False\<rparr>"

lemma w_make_plan2: "make_plan w_rc w_export2 an = (Inr w_plan2, an)"
proof -
  have "getSchemasFromAPIExport w_view w_export2 = Inr [schema_gr w_widgets \<mapsto> w_widgets]"
    "ex_IdentityHash w_export2 = ''id''" "ex_PermissionClaims w_export2 = []"
    by (simp_all add: w_export2_def getSchemasFromAPIExport_def w_view_def w_export_def w_schemas_def)
  then show ?thesis
    by (simp only: make_plan_def w_rc_simps sum.case claims_loop.simps w_plan2_def)
qed

definition w_set2 :: api_set where [world]:
  "w_set2 = [schema_gvr w_widgets ''v1'' \<mapsto> w_entry 1 ''u1'' ''id''](
     \<lparr>gvr_Group = ''apis.kcp.io'', gvr_Version = ''v1alpha1'', gvr_Resource = ''apibindings''\<rparr>
       \<mapsto> w_entry (ds_Next w_rt) '''' '''',
     \<lparr>gvr_Group = ''apis.kcp.io'', gvr_Version = ''v1alpha2'', gvr_Resource = ''apibindings''\<rparr>
       \<mapsto> w_entry (Suc (ds_Next w_rt)) '''' '''',
     slice_gvr \<mapsto> w_entry (Suc (Suc (ds_Next w_rt))) '''' '''')"

lemma w_build_set2:
  "fst (build_set w_rc w_slice w_export2 w_plan2 w_full_set w_rt) = Inr w_set2"
proof -
  have "sorted_range (Suc 0) (pl_Schemas w_plan2) = [schema_gr w_widgets]"
    by (simp add: sorted_range_def w_plan2_def)
  moreover have "build_loop w_rc w_slice w_export2 w_plan2 w_full_set [schema_gr w_widgets] Map.empty w_rt
      = (Inr [schema_gvr w_widgets ''v1'' \<mapsto> w_entry 1 ''u1'' ''id''], w_rt)"
    by (auto simp: w_plan2_def schema_gvr_def w_widgets_def version_step_def keeps_old_def Let_def
        w_full_set_def w_set_def slice_gvr_def w_cm_schema_def w_gadgets_schema_def w_export2_def w_export_def
        GroupName_def)
  moreover have "\<not> pl_claimsAPIBindings w_plan2" "\<not> pl_claimFilteredAPIExportES w_plan2"
    by (simp_all add: w_plan2_def)
  ultimately show ?thesis
    by (simp add: build_set_def binding_gvrs_def w_set2_def createAPIBindingAPIDefinition_def
        createFilteredAPIExportESAPIDefinition_def w_fallback fallback_entry_def slice_gvr_def
        GroupVersion_def apis_GroupName_def del: build_loop.simps)
qed

definition w_st2 :: "(string \<times> string list) defs_state reconciler_state" where
  "w_st2 = snd (update_domain w_rc w_slice w_export2 w_key w_st)"

lemma w_update2:
  "update_domain w_rc w_slice w_export2 w_key w_st = (Done None, w_st2)"
  "rs_apiSets w_st2 = (rs_apiSets w_st)(w_key \<mapsto> w_set2)"
proof -
  obtain rt where b: "build_set w_rc w_slice w_export2 w_plan2 w_full_set w_rt = (Inr w_set2, rt)"
    using w_build_set2 by (metis prod.collapse)
  have nil: "fst (cleanup w_rc w_full_set w_set2 (sorted_range 0 w_full_set) rt) = True"
    by (rule cleanup_no_nil) (auto simp: w_full_set_def w_set_def split: if_splits)
  obtain rt' where cl: "cleanup w_rc w_full_set w_set2 (sorted_range 0 w_full_set) rt = (True, rt')"
    using nil by (metis prod.collapse)
  have "update_domain w_rc w_slice w_export2 w_key w_st
      = (Done None, w_st\<lparr>rs_apiSets := (rs_apiSets w_st)(w_key \<mapsto> w_set2),
           rs_Annotations := rs_Annotations w_st, rs_Definitions := rt'\<rparr>)"
    by (simp add: update_domain_def w_st_def w_make_plan2 b cl)
  then show "update_domain w_rc w_slice w_export2 w_key w_st = (Done None, w_st2)"
    "rs_apiSets w_st2 = (rs_apiSets w_st)(w_key \<mapsto> w_set2)"
    by (simp_all add: w_st2_def)
qed

lemma w_served2:
  "served_def w_st2 w_key (schema_gvr w_widgets ''v1'') = Some 1"
  "served_def w_st w_key (schema_gvr w_cm_schema ''v1'') = Some 0"
  "served_def w_st2 w_key (schema_gvr w_cm_schema ''v1'') = None"
  by (simp_all add: served_def_def w_update2(2) w_set2_def w_st_def w_full_set_def w_set_def schema_gvr_def
      w_widgets_def w_cm_schema_def w_gadgets_schema_def slice_gvr_def GroupName_def)

theorem tear_down_exact_witness:
  "0 \<in> set (ds_Torn (rs_Definitions w_st2))"
proof -
  have "range_law (al_DefRange w_lib)" by (simp add: w_lib_def range_law_sorted)
  from tear_down_exact [OF w_reachable this w_update2(1) [unfolded w_rc_def]] w_served2
  show ?thesis by force
qed

end
