(* ===== verification/Api_Keep.thy ===== *)
theory Api_Keep
  imports Api_Refresh
begin

text \<open>
  The set a successful \<open>reconcile\<close> commits: which resources it has, which old definitions
  survive in it (a fallback never does), and what a nil definition in the old set does.
\<close>

definition serves_gvr :: "APIResourceSchema \<Rightarrow> group_version_resource \<Rightarrow> bool" where
  "serves_gvr s gvr \<longleftrightarrow> (\<exists>v \<in> set (sc_Versions s). v_Served v \<and> schema_gvr s (v_Name v) = gvr)"

definition planned :: "plan \<Rightarrow> group_version_resource \<Rightarrow> bool" where
  "planned pl gvr \<longleftrightarrow> (\<exists>s \<in> ran (pl_Schemas pl). serves_gvr s gvr)"

definition fallback_gvrs :: "plan \<Rightarrow> group_version_resource set" where
  "fallback_gvrs pl =
     (if pl_claimsAPIBindings pl then {} else set binding_gvrs)
     \<union> (if pl_claimFilteredAPIExportES pl then {} else {slice_gvr})"

section \<open>One resource through the construction\<close>

text \<open>
  \<open>settles f\<close>: every schema version for the resource \<open>gvr\<close> leaves the entry \<open>f\<close> there.
\<close>

lemma version_step_at:
  assumes "version_step c fs ex pl oldSet s v newSet rt = (Inr ns, rt')"
  shows "\<not> v_Served v \<or> schema_gvr s (v_Name v) \<noteq> gvr \<Longrightarrow> ns gvr = newSet gvr"
    and "v_Served v \<Longrightarrow> schema_gvr s (v_Name v) = gvr \<Longrightarrow> keeps_old ex s (oldSet gvr) \<Longrightarrow> ns gvr = oldSet gvr"
  using assms by (auto simp: version_step_def Let_def split: if_splits sum.splits prod.splits)

lemma versions_loop_at:
  "versions_loop c fs ex pl oldSet s vs newSet rt = (Inr ns, rt') \<Longrightarrow> keeps_old ex s (oldSet gvr) \<Longrightarrow>
     ns gvr = (if \<exists>v \<in> set vs. v_Served v \<and> schema_gvr s (v_Name v) = gvr then oldSet gvr else newSet gvr)"
proof (induction vs arbitrary: newSet rt)
  case (Cons v vs)
  obtain ns1 rt1 where step: "version_step c fs ex pl oldSet s v newSet rt = (Inr ns1, rt1)"
    and rest: "versions_loop c fs ex pl oldSet s vs ns1 rt1 = (Inr ns, rt')"
    using Cons.prems(1) by (auto split: prod.splits sum.splits)
  have "ns gvr = (if \<exists>v \<in> set vs. v_Served v \<and> schema_gvr s (v_Name v) = gvr then oldSet gvr else ns1 gvr)"
    by (rule Cons.IH [OF rest Cons.prems(2)])
  moreover have "ns1 gvr = (if v_Served v \<and> schema_gvr s (v_Name v) = gvr then oldSet gvr else newSet gvr)"
    using version_step_at [OF step, of gvr] Cons.prems(2) by (auto split: if_splits)
  ultimately show ?case by (auto split: if_splits)
qed simp

lemma versions_loop_other:
  "versions_loop c fs ex pl oldSet s vs newSet rt = (Inr ns, rt') \<Longrightarrow>
     \<not> (\<exists>v \<in> set vs. v_Served v \<and> schema_gvr s (v_Name v) = gvr) \<Longrightarrow> ns gvr = newSet gvr"
proof (induction vs arbitrary: newSet rt)
  case (Cons v vs)
  obtain ns1 rt1 where step: "version_step c fs ex pl oldSet s v newSet rt = (Inr ns1, rt1)"
    and rest: "versions_loop c fs ex pl oldSet s vs ns1 rt1 = (Inr ns, rt')"
    using Cons.prems(1) by (auto split: prod.splits sum.splits)
  show ?case
    using Cons.IH [OF rest] version_step_at(1) [OF step, of gvr] Cons.prems(2) by auto
qed simp

lemma build_loop_at:
  "build_loop c fs ex pl oldSet grs newSet rt = (Inr ns, rt') \<Longrightarrow>
     (\<And>s. s \<in> ran (pl_Schemas pl) \<Longrightarrow> serves_gvr s gvr \<Longrightarrow> keeps_old ex s (oldSet gvr)) \<Longrightarrow>
     ns gvr = (if \<exists>gr \<in> set grs. \<exists>s. pl_Schemas pl gr = Some s \<and> serves_gvr s gvr
               then oldSet gvr else newSet gvr)"
proof (induction grs arbitrary: newSet rt)
  case (Cons gr grs)
  show ?case
  proof (cases "pl_Schemas pl gr")
    case None
    then show ?thesis using Cons.IH [of newSet rt] Cons.prems by simp
  next
    case (Some s)
    obtain ns1 rt1 where loop: "versions_loop c fs ex pl oldSet s (sc_Versions s) newSet rt = (Inr ns1, rt1)"
      and rest: "build_loop c fs ex pl oldSet grs ns1 rt1 = (Inr ns, rt')"
      using Cons.prems(1) Some by (auto split: prod.splits sum.splits)
    have "ns1 gvr = (if serves_gvr s gvr then oldSet gvr else newSet gvr)"
    proof (cases "serves_gvr s gvr")
      case True
      then have "keeps_old ex s (oldSet gvr)" using Cons.prems(2) Some by (auto simp: ran_def)
      from versions_loop_at [OF loop this] True show ?thesis by (auto simp: serves_gvr_def)
    next
      case False
      then have "\<not> (\<exists>v \<in> set (sc_Versions s). v_Served v \<and> schema_gvr s (v_Name v) = gvr)"
        by (simp add: serves_gvr_def)
      from versions_loop_other [OF loop this] False show ?thesis by simp
    qed
    with Cons.IH [OF rest Cons.prems(2)] Some show ?thesis by auto
  qed
qed simp

lemma add_fallbacks_at:
  "add_fallbacks create ex gvrs newSet rt = (ns, rt') \<Longrightarrow> gvr \<notin> set gvrs \<Longrightarrow> ns gvr = newSet gvr"
  by (induction create ex gvrs newSet rt rule: add_fallbacks.induct) (auto split: prod.splits)

lemma add_fallbacks_dom:
  "add_fallbacks create ex gvrs newSet rt = (ns, rt') \<Longrightarrow> dom ns = dom newSet \<union> set gvrs"
  by (induction create ex gvrs newSet rt rule: add_fallbacks.induct) (auto split: prod.splits)

lemma build_set_parts:
  assumes "build_set c fs ex pl oldSet rt = (Inr ns, rt')"
  obtains set1 rt1 where
    "build_loop c fs ex pl oldSet (al_SchemaRange (rc_lib c) 1 (pl_Schemas pl)) Map.empty rt = (Inr set1, rt1)"
    "\<And>gvr. gvr \<notin> fallback_gvrs pl \<Longrightarrow> ns gvr = set1 gvr"
    "dom ns = dom set1 \<union> fallback_gvrs pl"
proof -
  obtain set1 rt1 where 1: "build_loop c fs ex pl oldSet
      (al_SchemaRange (rc_lib c) 1 (pl_Schemas pl)) Map.empty rt = (Inr set1, rt1)"
    using assms by (auto simp: build_set_def split: prod.splits sum.splits)
  obtain set2 rt2 where 2: "(if pl_claimsAPIBindings pl then (set1, rt1)
      else add_fallbacks (rc_createAPIBindingAPIDefinition c) ex binding_gvrs set1 rt1) = (set2, rt2)"
    by force
  have 3: "(if pl_claimFilteredAPIExportES pl then (set2, rt2)
      else add_fallbacks (rc_createFilteredAPIExportESAPIDefinition c) ex [slice_gvr] set2 rt2) = (ns, rt')"
    (is "?third = _")
  proof (cases ?third)
    case (Pair set3 rt3)
    have "build_set c fs ex pl oldSet rt = (Inr set3, rt3)"
      by (simp only: build_set_def 1 2 Pair prod.case sum.case)
    with assms Pair show ?thesis by simp
  qed
  have "set2 gvr = set1 gvr" if "gvr \<notin> fallback_gvrs pl" for gvr
    using 2 that add_fallbacks_at [of _ ex binding_gvrs set1 rt1 set2 rt2 gvr]
    by (auto simp: fallback_gvrs_def split: if_splits)
  moreover have "ns gvr = set2 gvr" if "gvr \<notin> fallback_gvrs pl" for gvr
    using 3 that add_fallbacks_at [of _ ex "[slice_gvr]" set2 rt2 ns rt' gvr]
    by (auto simp: fallback_gvrs_def split: if_splits)
  moreover have "dom ns = dom set1 \<union> fallback_gvrs pl"
    using 2 3 add_fallbacks_dom [of _ ex binding_gvrs set1 rt1 set2 rt2]
      add_fallbacks_dom [of _ ex "[slice_gvr]" set2 rt2 ns rt']
    by (auto simp: fallback_gvrs_def split: if_splits)
  ultimately show thesis using 1 by (intro that) auto
qed


text \<open>A creation that cannot fail enters every served version.\<close>

definition creates :: "('rt, 'sel, 'req) reconciler \<Rightarrow> APIResourceSchema \<Rightarrow> bool" where
  "creates c s \<longleftrightarrow> (\<forall>v \<in> set (sc_Versions s). v_Served v \<longrightarrow>
     (\<forall>i r rt. \<exists>d rt'. rc_createAPIDefinition c s (v_Name v) i r rt = (Inr d, rt')))"

lemma version_step_dom:
  assumes "version_step c fs ex pl oldSet s v newSet rt = (Inr ns, rt')"
    and create: "v_Served v \<Longrightarrow> \<forall>i r rt. \<exists>d rt'. rc_createAPIDefinition c s (v_Name v) i r rt = (Inr d, rt')"
  shows "dom ns = dom newSet \<union> (if v_Served v then {schema_gvr s (v_Name v)} else {})"
proof (cases "v_Served v")
  case False
  then show ?thesis using assms(1) by (simp add: version_step_def)
next
  case True
  let ?gvr = "schema_gvr s (v_Name v)"
  have "ns ?gvr \<noteq> None"
  proof (cases "keeps_old ex s (oldSet ?gvr)")
    case keep: True
    then have "oldSet ?gvr \<noteq> None" by (auto simp: keeps_old_def split: option.splits)
    with version_step_at(2) [OF assms(1) True refl keep] show ?thesis by simp
  next
    case False
    then obtain reqs extra where
      r: "slice_requirements (al_Labels (rc_lib c)) (ObjectSelector (Spec fs)) = Inr reqs"
        "claim_requirement (rc_lib c) ex (pl_Claims pl) (GroupResource ?gvr) = Inr extra"
      using assms(1) True by (auto simp: version_step_def Let_def split: sum.splits)
    obtain d rt1 where "rc_createAPIDefinition c s (v_Name v)
        (case pl_Identities pl (GroupResource ?gvr) of None \<Rightarrow> '''' | Some i \<Rightarrow> i) (reqs @ extra) rt = (Inr d, rt1)"
      using create [OF True] by blast
    with assms(1) True False r show ?thesis by (auto simp: version_step_def Let_def)
  qed
  moreover have "ns g = newSet g" if "g \<noteq> ?gvr" for g
    using version_step_at(1) [OF assms(1), of g] that by auto
  ultimately have "g \<in> dom ns \<longleftrightarrow> g \<in> insert ?gvr (dom newSet)" for g
    by (cases "g = ?gvr") auto
  then show ?thesis using True by (simp add: set_eq_iff)
qed

lemma versions_loop_dom:
  "versions_loop c fs ex pl oldSet s vs newSet rt = (Inr ns, rt') \<Longrightarrow>
     (\<forall>v \<in> set vs. v_Served v \<longrightarrow>
        (\<forall>i r rt. \<exists>d rt'. rc_createAPIDefinition c s (v_Name v) i r rt = (Inr d, rt'))) \<Longrightarrow>
     dom ns = dom newSet \<union> {gvr. \<exists>v \<in> set vs. v_Served v \<and> schema_gvr s (v_Name v) = gvr}"
proof (induction vs arbitrary: newSet rt)
  case (Cons v vs)
  obtain ns1 rt1 where step: "version_step c fs ex pl oldSet s v newSet rt = (Inr ns1, rt1)"
    and rest: "versions_loop c fs ex pl oldSet s vs ns1 rt1 = (Inr ns, rt')"
    using Cons.prems(1) by (auto split: prod.splits sum.splits)
  have "dom ns1 = dom newSet \<union> (if v_Served v then {schema_gvr s (v_Name v)} else {})"
    by (rule version_step_dom [OF step]) (use Cons.prems(2) in simp)
  moreover have "dom ns = dom ns1 \<union> {gvr. \<exists>v \<in> set vs. v_Served v \<and> schema_gvr s (v_Name v) = gvr}"
    by (rule Cons.IH [OF rest]) (use Cons.prems(2) in auto)
  ultimately show ?case by (auto split: if_splits)
qed simp

lemma build_loop_dom:
  "build_loop c fs ex pl oldSet grs newSet rt = (Inr ns, rt') \<Longrightarrow> \<forall>s \<in> ran (pl_Schemas pl). creates c s \<Longrightarrow>
     dom ns = dom newSet \<union> {gvr. \<exists>gr \<in> set grs. \<exists>s. pl_Schemas pl gr = Some s \<and> serves_gvr s gvr}"
proof (induction grs arbitrary: newSet rt)
  case (Cons gr grs)
  show ?case
  proof (cases "pl_Schemas pl gr")
    case None
    then show ?thesis using Cons.IH [of newSet rt] Cons.prems by simp
  next
    case (Some s)
    obtain ns1 rt1 where loop: "versions_loop c fs ex pl oldSet s (sc_Versions s) newSet rt = (Inr ns1, rt1)"
      and rest: "build_loop c fs ex pl oldSet grs ns1 rt1 = (Inr ns, rt')"
      using Cons.prems(1) Some by (auto split: prod.splits sum.splits)
    have "creates c s" using Cons.prems(2) Some by (auto simp: ran_def)
    then have "dom ns1 = dom newSet \<union> {gvr. serves_gvr s gvr}"
      using versions_loop_dom [OF loop] unfolding creates_def serves_gvr_def by simp
    with Cons.IH [OF rest Cons.prems(2)] Some show ?thesis by auto
  qed
qed simp

lemma planned_iff:
  "set grs = dom (pl_Schemas pl) \<Longrightarrow>
     (\<exists>gr \<in> set grs. \<exists>s. pl_Schemas pl gr = Some s \<and> serves_gvr s gvr) \<longleftrightarrow> planned pl gvr"
  by (auto simp: planned_def ran_def)

lemma plan_range:
  assumes "make_plan c e an = (Inr pl, an')" "range_law (al_SchemaRange (rc_lib c))"
  shows "set (al_SchemaRange (rc_lib c) i (pl_Schemas pl)) = dom (pl_Schemas pl)"
proof -
  have "finite (dom (pl_Schemas pl))"
    using assms(1) by (elim make_plan_ok) (unfold plan_ok_def, blast)
  then show ?thesis using range_lawD [OF assms(2)] is_range_set by blast
qed

section \<open>What is served after a successful call\<close>

text \<open>
  C16: When every definition can be created, the set served after a refresh has exactly the
  served versions of the planned schemas and the read-only fallbacks that no claim replaces.
\<close>

theorem served_set_exact:
  assumes range: "range_law (al_SchemaRange (rc_lib c))"
    and run: "update_domain c fs e key st = (Done None, st')"
    and plan: "make_plan c e (rs_Annotations st) = (Inr pl, an)"
    and ok: "\<forall>s \<in> ran (pl_Schemas pl). creates c s"
  shows "dom (go_map (rs_apiSets st' key)) = {gvr. planned pl gvr} \<union> fallback_gvrs pl"
proof -
  obtain newSet rt where build: "build_set c fs e pl (go_map (rs_apiSets st key)) (rs_Definitions st) = (Inr newSet, rt)"
    and st': "rs_apiSets st' key = Some newSet"
    using run plan by (elim update_domain_success) auto
  from build obtain set1 rt1 where loop: "build_loop c fs e pl (go_map (rs_apiSets st key))
      (al_SchemaRange (rc_lib c) 1 (pl_Schemas pl)) Map.empty (rs_Definitions st) = (Inr set1, rt1)"
    and dom: "dom newSet = dom set1 \<union> fallback_gvrs pl"
    by (rule build_set_parts) blast
  have "dom set1 = {gvr. planned pl gvr}"
    using build_loop_dom [OF loop ok] planned_iff [OF plan_range [OF plan range]] by simp
  with dom st' show ?thesis by simp
qed

lemma w_rc_ranges [simp]: "range_law (al_SchemaRange (rc_lib w_rc))" "range_law (al_DefRange (rc_lib w_rc))"
  by (simp_all add: range_law_sorted)

lemma w_creates: "creates w_rc w_widgets"
  by (simp add: creates_def w_rc_def createAPIDefinition_def serve_def w_be_def w_widgets_def Let_def)

lemma w_plan2_ran: "ran (pl_Schemas w_plan2) = {w_widgets}"
  by (simp add: w_plan2_def)

lemma w_planned2: "planned w_plan2 gvr \<longleftrightarrow> gvr = schema_gvr w_widgets ''v1''"
  by (auto simp: planned_def w_plan2_ran serves_gvr_def w_widgets_def)

theorem served_set_exact_witness:
  "schema_gvr w_widgets ''v1'' \<in> dom (go_map (rs_apiSets w_st2 w_key))
   \<and> schema_gvr w_widgets ''v0'' \<notin> dom (go_map (rs_apiSets w_st2 w_key))"
proof -
  have "dom (go_map (rs_apiSets w_st2 w_key)) = {gvr. planned w_plan2 gvr} \<union> fallback_gvrs w_plan2"
    by (rule served_set_exact [OF _ w_update2(1) w_make_plan2]) (simp_all add: w_plan2_ran w_creates)
  then show ?thesis
    by (simp add: w_planned2 fallback_gvrs_def binding_gvrs_def slice_gvr_def schema_gvr_def w_widgets_def
        apis_GroupName_def GroupName_def)
qed

text \<open>
  C18: A definition built for the same schema UID and export identity is carried over
  unchanged by a refresh, also when the object selector of the slice is another one.
\<close>

theorem unchanged_schema_keeps_definition:
  assumes range: "range_law (al_SchemaRange (rc_lib c))"
    and run: "update_domain c fs e key st = (Done None, st')"
    and plan: "make_plan c e (rs_Annotations st) = (Inr pl, an)"
    and old: "go_map (rs_apiSets st key) gvr = Some entry" "de_IdentityHash entry = ex_IdentityHash e"
    and same: "\<forall>s \<in> ran (pl_Schemas pl). serves_gvr s gvr \<longrightarrow> sc_UID s = de_UID entry"
    and planned: "planned pl gvr" and no_fallback: "gvr \<notin> fallback_gvrs pl"
  shows "go_map (rs_apiSets st' key) gvr = Some entry"
proof -
  obtain newSet rt where build: "build_set c fs e pl (go_map (rs_apiSets st key)) (rs_Definitions st) = (Inr newSet, rt)"
    and st': "rs_apiSets st' key = Some newSet"
    using run plan by (elim update_domain_success) auto
  from build obtain set1 rt1 where loop: "build_loop c fs e pl (go_map (rs_apiSets st key))
      (al_SchemaRange (rc_lib c) 1 (pl_Schemas pl)) Map.empty (rs_Definitions st) = (Inr set1, rt1)"
    and at: "newSet gvr = set1 gvr"
    by (rule build_set_parts) (use no_fallback in blast)
  have "keeps_old e s (go_map (rs_apiSets st key) gvr)" if "s \<in> ran (pl_Schemas pl)" "serves_gvr s gvr" for s
    using that same old by (simp add: keeps_old_def)
  from build_loop_at [OF loop this] planned_iff [OF plan_range [OF plan range]] planned old(1)
  have "set1 gvr = Some entry" by simp
  with at st' show ?thesis by simp
qed


lemma w_widgets_no_fallback: "schema_gvr w_widgets ''v1'' \<notin> fallback_gvrs w_plan2"
  by (simp add: fallback_gvrs_def binding_gvrs_def slice_gvr_def schema_gvr_def w_widgets_def
      apis_GroupName_def GroupName_def)

theorem unchanged_schema_keeps_definition_witness:
  "go_map (rs_apiSets w_st2 w_key) (schema_gvr w_widgets ''v1'') = Some (w_entry 1 ''u1'' ''id'')"
proof (rule unchanged_schema_keeps_definition [OF _ w_update2(1) w_make_plan2])
  show "go_map (rs_apiSets w_st w_key) (schema_gvr w_widgets ''v1'') = Some (w_entry 1 ''u1'' ''id'')"
    by (simp add: w_st_def w_full_set_def w_set_def schema_gvr_def w_widgets_def w_cm_schema_def
        w_gadgets_schema_def slice_gvr_def GroupName_def)
  show "schema_gvr w_widgets ''v1'' \<notin> fallback_gvrs w_plan2" by (rule w_widgets_no_fallback)
  show "\<forall>s \<in> ran (pl_Schemas w_plan2). serves_gvr s (schema_gvr w_widgets ''v1'')
      \<longrightarrow> sc_UID s = de_UID (w_entry 1 ''u1'' ''id'')"
    by (simp add: w_plan2_ran w_widgets_def)
qed (simp_all add: w_planned2 w_export2_def w_export_def)

section \<open>A nil definition\<close>

lemma add_fallbacks_nil:
  "create (gvr_Version gvr) (ex_Cluster e) (ex_Name e) rt = (Inl err, rt') \<Longrightarrow>
     fst (add_fallbacks create e [gvr] newSet rt) gvr
       = Some \<lparr>de_Definition = None, de_UID = '''', de_IdentityHash = ''''\<rparr>"
  by (simp add: fallback_entry_def)

lemma cleanup_nil:
  assumes "oldSet g = Some old" "de_Definition old = None"
    and "newSet g = None \<or> (\<exists>new. newSet g = Some new \<and> de_Definition new \<noteq> None)"
  shows "g \<in> set gvrs \<Longrightarrow> fst (cleanup c oldSet newSet gvrs rt) = False"
proof (induction gvrs arbitrary: rt)
  case (Cons gvr gvrs)
  show ?case
  proof (cases "gvr = g")
    case True
    then show ?thesis using assms by auto
  next
    case False
    then have "g \<in> set gvrs" using Cons.prems by simp
    then show ?thesis using Cons.IH by (auto split: option.splits)
  qed
qed simp

text \<open>
  If a domain serves an entry without a definition, as a failed fallback creation leaves it,
  the next refresh that replaces the entry panics.
\<close>

theorem nil_definition_panics:
  assumes range: "range_law (al_DefRange (rc_lib c))" and "finite_sets st"
    and nil: "go_map (rs_apiSets st key) gvr = Some entry" "de_Definition entry = None"
    and plan: "make_plan c e (rs_Annotations st) = (Inr pl, an)"
    and build: "build_set c fs e pl (go_map (rs_apiSets st key)) (rs_Definitions st) = (Inr newSet, rt)"
    and new: "newSet gvr = None \<or> (\<exists>new. newSet gvr = Some new \<and> de_Definition new \<noteq> None)"
  shows "fst (update_domain c fs e key st) = Panic"
proof -
  let ?old = "go_map (rs_apiSets st key)"
  have "finite (dom ?old)" using assms(2) by (simp add: finite_sets_def)
  then have "gvr \<in> set (al_DefRange (rc_lib c) 0 ?old)"
    using nil(1) range_lawD [OF range] is_range_set by blast
  from cleanup_nil [of ?old gvr entry newSet, OF nil new this, of c rt]
  obtain rt' where "cleanup c ?old newSet (al_DefRange (rc_lib c) 0 ?old) rt = (False, rt')"
    by (metis prod.collapse)
  then show ?thesis by (simp add: update_domain_def Let_def plan build)
qed

definition w_nil_st :: "(string \<times> string list) defs_state reconciler_state" where
  "w_nil_st = \<lparr>rs_apiSets = [w_key \<mapsto> fst (add_fallbacks (\<lambda>v c n rt. (Inl (Err (Str ''down'')), rt)) w_export
       [slice_gvr] Map.empty (defs_init :: (string \<times> string list) defs_state))],
     rs_Annotations = w_annot, rs_Definitions = defs_init\<rparr>"

theorem nil_definition_panics_witness:
  "fst (update_domain w_rc w_slice w_export2 w_key w_nil_st) = Panic"
proof -
  let ?old = "[slice_gvr \<mapsto> \<lparr>de_Definition = None, de_UID = '''', de_IdentityHash = ''''\<rparr>]"
  have old: "rs_apiSets w_nil_st = [w_key \<mapsto> ?old]" "rs_Definitions w_nil_st = defs_init"
    by (simp_all add: w_nil_st_def fallback_entry_def)
  obtain res rt where b: "build_set w_rc w_slice w_export2 w_plan2 ?old defs_init = (res, rt)" by force
  have "sorted_range (Suc 0) (pl_Schemas w_plan2) = [schema_gr w_widgets]"
    by (simp add: sorted_range_def w_plan2_def)
  moreover have "\<exists>ns rt1. build_loop w_rc w_slice w_export2 w_plan2 ?old [schema_gr w_widgets] Map.empty defs_init
      = (Inr ns, rt1)"
    by (simp add: w_plan2_def slice_gvr_def w_eval)
  ultimately have "\<exists>ns new. res = Inr ns \<and> ns slice_gvr = Some new \<and> de_Definition new \<noteq> None"
    using b by (auto simp: build_set_def w_plan2_def binding_gvrs_def createAPIBindingAPIDefinition_def
        createFilteredAPIExportESAPIDefinition_def w_fallback fallback_entry_def slice_gvr_def
        GroupVersion_def simp del: build_loop.simps)
  then obtain ns new where ns: "res = Inr ns" "ns slice_gvr = Some new" "de_Definition new \<noteq> None" by blast
  have "finite_sets w_nil_st" by (simp add: finite_sets_def old go_map_def)
  from nil_definition_panics [OF w_rc_ranges(2) this _ _ w_make_plan2, of w_key slice_gvr _ w_slice ns rt]
  show ?thesis using old b ns by simp
qed

section \<open>Fallbacks are never kept\<close>

lemma add_fallbacks_entry:
  "add_fallbacks create ex gvrs newSet rt = (ns, rt') \<Longrightarrow> gvr \<in> set gvrs \<Longrightarrow>
     \<exists>res. ns gvr = Some (fallback_entry res)"
proof (induction create ex gvrs newSet rt rule: add_fallbacks.induct)
  case (2 create ex g gvrs newSet rt)
  obtain res rt1 where cr: "create (gvr_Version g) (ex_Cluster ex) (ex_Name ex) rt = (res, rt1)" by force
  then have rest: "add_fallbacks create ex gvrs (newSet(g \<mapsto> fallback_entry res)) rt1 = (ns, rt')"
    using 2 by simp
  show ?case
  proof (cases "gvr \<in> set gvrs")
    case True
    then show ?thesis using 2 cr rest by metis
  next
    case False
    then show ?thesis using 2 add_fallbacks_at [OF rest] by auto
  qed
qed simp

lemma build_set_fallback:
  assumes "build_set c fs ex pl oldSet rt = (Inr ns, rt')" "gvr \<in> fallback_gvrs pl"
  shows "\<exists>res. ns gvr = Some (fallback_entry res)"
proof -
  obtain set1 rt1 where 1: "build_loop c fs ex pl oldSet
      (al_SchemaRange (rc_lib c) 1 (pl_Schemas pl)) Map.empty rt = (Inr set1, rt1)"
    using assms(1) by (auto simp: build_set_def split: prod.splits sum.splits)
  obtain set2 rt2 where 2: "(if pl_claimsAPIBindings pl then (set1, rt1)
      else add_fallbacks (rc_createAPIBindingAPIDefinition c) ex binding_gvrs set1 rt1) = (set2, rt2)"
    by force
  have 3: "(if pl_claimFilteredAPIExportES pl then (set2, rt2)
      else add_fallbacks (rc_createFilteredAPIExportESAPIDefinition c) ex [slice_gvr] set2 rt2) = (ns, rt')"
    (is "?third = _")
  proof (cases ?third)
    case (Pair set3 rt3)
    have "build_set c fs ex pl oldSet rt = (Inr set3, rt3)"
      by (simp only: build_set_def 1 2 Pair prod.case sum.case)
    with assms(1) Pair show ?thesis by simp
  qed
  show ?thesis
  proof (cases "\<not> pl_claimFilteredAPIExportES pl \<and> gvr = slice_gvr")
    case True
    then show ?thesis using 3 add_fallbacks_entry [of _ ex "[slice_gvr]" set2 rt2 ns rt' gvr] by simp
  next
    case False
    then have "\<not> pl_claimsAPIBindings pl" "gvr \<in> set binding_gvrs"
      using assms(2) by (auto simp: fallback_gvrs_def split: if_splits)
    then have "\<exists>res. set2 gvr = Some (fallback_entry res)"
      using 2 add_fallbacks_entry by (auto split: if_splits)
    moreover have "ns gvr = set2 gvr"
      using 3 False add_fallbacks_at [of _ ex "[slice_gvr]" set2 rt2 ns rt' gvr] by (auto split: if_splits)
    ultimately show ?thesis by simp
  qed
qed

context reconciler_world
begin

lemma fallback_is_new:
  assumes inv: "world_inv wf origin down L sel st" and identity: "ex_IdentityHash e \<noteq> ''''"
    and plan: "make_plan c e (rs_Annotations st) = (Inr pl, an)"
    and run: "update_domain c fs e key st = (Done None, st')" and gvr: "gvr \<in> fallback_gvrs pl"
    and new: "served_def st' key gvr = Some d"
  shows "origin (rs_Definitions st) d = None"
proof -
  let ?old = "go_map (rs_apiSets st key)" and ?rt = "rs_Definitions st"
  obtain newSet rt where build: "build_set c fs e pl ?old ?rt = (Inr newSet, rt)"
    and st': "rs_apiSets st' key = Some newSet"
    using run plan by (elim update_domain_success) auto
  obtain res where entry: "newSet gvr = Some (fallback_entry res)"
    using build_set_fallback [OF build gvr] by blast
  have "wf ?rt" using inv unfolding world_inv_def by blast
  from build_set_inv [OF this world_inv_known [OF inv] build]
  have "build_inv fs e pl ?old ?rt newSet rt" by auto
  then have "kept_entry e ?old gvr (fallback_entry res) \<or> fresh_entry (origin ?rt) (fallback_entry res)"
    using set_inv_entry entry unfolding build_inv_def by metis
  then have "fresh_entry (origin ?rt) (fallback_entry res)"
    using identity by (auto simp: kept_entry_def fallback_entry_def)
  then show ?thesis using new entry by (auto simp: served_def_def st' fresh_entry_def)
qed

end

text \<open>
  A read-only fallback is never carried over: every successful reconcile serves new
  definitions for the fallback resources and tears the previous ones down, also when nothing
  changed.
\<close>

theorem fallbacks_always_replaced:
  assumes reach: "(reconcile_step be lib sel)\<^sup>*\<^sup>* (reconciler_init an) st"
    and range: "range_law (al_DefRange lib)" and identity: "ex_IdentityHash e \<noteq> ''''"
    and plan: "make_plan (NewAPIReconciler be lib v) e (rs_Annotations st) = (Inr pl, an')"
    and run: "update_domain (NewAPIReconciler be lib v) fs e key st = (Done None, st')"
    and gvr: "gvr \<in> fallback_gvrs pl" and old: "served_def st key gvr = Some d"
  shows "served_def st' key gvr \<noteq> Some d \<and> d \<in> set (ds_Torn (rs_Definitions st'))"
proof -
  note inv = vw_inv_reachable [OF reach]
  have "filtered_origin (al_Labels lib) (sel key) gvr (serves (rs_Definitions st) d)"
    using inv old unfolding world_inv_def by blast
  then have known: "serves (rs_Definitions st) d \<noteq> None" by (rule filtered_known)
  have new: "served_def st' key gvr \<noteq> Some d"
  proof
    assume "served_def st' key gvr = Some d"
    from vw.fallback_is_new [OF inv identity plan run gvr this] known show False by contradiction
  qed
  have "finite (dom (go_map (rs_apiSets st key)))"
    using reachable_finite [OF reach] by (simp add: finite_sets_def)
  then have "set (al_DefRange lib 0 (go_map (rs_apiSets st key))) = dom (go_map (rs_apiSets st key))"
    using range_lawD [OF range] is_range_set by blast
  then have "torn (rs_Definitions st') = torn (rs_Definitions st)
      \<union> {d. \<exists>gvr. served_def st key gvr = Some d \<and> served_def st' key gvr \<noteq> Some d}"
    using vw.update_domain_down [OF inv run] by simp
  then have "d \<in> torn (rs_Definitions st')" using old new by blast
  with new show ?thesis by (simp add: torn_def)
qed

theorem fallbacks_always_replaced_witness:
  "5 \<in> set (ds_Torn (rs_Definitions w_st2))"
proof -
  have old: "served_def w_st w_key slice_gvr = Some 5" by (simp add: served_def_def w_st_def w_full_set_def)
  have gvr: "slice_gvr \<in> fallback_gvrs w_plan2" by (simp add: fallback_gvrs_def w_plan2_def)
  have identity: "ex_IdentityHash w_export2 \<noteq> ''''" by (simp add: w_export2_def w_export_def)
  have range: "range_law (al_DefRange w_lib)" by (simp add: w_lib_def range_law_sorted)
  note all = fallbacks_always_replaced [OF w_reachable range identity w_make_plan2 [unfolded w_rc_def]
      w_update2(1) [unfolded w_rc_def] gvr old]
  show ?thesis by (rule conjunct2 [OF all])
qed

end
