(* ===== verification/Api_Controller.thy ===== *)
theory Api_Controller
  imports Work_Queue Api_Keep
begin

text \<open>
  \<open>controllers/apireconciler/apiexport_apireconciler_controller.go\<close>: which keys an event
  enqueues, the worker, \<open>process\<close>, the reader \<open>GetAPIDefinitionSet\<close>, and the tear-down at
  the end of \<open>Start\<close>. The functions that only enqueue return the calls they make on the
  queue.
\<close>

section \<open>Enqueueing\<close>

fun enqueue_named :: "key_api \<Rightarrow> string \<Rightarrow> slice list \<Rightarrow> queue_op list" where
  "enqueue_named K name [] = []"
| "enqueue_named K name (s # ss) =
     (if ref_Name (APIExport (Spec s)) = name
      then (case ka_SliceKey K s of Inl err \<Rightarrow> [] | Inr key \<Rightarrow> [QAdd key])
      else []) @ enqueue_named K name ss"

fun enqueue_claimers :: "key_api \<Rightarrow> kcp_view \<Rightarrow> apiexport list \<Rightarrow> queue_op list" where
  "enqueue_claimers K v [] = []"
| "enqueue_claimers K v (other # others) =
     (case kv_Slices v (ex_Cluster other) of
        Inl err \<Rightarrow> []
      | Inr filteredSlices \<Rightarrow>
          enqueue_named K (ex_Name other) filteredSlices @ enqueue_claimers K v others)"

definition enqueueFilteredAPIExportEndpointSlice :: "key_api \<Rightarrow> kcp_view \<Rightarrow> slice \<Rightarrow> queue_op list" where
  "enqueueFilteredAPIExportEndpointSlice K v filteredSlice =
     (case ka_SliceKey K filteredSlice of
        Inl err \<Rightarrow> []
      | Inr key \<Rightarrow>
          QAdd key #
          (case kv_Export v (ref_Path (APIExport (Spec filteredSlice)))
                            (ref_Name (APIExport (Spec filteredSlice))) of
             Inl err \<Rightarrow> []
           | Inr apiExport \<Rightarrow>
               if ex_IdentityHash apiExport \<noteq> '''' then
                 (case kv_ByClaimedIdentities v (ex_IdentityHash apiExport) of
                    Inl err \<Rightarrow> []
                  | Inr others \<Rightarrow> enqueue_claimers K v others)
               else []))"

text \<open>The loop of \<open>enqueueAPIResourceSchema\<close>: an error getting an export ends it.\<close>

fun enqueue_using_schema :: "key_api \<Rightarrow> kcp_view \<Rightarrow> string \<Rightarrow> slice list \<Rightarrow> queue_op list" where
  "enqueue_using_schema K v name [] = []"
| "enqueue_using_schema K v name (s # ss) =
     (case kv_Export v (ref_Path (APIExport (Spec s))) (ref_Name (APIExport (Spec s))) of
        Inl err \<Rightarrow> []
      | Inr apiExport \<Rightarrow>
          concat (map (\<lambda>r. if r = name then enqueueFilteredAPIExportEndpointSlice K v s else [])
                    (ex_Resources apiExport))
          @ enqueue_using_schema K v name ss)"

definition enqueueAPIResourceSchema :: "key_api \<Rightarrow> kcp_view \<Rightarrow> APIResourceSchema \<Rightarrow> queue_op list" where
  "enqueueAPIResourceSchema K v apiResourceSchema =
     (case ka_SchemaKey K apiResourceSchema of
        Inl err \<Rightarrow> []
      | Inr key \<Rightarrow>
          (case ka_SplitKey K key of
             Inl err \<Rightarrow> []
           | Inr (clusterName, _, _) \<Rightarrow>
               (case kv_Slices v clusterName of
                  Inl err \<Rightarrow> []
                | Inr filteredSlices \<Rightarrow>
                    if length filteredSlices = 0 then []
                    else enqueue_using_schema K v (sc_Name apiResourceSchema) filteredSlices)))"

definition enqueueAPIExport :: "key_api \<Rightarrow> kcp_view \<Rightarrow> apiexport \<Rightarrow> queue_op list" where
  "enqueueAPIExport K v apiExport =
     (case ka_ExportKey K apiExport of
        Inl err \<Rightarrow> []
      | Inr key \<Rightarrow>
          (case ka_SplitKey K key of
             Inl err \<Rightarrow> []
           | Inr (clusterName, _, _) \<Rightarrow>
               (case kv_Slices v clusterName of
                  Inl err \<Rightarrow> []
                | Inr filteredSlices \<Rightarrow>
                    if length filteredSlices = 0 then []
                    else concat (map (\<lambda>s. if ref_Name (APIExport (Spec s)) = ex_Name apiExport
                                          then enqueueFilteredAPIExportEndpointSlice K v s else [])
                                   filteredSlices))))"

text \<open>
  The event handlers. \<open>obj.(*T)\<close> panics (\<open>None\<close>) on an object of another type, such as
  the \<open>DeletedFinalStateUnknown\<close> an informer hands over when it missed a deletion.
\<close>

definition on_slice_event :: "key_api \<Rightarrow> kcp_view \<Rightarrow> slice delivered \<Rightarrow> queue_op list option" where
  "on_slice_event K v obj =
     (case obj of
        Object s \<Rightarrow> Some (enqueueFilteredAPIExportEndpointSlice K v s)
      | DeletedFinalStateUnknown _ \<Rightarrow> None)"

definition on_export_event :: "key_api \<Rightarrow> kcp_view \<Rightarrow> apiexport delivered \<Rightarrow> queue_op list option" where
  "on_export_event K v obj =
     (case obj of
        Object e \<Rightarrow> Some (enqueueAPIExport K v e)
      | DeletedFinalStateUnknown _ \<Rightarrow> None)"

definition on_schema_event ::
    "key_api \<Rightarrow> kcp_view \<Rightarrow> APIResourceSchema delivered \<Rightarrow> queue_op list option" where
  "on_schema_event K v obj =
     (case obj of
        Object s \<Rightarrow> Some (enqueueAPIResourceSchema K v s)
      | DeletedFinalStateUnknown _ \<Rightarrow> None)"

section \<open>The worker\<close>

definition process ::
    "key_api \<Rightarrow> ('rt, 'sel, 'req) reconciler \<Rightarrow> string \<Rightarrow> 'rt reconciler_state
      \<Rightarrow> outcome \<times> 'rt reconciler_state" where
  "process K c key st =
     (case ka_SplitKey K key of
        Inl err \<Rightarrow> (Done None, st)
      | Inr (clusterName, _, filteredAPIExportESName) \<Rightarrow>
          let apiDomainKey = clusterName @ ''/'' @ filteredAPIExportESName in
          (case kv_Slice (rc_view c) clusterName filteredAPIExportESName of
             Inl err \<Rightarrow>
               if \<not> IsNotFound err then (Done None, st)
               else reconcile c None apiDomainKey st
           | Inr filteredAPIExportES \<Rightarrow> reconcile c (Some filteredAPIExportES) apiDomainKey st))"

definition processNextWorkItem ::
    "key_api \<Rightarrow> ('rt, 'sel, 'req) reconciler \<Rightarrow> string option \<Rightarrow> 'rt reconciler_state
      \<Rightarrow> bool option \<times> queue_op list \<times> 'rt reconciler_state" where
  "processNextWorkItem K c got st =
     (case got of
        None \<Rightarrow> (Some False, [], st)
      | Some key \<Rightarrow>
          (case process K c key st of
             (Panic, st') \<Rightarrow> (None, [QDone key], st')
           | (Done (Some err), st') \<Rightarrow> (Some True, [QAddRateLimited key, QDone key], st')
           | (Done None, st') \<Rightarrow> (Some True, [QForget key, QDone key], st')))"

interpretation api_worker: worker "process K c" "processNextWorkItem K c"
  by unfold_locales (simp_all add: processNextWorkItem_def)

definition api_startWorker ::
    "key_api \<Rightarrow> ('rt, 'sel, 'req) reconciler \<Rightarrow> (nat \<Rightarrow> string option) \<Rightarrow> 'rt reconciler_state
      \<Rightarrow> (bool \<times> nat \<times> 'rt reconciler_state) option" where
  "api_startWorker K c gets st = startWorker (processNextWorkItem K c) gets 0 st"

definition GetAPIDefinitionSet ::
    "'rt reconciler_state \<Rightarrow> string \<Rightarrow> api_set \<times> bool \<times> go_error option" where
  "GetAPIDefinitionSet st key =
     (case rs_apiSets st key of
        None \<Rightarrow> (Map.empty, False, None)
      | Some apiSet \<Rightarrow> (apiSet, True, None))"

text \<open>
  The deferred function of \<open>Start\<close>: tear everything down, in the order the ranges over
  the two maps give; \<open>False\<close> is a panic on a nil definition.
\<close>

fun tear_down_set ::
    "('rt, 'sel, 'req) reconciler \<Rightarrow> api_set \<Rightarrow> group_version_resource list \<Rightarrow> 'rt \<Rightarrow> bool \<times> 'rt" where
  "tear_down_set c apis [] rt = (True, rt)"
| "tear_down_set c apis (gvr # gvrs) rt =
     (case apis gvr of
        None \<Rightarrow> tear_down_set c apis gvrs rt
      | Some e \<Rightarrow>
          (case de_Definition e of
             None \<Rightarrow> (False, rt)
           | Some d \<Rightarrow> tear_down_set c apis gvrs (rc_TearDown c d rt)))"

fun stop_reconciler ::
    "('rt, 'sel, 'req) reconciler \<Rightarrow> (string \<rightharpoonup> api_set) \<Rightarrow> string list \<Rightarrow> 'rt \<Rightarrow> bool \<times> 'rt" where
  "stop_reconciler c sets [] rt = (True, rt)"
| "stop_reconciler c sets (key # keys) rt =
     (case sets key of
        None \<Rightarrow> stop_reconciler c sets keys rt
      | Some apis \<Rightarrow>
          (case tear_down_set c apis (al_DefRange (rc_lib c) 0 apis) rt of
             (False, rt') \<Rightarrow> (False, rt')
           | (True, rt') \<Rightarrow> stop_reconciler c sets keys rt'))"


section \<open>Properties\<close>

definition w_keys :: key_api where [world]:
  "w_keys = \<lparr>
     ka_SliceKey = (\<lambda>s. if CHR ''|'' \<in> set (sl_Cluster s) then Inl (Err (Str ''bad name''))
                        else Inr (sl_Cluster s @ ''|'' @ sl_Name s)),
     ka_ExportKey = (\<lambda>e. if CHR ''|'' \<in> set (ex_Cluster e) then Inl (Err (Str ''bad name''))
                         else Inr (ex_Cluster e @ ''|'' @ ex_Name e)),
     ka_SchemaKey = (\<lambda>s. Inr (''prov|'' @ sc_Name s)),
     ka_SplitKey = (\<lambda>k. case k of [] \<Rightarrow> Inl (Err (Str ''bad key''))
        | _ \<Rightarrow> Inr (takeWhile (\<lambda>x. x \<noteq> CHR ''|'') k, '''', tl (dropWhile (\<lambda>x. x \<noteq> CHR ''|'') k)))\<rparr>"

lemma w_keys_law [simp]: "keys_law w_keys"
proof -
  have "ka_SplitKey w_keys (c @ ''|'' @ n) = Inr (c, '''', n)" if "CHR ''|'' \<notin> set c" for c n
    using that by (cases c) (auto simp: w_keys_def)
  then show ?thesis
    by (auto simp: keys_law_def w_keys_def simp del: append.simps split: if_splits)
qed

text \<open>
  A key taken from the queue is marked done once, forgotten when processing succeeded and
  added again when it failed.
\<close>

theorem item_handling:
  assumes "processNextWorkItem K c (Some key) st = (r, ops, st')"
  shows "count_list ops (QDone key) = 1 \<and> last ops = QDone key
    \<and> (QAddRateLimited key \<in> set ops \<longleftrightarrow> (\<exists>e. fst (process K c key st) = Done (Some e)))
    \<and> (QForget key \<in> set ops \<longleftrightarrow> fst (process K c key st) = Done None)
    \<and> st' = snd (process K c key st)"
  using api_worker.done_once [OF assms] api_worker.retried_iff_failed [OF assms]
    api_worker.state_is_process [of K c key st] assms by simp

theorem item_handling_witness:
  "QForget '''' \<in> set (fst (snd (processNextWorkItem w_keys w_rc (Some '''') w_st0)))"
proof -
  have p: "process w_keys w_rc '''' w_st0 = (Done None, w_st0)"
    by (simp add: process_def w_keys_def)
  then have "processNextWorkItem w_keys w_rc (Some '''') w_st0 = (Some True, [QForget '''', QDone ''''], w_st0)"
    by (simp add: processNextWorkItem_def)
  from item_handling [OF this] this p show ?thesis by simp
qed

text \<open>
  C23: The worker returns exactly when some item it gets is the shut-down of the queue or
  makes processing panic; it has then handled exactly the items before the first such one, in
  order, and ends normally only on the shut-down.
\<close>

theorem worker_loop_termination:
  "((\<exists>r. api_startWorker K c gets st = Some r) \<longleftrightarrow> (\<exists>n. stops (process K c) gets 0 st n))
   \<and> (stops (process K c) gets 0 st n \<and> (\<forall>m<n. \<not> stops (process K c) gets 0 st m) \<longrightarrow>
        (\<exists>st'. api_startWorker K c gets st = Some (gets n = None, n, st')
           \<and> (gets n = None \<longrightarrow> st' = state_after (process K c) gets 0 n st)))"
  using api_worker.worker_returns_iff [of K c gets 0 st] api_worker.worker_at_first_stop [of K c gets 0 st n]
  by (simp add: api_startWorker_def)

theorem worker_loop_termination_witness:
  "api_startWorker w_keys w_rc (\<lambda>i. if i = 0 then Some '''' else None) w_st0 = Some (True, 1, w_st0)"
proof -
  let ?gets = "\<lambda>i. if i = (0::nat) then Some '''' else None"
  have p: "process w_keys w_rc '''' w_st0 = (Done None, w_st0)"
    by (simp add: process_def w_keys_def)
  have "stops (process w_keys w_rc) ?gets 0 w_st0 1" by (simp add: stops_def)
  moreover have "\<not> stops (process w_keys w_rc) ?gets 0 w_st0 0" by (simp add: stops_def p)
  ultimately show ?thesis
    using worker_loop_termination [of w_keys w_rc ?gets w_st0 1] by (simp add: p)
qed

lemma enqueue_slice_first:
  "ka_SliceKey K s = Inr k \<Longrightarrow> QAdd k \<in> set (enqueueFilteredAPIExportEndpointSlice K v s)"
  by (simp only: enqueueFilteredAPIExportEndpointSlice_def sum.case list.set insert_iff simp_thms)

lemma enqueue_named_all:
  "s \<in> set ss \<Longrightarrow> ref_Name (APIExport (Spec s)) = n \<Longrightarrow> ka_SliceKey K s = Inr k \<Longrightarrow>
     QAdd k \<in> set (enqueue_named K n ss)"
proof (induction ss)
  case (Cons s' ss)
  show ?case
  proof (cases "s' = s")
    case True
    with Cons.prems have "enqueue_named K n (s' # ss) = QAdd k # enqueue_named K n ss" by simp
    then show ?thesis by simp
  next
    case False
    with Cons have "QAdd k \<in> set (enqueue_named K n ss)" by simp
    then show ?thesis unfolding enqueue_named.simps set_append by blast
  qed
qed simp

lemma enqueue_claimers_all:
  "other \<in> set others \<Longrightarrow> kv_Slices v (ex_Cluster other) = Inr ss \<Longrightarrow> s \<in> set ss \<Longrightarrow>
     (\<forall>o' \<in> set others. \<exists>ss'. kv_Slices v (ex_Cluster o') = Inr ss') \<Longrightarrow>
     ref_Name (APIExport (Spec s)) = ex_Name other \<Longrightarrow> ka_SliceKey K s = Inr k \<Longrightarrow>
     QAdd k \<in> set (enqueue_claimers K v others)"
proof (induction others)
  case (Cons o' others)
  then show ?case using enqueue_named_all [of s ss "ex_Name other" K k]
    by (auto split: sum.splits)
qed simp

text \<open>
  An event of an APIExport enqueues every slice of the cluster of the export that refers to it
  by name.
\<close>

theorem export_event_reaches_slices:
  assumes law: "keys_law K" and key: "ka_ExportKey K e = Inr ek"
    and slices: "kv_Slices v (ex_Cluster e) = Inr ss" and s: "s \<in> set ss"
    and name: "ref_Name (APIExport (Spec s)) = ex_Name e" and k: "ka_SliceKey K s = Inr k"
  shows "QAdd k \<in> set (enqueueAPIExport K v e)"
proof -
  have "ka_SplitKey K ek = Inr (ex_Cluster e, '''', ex_Name e)"
    using law key unfolding keys_law_def by blast
  with key slices s name enqueue_slice_first [OF k] show ?thesis
    by (auto simp: enqueueAPIExport_def)
qed

theorem export_event_reaches_slices_witness:
  "QAdd ''prov|es'' \<in> set (enqueueAPIExport w_keys w_view w_export)"
  by (rule export_event_reaches_slices [of w_keys w_export "''prov|exp''" w_view "[w_slice]" w_slice])
    (simp, simp_all add: w_keys_def w_view_def w_slice_def w_export_def)

text \<open>
  An event of a slice enqueues it, and the slices of the exports that claim the identity of
  its export.
\<close>

theorem claimers_are_enqueued:
  assumes key: "ka_SliceKey K s0 = Inr k0"
    and export: "kv_Export v (ref_Path (APIExport (Spec s0))) (ref_Name (APIExport (Spec s0))) = Inr e"
      "ex_IdentityHash e \<noteq> ''''"
    and others: "kv_ByClaimedIdentities v (ex_IdentityHash e) = Inr others" "other \<in> set others"
      "\<forall>o' \<in> set others. \<exists>ss. kv_Slices v (ex_Cluster o') = Inr ss"
    and s: "kv_Slices v (ex_Cluster other) = Inr ss" "s \<in> set ss"
      "ref_Name (APIExport (Spec s)) = ex_Name other" "ka_SliceKey K s = Inr k"
  shows "{QAdd k0, QAdd k} \<subseteq> set (enqueueFilteredAPIExportEndpointSlice K v s0)"
  using enqueue_claimers_all [of other others v ss s K k] assms
  by (simp add: enqueueFilteredAPIExportEndpointSlice_def)

definition w_gadget_slice :: slice where [world]:
  "w_gadget_slice = w_slice\<lparr>sl_Name := ''ges'', sl_Cluster := ''gprov'',
     Spec := (Spec w_slice)\<lparr>APIExport := \<lparr>ref_Path = ''gprov'', ref_Name = ''gexp''\<rparr>\<rparr>\<rparr>"

theorem claimers_are_enqueued_witness:
  "{QAdd ''gprov|ges'', QAdd ''prov|es''} \<subseteq> set (enqueueFilteredAPIExportEndpointSlice w_keys w_view w_gadget_slice)"
  by (rule claimers_are_enqueued [of w_keys w_gadget_slice "''gprov|ges''" w_view w_gadget_export
        "[w_export]" w_export "[w_slice]" w_slice "''prov|es''"])
    (simp_all add: w_keys_def w_view_def w_slice_def w_gadget_slice_def w_export_def w_gadget_export_def
      w_exports_def)

text \<open>
  An event of an APIResourceSchema enqueues nothing at all when the export of the first listed
  slice is missing, whatever slices follow.
\<close>

theorem schema_event_stops_at_missing_export:
  assumes "ka_SchemaKey K sch = Inr key" "ka_SplitKey K key = Inr (cl, ns, n)"
    and "kv_Slices v cl = Inr (s # ss)"
    and "kv_Export v (ref_Path (APIExport (Spec s))) (ref_Name (APIExport (Spec s))) = Inl (NotFound m)"
  shows "enqueueAPIResourceSchema K v sch = []"
  using assms by (simp add: enqueueAPIResourceSchema_def)

definition w_orphan :: slice where [world]:
  "w_orphan = w_slice\<lparr>Spec := (Spec w_slice)\<lparr>APIExport := \<lparr>ref_Path = ''gone'', ref_Name = ''gone''\<rparr>\<rparr>\<rparr>"

definition w_view_orphan :: kcp_view where [world]:
  "w_view_orphan = w_view\<lparr>kv_Slices := (\<lambda>c. Inr [w_orphan, w_slice])\<rparr>"

lemma w_orphan_export: "APIExport (Spec w_orphan) = \<lparr>ref_Path = ''gone'', ref_Name = ''gone''\<rparr>"
  by (simp add: w_orphan_def)

theorem schema_event_stops_at_missing_export_witness:
  "enqueueAPIResourceSchema w_keys w_view_orphan w_widgets = []
   \<and> enqueueAPIResourceSchema w_keys w_view w_widgets \<noteq> []"
proof -
  have "enqueueAPIResourceSchema w_keys w_view_orphan w_widgets = []"
    by (rule schema_event_stops_at_missing_export [of _ _ "''prov|v1.widgets''" "''prov''" "''''" "''v1.widgets''"
          _ w_orphan "[w_slice]" "Str ''gone''"])
      (simp_all add: w_keys_def w_view_orphan_def w_view_def w_widgets_def w_exports_def w_orphan_export)
  moreover have "QAdd ''prov|es'' \<in> set (enqueueAPIResourceSchema w_keys w_view w_widgets)"
    by (simp add: enqueueAPIResourceSchema_def w_keys_def w_view_def w_widgets_def w_slice_def w_exports_def
        w_export_def enqueueFilteredAPIExportEndpointSlice_def)
  ultimately show ?thesis by auto
qed


section \<open>Readers and the end of the worker\<close>

text \<open>
  Before the final assignment under the mutex, \<open>reconcile\<close> has changed everything except
  the map: that is the state other goroutines see while the old definitions are torn down.
\<close>

definition before_commit :: "'rt reconciler_state \<Rightarrow> 'rt reconciler_state \<Rightarrow> 'rt reconciler_state" where
  "before_commit st st' = st'\<lparr>rs_apiSets := rs_apiSets st\<rparr>"

lemma update_domain_commits:
  "update_domain c fs e key st = (Done None, st') \<Longrightarrow>
     \<exists>newSet. st' = (before_commit st st')\<lparr>rs_apiSets := (rs_apiSets st)(key \<mapsto> newSet)\<rparr>"
  by (erule update_domain_success) (cases st, auto simp: before_commit_def)

text \<open>
  C25: Between the clean-up and the commit of a refresh, a concurrent reader of the served set
  still gets a definition that has been torn down.
\<close>

theorem reader_sees_torn_definitions:
  assumes reach: "(reconcile_step be lib sel)\<^sup>*\<^sup>* (reconciler_init an) st"
    and range: "range_law (al_DefRange lib)"
    and run: "update_domain (NewAPIReconciler be lib v) fs e key st = (Done None, st')"
    and dropped: "served_def st key gvr = Some d" "served_def st' key gvr \<noteq> Some d"
  shows "\<exists>apis entry. GetAPIDefinitionSet (before_commit st st') key = (apis, True, None)
    \<and> apis gvr = Some entry \<and> de_Definition entry = Some d
    \<and> d \<in> set (ds_Torn (rs_Definitions (before_commit st st')))"
proof -
  have "finite (dom (go_map (rs_apiSets st key)))"
    using reachable_finite [OF reach] by (simp add: finite_sets_def)
  then have "set (al_DefRange lib 0 (go_map (rs_apiSets st key))) = dom (go_map (rs_apiSets st key))"
    using range_lawD [OF range] is_range_set by blast
  with vw.update_domain_down [OF vw_inv_reachable [OF reach] run] dropped
  have "d \<in> set (ds_Torn (rs_Definitions st'))" by (auto simp: torn_def)
  moreover obtain apis entry where "rs_apiSets st key = Some apis" "apis gvr = Some entry"
      "de_Definition entry = Some d"
    using dropped(1) by (auto simp: served_def_def split: option.splits)
  ultimately show ?thesis by (simp add: before_commit_def GetAPIDefinitionSet_def)
qed

theorem reader_sees_torn_definitions_witness:
  "\<exists>apis entry. GetAPIDefinitionSet (before_commit w_st w_st2) w_key = (apis, True, None)
    \<and> apis (schema_gvr w_cm_schema ''v1'') = Some entry \<and> de_Definition entry = Some 0
    \<and> 0 \<in> set (ds_Torn (rs_Definitions (before_commit w_st w_st2)))"
proof (rule reader_sees_torn_definitions [OF w_reachable])
  show "range_law (al_DefRange w_lib)" by (simp add: w_lib_def)
  show "update_domain (NewAPIReconciler w_be w_lib w_view) w_slice w_export2 w_key w_st = (Done None, w_st2)"
    using w_update2(1) by (simp add: w_rc_def)
qed (simp_all add: w_served2)

context reconciler_world
begin

lemma tear_down_set_down:
  "wf rt \<Longrightarrow> old_known (origin rt) apis \<Longrightarrow> tear_down_set c apis gvrs rt = (ok, rt') \<Longrightarrow>
     wf rt' \<and> origin rt' = origin rt \<and> down rt \<subseteq> down rt'
     \<and> (ok \<longrightarrow> (\<forall>gvr \<in> set gvrs. \<forall>e d. apis gvr = Some e \<longrightarrow> de_Definition e = Some d \<longrightarrow> d \<in> down rt'))"
proof (induction gvrs arbitrary: rt)
  case (Cons gvr gvrs)
  show ?case
  proof (cases "apis gvr")
    case None
    then show ?thesis using Cons by auto
  next
    case (Some e)
    show ?thesis
    proof (cases "de_Definition e")
      case None
      then show ?thesis using Cons.prems Some by simp
    next
      case d: (Some d)
      have "origin rt d \<noteq> None" using Cons.prems(2) Some d unfolding old_known_def by blast
      note tear = tear_ok [OF Cons.prems(1) this]
      have run: "tear_down_set c apis gvrs (rc_TearDown c d rt) = (ok, rt')"
        using Cons.prems(3) Some d by simp
      have "old_known (origin (rc_TearDown c d rt)) apis" using tear Cons.prems(2) by simp
      from Cons.IH [OF conjunct1 [OF tear] this run] tear Some d show ?thesis by auto
    qed
  qed
qed auto

lemma stop_reconciler_down:
  "wf rt \<Longrightarrow> (\<And>key apis. sets key = Some apis \<Longrightarrow> old_known (origin rt) apis) \<Longrightarrow>
     (\<And>key apis. sets key = Some apis \<Longrightarrow> set (al_DefRange (rc_lib c) 0 apis) = dom apis) \<Longrightarrow>
     stop_reconciler c sets keys rt = (ok, rt') \<Longrightarrow>
     wf rt' \<and> origin rt' = origin rt \<and> down rt \<subseteq> down rt'
     \<and> (ok \<longrightarrow> (\<forall>key \<in> set keys. \<forall>apis gvr e d. sets key = Some apis \<longrightarrow> apis gvr = Some e \<longrightarrow>
          de_Definition e = Some d \<longrightarrow> d \<in> down rt'))"
proof (induction keys arbitrary: rt)
  case (Cons key keys)
  show ?case
  proof (cases "sets key")
    case None
    then show ?thesis using Cons by auto
  next
    case (Some apis)
    obtain ok1 rt1 where t: "tear_down_set c apis (al_DefRange (rc_lib c) 0 apis) rt = (ok1, rt1)" by force
    note td = tear_down_set_down [OF Cons.prems(1) Cons.prems(2) [OF Some] t]
    show ?thesis
    proof (cases ok1)
      case False
      then show ?thesis using Cons.prems(4) Some t td by simp
    next
      case True
      then have run: "stop_reconciler c sets keys rt1 = (ok, rt')" using Cons.prems(4) Some t by simp
      have "wf rt' \<and> origin rt' = origin rt1 \<and> down rt1 \<subseteq> down rt'
        \<and> (ok \<longrightarrow> (\<forall>key \<in> set keys. \<forall>apis gvr e d. sets key = Some apis \<longrightarrow> apis gvr = Some e \<longrightarrow>
             de_Definition e = Some d \<longrightarrow> d \<in> down rt'))"
        by (rule Cons.IH [OF _ _ Cons.prems(3) run]) (use td Cons.prems(2) in auto)
      moreover have "d \<in> down rt1" if "apis gvr = Some e" "de_Definition e = Some d" for gvr e d
        using td True Cons.prems(3) [OF Some] that by blast
      ultimately show ?thesis using td Some by auto
    qed
  qed
qed auto

end

text \<open>What a complete tear-down of a reachable state does.\<close>

lemma stop_reconciler_effect:
  assumes reach: "(reconcile_step be lib sel)\<^sup>*\<^sup>* (reconciler_init an) st"
    and range: "range_law (al_DefRange lib)"
    and stop: "stop_reconciler (NewAPIReconciler be lib v) (rs_apiSets st) keys (rs_Definitions st) = (True, rt')"
    and keys: "set keys = dom (rs_apiSets st)"
  shows "defs_wf rt'" and "serves rt' = serves (rs_Definitions st)"
    and "served_def st key gvr = Some d \<Longrightarrow> d \<in> torn rt'"
proof -
  note inv = vw_inv_reachable [OF reach]
  have wf: "defs_wf (rs_Definitions st)" using inv unfolding world_inv_def by blast
  have known: "old_known (serves (rs_Definitions st)) apis" if "rs_apiSets st k = Some apis" for k apis
    using vw.world_inv_known [OF inv, of k] that by simp
  have ranges: "set (al_DefRange (rc_lib (NewAPIReconciler be lib v)) 0 apis) = dom apis"
    if "rs_apiSets st k = Some apis" for k apis
  proof -
    have "finite (dom (go_map (rs_apiSets st k)))"
      using reachable_finite [OF reach] by (simp add: finite_sets_def)
    then have "is_range (al_DefRange lib 0 apis) apis" using that range_lawD [OF range] by simp
    then show ?thesis using is_range_set by simp
  qed
  have down: "defs_wf rt' \<and> serves rt' = serves (rs_Definitions st) \<and> torn (rs_Definitions st) \<subseteq> torn rt'
    \<and> (True \<longrightarrow> (\<forall>key \<in> set keys. \<forall>apis gvr e d. rs_apiSets st key = Some apis \<longrightarrow> apis gvr = Some e \<longrightarrow>
         de_Definition e = Some d \<longrightarrow> d \<in> torn rt'))"
    by (rule vw.stop_reconciler_down [OF wf _ _ stop]) (fact known, fact ranges)
  show "defs_wf rt'" "serves rt' = serves (rs_Definitions st)" using down by blast+
  assume "served_def st key gvr = Some d"
  then obtain apis e where "rs_apiSets st key = Some apis" "apis gvr = Some e" "de_Definition e = Some d"
    by (auto simp: served_def_def split: option.splits)
  moreover from this have "key \<in> set keys" using keys by auto
  ultimately show "d \<in> torn rt'" using down by blast
qed

text \<open>
  When the controller stops without a panic, every definition that is still served has been
  torn down.
\<close>

theorem stop_tears_down_all_served:
  assumes reach: "(reconcile_step be lib sel)\<^sup>*\<^sup>* (reconciler_init an) st"
    and range: "range_law (al_DefRange lib)"
    and stop: "stop_reconciler (NewAPIReconciler be lib v) (rs_apiSets st) keys (rs_Definitions st) = (True, rt')"
    and keys: "set keys = dom (rs_apiSets st)"
    and served: "served_def st key gvr = Some d"
  shows "d \<in> set (ds_Torn rt')"
  using stop_reconciler_effect(3) [OF reach range stop keys served] by (simp add: torn_def)

lemma tear_down_set_no_nil:
  assumes "\<And>g e. apis g = Some e \<Longrightarrow> de_Definition e \<noteq> None"
  shows "fst (tear_down_set c apis gvrs rt) = True"
proof (induction gvrs arbitrary: rt)
  case (Cons gvr gvrs)
  show ?case
  proof (cases "apis gvr")
    case (Some e)
    then obtain d where "de_Definition e = Some d" using assms by blast
    with Some Cons show ?thesis by simp
  qed (use Cons in simp)
qed simp

theorem stop_tears_down_all_served_witness:
  "1 \<in> set (ds_Torn (snd (stop_reconciler w_rc (rs_apiSets w_st) [w_key] w_rt)))"
proof -
  have "fst (tear_down_set w_rc w_full_set (sorted_range 0 w_full_set) w_rt) = True"
    by (rule tear_down_set_no_nil) (auto simp: w_full_set_def w_set_def split: if_splits)
  then have stop: "stop_reconciler w_rc (rs_apiSets w_st) [w_key] w_rt
      = (True, snd (stop_reconciler w_rc (rs_apiSets w_st) [w_key] w_rt))"
    by (cases "tear_down_set w_rc w_full_set (sorted_range 0 w_full_set) w_rt") (simp add: w_st_def)
  have "range_law (al_DefRange w_lib)" by (simp add: w_lib_def)
  from stop_tears_down_all_served [OF w_reachable this _ _ w_served, of w_view "[w_key]"] stop
  show ?thesis by (simp add: w_rc_def w_st_def)
qed

end
