(* ===== verification/Endpoint_Slice.thy ===== *)
theory Endpoint_Slice
  imports Work_Queue
begin

text \<open>
  The endpoint slice controller: \<open>internal/reconciler/endpointslice\<close> and the index of
  \<open>internal/indexers/indexers.go\<close>. It keeps the condition \<open>APIExportValid\<close> of every
  endpoint slice up to date.

  A logical cluster path is its string (\<open>NewPath\<close> and \<open>String\<close> are inverse, and a path
  is \<open>Empty\<close> when its string is); \<open>Join\<close> is a parameter. Parameters from kcp and
  client-go: the condition helpers \<open>MarkTrue\<close>/\<open>MarkFalse\<close> with their documented effect
  (\<open>conditions_law\<close>), the committer, and the informer's index (\<open>index_law\<close>).
\<close>

section \<open>The index\<close>

definition IndexFilteredAPIExportEndpointSliceByAPIExport ::
    "(string \<Rightarrow> string \<Rightarrow> string) \<Rightarrow> slice option \<Rightarrow> string list \<times> go_error option" where
  "IndexFilteredAPIExportEndpointSliceByAPIExport Join obj =
     (case obj of
        None \<Rightarrow> ([], Some (Errorf ''obj %T is not a FilteredAPIExportEndpointSlice'' []))
      | Some s \<Rightarrow>
          let pathRemote = ref_Path (APIExport (Spec s));
              pathLocal = sl_Cluster s;
              name = ref_Name (APIExport (Spec s))
          in ((if pathRemote \<noteq> '''' then [Join pathRemote name] else [])
              @ (if pathLocal \<noteq> '''' then [Join pathLocal name] else []), None))"

section \<open>Reconciling the condition\<close>

definition ConditionSeverityError :: string where
  "ConditionSeverityError = ''Error''"

record conditions_api =
  co_MarkTrue :: "slice \<Rightarrow> string \<Rightarrow> slice"
  co_MarkFalse :: "slice \<Rightarrow> string \<Rightarrow> string \<Rightarrow> string \<Rightarrow> message \<Rightarrow> slice"

type_synonym export_by_path = "string \<Rightarrow> string \<Rightarrow> go_error + apiexport"

definition endpoints_reconcile ::
    "conditions_api \<Rightarrow> export_by_path \<Rightarrow> slice \<Rightarrow> slice \<times> go_error option" where
  "endpoints_reconcile C getAPIExport es =
     (let apiExportPath = (if ref_Path (APIExport (Spec es)) = '''' then sl_Cluster es
                           else ref_Path (APIExport (Spec es)));
          name = ref_Name (APIExport (Spec es));
          msg = Sprintf ''Error getting APIExport %s|%s'' [Str apiExportPath, Str name]
      in case getAPIExport apiExportPath name of
           Inl err \<Rightarrow>
             if IsNotFound err
             then (co_MarkFalse C es APIExportValid APIExportNotFoundReason ConditionSeverityError msg, None)
             else (co_MarkFalse C es APIExportValid InternalErrorReason ConditionSeverityError msg, Some err)
         | Inr _ \<Rightarrow> (co_MarkTrue C es APIExportValid, None))"

definition get_condition :: "string \<Rightarrow> slice \<Rightarrow> condition option" where
  "get_condition t s = find (\<lambda>c. cond_Type c = t) (GetConditions s)"

definition conditions_law :: "conditions_api \<Rightarrow> bool" where
  "conditions_law C \<longleftrightarrow>
     (\<forall>s t. \<exists>c. get_condition t (co_MarkTrue C s t) = Some c \<and> cond_Status c = ConditionTrue)
     \<and> (\<forall>s t r v m. \<exists>c. get_condition t (co_MarkFalse C s t r v m) = Some c
          \<and> cond_Status c = ConditionFalse \<and> cond_Reason c = r \<and> cond_Severity c = v \<and> cond_Message c = m)
     \<and> (\<forall>s t r v m. Spec (co_MarkTrue C s t) = Spec s \<and> Spec (co_MarkFalse C s t r v m) = Spec s)
     \<and> (\<forall>s t t' r v m. t' \<noteq> t \<longrightarrow> get_condition t' (co_MarkTrue C s t) = get_condition t' s
          \<and> get_condition t' (co_MarkFalse C s t r v m) = get_condition t' s)"

section \<open>The controller\<close>

record es_env =
  en_Keys :: key_api
  en_getSlice :: "string \<Rightarrow> string \<Rightarrow> go_error + slice"
  en_getAPIExport :: export_by_path
  en_Conditions :: conditions_api
  en_Commit :: "slice \<Rightarrow> slice \<Rightarrow> go_error option"
  en_IndexKeys :: "string \<Rightarrow> go_error + string list"
  en_GetByKey :: "string \<Rightarrow> go_error + slice option"
  en_Join :: "string \<Rightarrow> string \<Rightarrow> string"

definition es_enqueue :: "es_env \<Rightarrow> slice \<Rightarrow> queue_op list" where
  "es_enqueue env s = (case ka_SliceKey (en_Keys env) s of Inl err \<Rightarrow> [] | Inr key \<Rightarrow> [QAdd key])"

fun enqueue_keys :: "es_env \<Rightarrow> string list \<Rightarrow> queue_op list" where
  "enqueue_keys env [] = []"
| "enqueue_keys env (key # keys) =
     (case en_GetByKey env key of
        Inl err \<Rightarrow> []
      | Inr None \<Rightarrow> []
      | Inr (Some s) \<Rightarrow> es_enqueue env s) @ enqueue_keys env keys"

text \<open>\<open>sets.List\<close> of the collected keys: each once, in order.\<close>

definition enqueueFilteredAPIExportEndpointSlicesForAPIExport :: "es_env \<Rightarrow> apiexport \<Rightarrow> queue_op list" where
  "enqueueFilteredAPIExportEndpointSlicesForAPIExport env export =
     (let path = ex_PathAnnotation export in
      case (if path \<noteq> '''' then en_IndexKeys env (en_Join env path (ex_Name export)) else Inr []) of
        Inl err \<Rightarrow> []
      | Inr pathKeys \<Rightarrow>
          (case en_IndexKeys env (en_Join env (ex_Cluster export) (ex_Name export)) of
             Inl err \<Rightarrow> []
           | Inr clusterKeys \<Rightarrow> enqueue_keys env (sort (remdups (pathKeys @ clusterKeys)))))"

text \<open>
  The event handlers. \<open>tombstone.Obj\<close> of kcp is a parameter; it is documented to return the
  object, or the one in a tombstone (\<open>tombstone_law\<close>). For exports only additions and deletions
  are handled: the condition depends on the existence of the export.
\<close>

definition tombstone_law :: "('o delivered \<Rightarrow> 'o) \<Rightarrow> bool" where
  "tombstone_law Obj \<longleftrightarrow> (\<forall>x. Obj (Object x) = x \<and> Obj (DeletedFinalStateUnknown x) = x)"

definition es_on_slice_event :: "(slice delivered \<Rightarrow> slice) \<Rightarrow> es_env \<Rightarrow> slice delivered \<Rightarrow> queue_op list" where
  "es_on_slice_event Obj env obj = es_enqueue env (Obj obj)"

datatype export_event = ExportAdded "apiexport delivered" | ExportDeleted "apiexport delivered"

definition es_on_export_event ::
    "(apiexport delivered \<Rightarrow> apiexport) \<Rightarrow> es_env \<Rightarrow> export_event \<Rightarrow> queue_op list" where
  "es_on_export_event Obj env e =
     (case e of
        ExportAdded obj \<Rightarrow> enqueueFilteredAPIExportEndpointSlicesForAPIExport env (Obj obj)
      | ExportDeleted obj \<Rightarrow> enqueueFilteredAPIExportEndpointSlicesForAPIExport env (Obj obj))"

text \<open>A missed deletion enqueues the same keys as a deletion that was seen.\<close>

lemma es_tombstones:
  "tombstone_law O1 \<Longrightarrow> es_on_slice_event O1 env (DeletedFinalStateUnknown s) = es_on_slice_event O1 env (Object s)"
  "tombstone_law O2 \<Longrightarrow> es_on_export_event O2 env (ExportDeleted (DeletedFinalStateUnknown x))
     = es_on_export_event O2 env (ExportDeleted (Object x))"
  by (simp_all add: tombstone_law_def es_on_slice_event_def es_on_export_event_def)

text \<open>
  \<open>InstallIndexers\<close>: an index function \<open>'f\<close> by name is added to the indexers of both informers;
  \<open>AddIfNotPresentOrDie\<close> of kcp is a parameter.
\<close>

definition FilteredAPIExportEndpointSliceByAPIExport :: string where
  "FilteredAPIExportEndpointSliceByAPIExport = ''FilteredAPIExportEndpointSliceByAPIExport''"

type_synonym 'f indexers = "string \<rightharpoonup> 'f"

definition InstallIndexers ::
    "('f indexers \<Rightarrow> 'f indexers \<Rightarrow> 'f indexers) \<Rightarrow> string \<Rightarrow> 'f \<Rightarrow> 'f \<Rightarrow> 'f indexers \<Rightarrow> 'f indexers
      \<Rightarrow> 'f indexers \<times> 'f indexers" where
  "InstallIndexers AddIfNotPresentOrDie ByLogicalClusterPathAndName IndexByPath IndexByExport exports slices =
     (let exports' = AddIfNotPresentOrDie exports [ByLogicalClusterPathAndName \<mapsto> IndexByPath];
          slices' = AddIfNotPresentOrDie slices [ByLogicalClusterPathAndName \<mapsto> IndexByPath]
      in (exports', AddIfNotPresentOrDie slices' [FilteredAPIExportEndpointSliceByAPIExport \<mapsto> IndexByExport]))"

definition add_indexers_law :: "('f indexers \<Rightarrow> 'f indexers \<Rightarrow> 'f indexers) \<Rightarrow> bool" where
  "add_indexers_law add \<longleftrightarrow> (\<forall>old new. add old new = new ++ old)"

lemma indexers_installed:
  assumes "add_indexers_law add" "byPath \<noteq> FilteredAPIExportEndpointSliceByAPIExport"
    and "InstallIndexers add byPath f g Map.empty Map.empty = (exports, slices)"
  shows "exports byPath = Some f \<and> slices byPath = Some f
    \<and> slices FilteredAPIExportEndpointSliceByAPIExport = Some g
    \<and> InstallIndexers add byPath f g exports slices = (exports, slices)"
proof -
  have add: "add old new = new ++ old" for old new using assms(1) by (simp add: add_indexers_law_def)
  have e: "exports = [byPath \<mapsto> f]"
    and s: "slices = [FilteredAPIExportEndpointSliceByAPIExport \<mapsto> g] ++ [byPath \<mapsto> f]"
    using assms(3) [symmetric] by (simp_all add: InstallIndexers_def Let_def add)
  show ?thesis unfolding e s InstallIndexers_def Let_def add using assms(2) by (simp add: fun_upd_twist)
qed

text \<open>
  \<open>process\<close>. The object is a value, so the deep copy taken before reconciling is the value
  itself; the state is the sequence of commits (old and new object).
\<close>

type_synonym commits = "(slice \<times> slice) list"

definition es_process :: "es_env \<Rightarrow> string \<Rightarrow> commits \<Rightarrow> outcome \<times> commits" where
  "es_process env key st =
     (case ka_SplitKey (en_Keys env) key of
        Inl err \<Rightarrow> (Done None, st)
      | Inr (clusterName, _, name) \<Rightarrow>
          (case en_getSlice env clusterName name of
             Inl err \<Rightarrow> if IsNotFound err then (Done None, st) else (Done (Some err), st)
           | Inr old \<Rightarrow>
               (case endpoints_reconcile (en_Conditions env) (en_getAPIExport env) old of
                  (obj, err) \<Rightarrow>
                    let errs = (case err of None \<Rightarrow> [] | Some e \<Rightarrow> [e]);
                        errs' = errs @ (case en_Commit env old obj of None \<Rightarrow> [] | Some e \<Rightarrow> [e])
                    in (Done (NewAggregate errs'), st @ [(old, obj)]))))"

definition es_processNextWorkItem ::
    "es_env \<Rightarrow> string option \<Rightarrow> commits \<Rightarrow> bool option \<times> queue_op list \<times> commits" where
  "es_processNextWorkItem env got st =
     (case got of
        None \<Rightarrow> (Some False, [], st)
      | Some key \<Rightarrow>
          (case es_process env key st of
             (Panic, st') \<Rightarrow> (None, [QDone key], st')
           | (Done (Some err), st') \<Rightarrow> (Some True, [QAddRateLimited key, QDone key], st')
           | (Done None, st') \<Rightarrow> (Some True, [QForget key, QDone key], st')))"

interpretation es_worker: worker "es_process env" "es_processNextWorkItem env"
  by unfold_locales (simp_all add: es_processNextWorkItem_def)

definition es_startWorker ::
    "es_env \<Rightarrow> (nat \<Rightarrow> string option) \<Rightarrow> commits \<Rightarrow> (bool \<times> nat \<times> commits) option" where
  "es_startWorker env gets st = startWorker (es_processNextWorkItem env) gets 0 st"

lemma es_process_no_panic: "fst (es_process env key st) \<noteq> Panic"
  by (auto simp: es_process_def Let_def split: sum.splits prod.splits)

text \<open>This worker never panics: it returns exactly when the queue is shut down.\<close>

lemma es_worker_returns_iff:
  "(\<exists>r. es_startWorker env gets st = Some r) \<longleftrightarrow> (\<exists>n. gets n = None)"
  unfolding es_startWorker_def es_worker.worker_returns_iff
  by (rule iff_exI) (simp add: stops_def es_process_no_panic)

section \<open>Properties\<close>

text \<open>
  C27: After reconciling a slice the condition APIExportValid is present, is true exactly when
  the export was found, and has the reason APIExportNotFound exactly when it is missing; a
  missing export is not retried and the spec never changes.
\<close>

theorem condition_tells_export_state:
  assumes law: "conditions_law C" and run: "endpoints_reconcile C get es = (es', err)"
    and res: "res = get (if ref_Path (APIExport (Spec es)) = '''' then sl_Cluster es
                         else ref_Path (APIExport (Spec es))) (ref_Name (APIExport (Spec es)))"
  shows "\<exists>c. get_condition APIExportValid es' = Some c
    \<and> (cond_Status c = ConditionTrue \<longleftrightarrow> (\<exists>e. res = Inr e))
    \<and> (cond_Status c = ConditionFalse \<and> cond_Reason c = APIExportNotFoundReason
         \<longleftrightarrow> (\<exists>e. res = Inl e \<and> IsNotFound e))
    \<and> err = (case res of Inl e \<Rightarrow> if IsNotFound e then None else Some e | Inr _ \<Rightarrow> None)
    \<and> Spec es' = Spec es"
proof (cases res)
  case (Inr e)
  note got = res [symmetric, unfolded Inr]
  have "es' = co_MarkTrue C es APIExportValid" "err = None"
    using run unfolding endpoints_reconcile_def Let_def got by auto
  moreover obtain c where "get_condition APIExportValid (co_MarkTrue C es APIExportValid) = Some c"
      "cond_Status c = ConditionTrue"
    using law unfolding conditions_law_def by blast
  moreover have "Spec (co_MarkTrue C es APIExportValid) = Spec es"
    using law unfolding conditions_law_def by blast
  ultimately show ?thesis using Inr by simp
next
  case (Inl e)
  have reasons: "APIExportNotFoundReason \<noteq> InternalErrorReason"
    by (simp add: APIExportNotFoundReason_def InternalErrorReason_def)
  note got = res [symmetric, unfolded Inl]
  obtain m where es': "es' = co_MarkFalse C es APIExportValid
      (if IsNotFound e then APIExportNotFoundReason else InternalErrorReason) ConditionSeverityError m"
    and err: "err = (if IsNotFound e then None else Some e)"
    using run unfolding endpoints_reconcile_def Let_def got by (auto split: if_splits)
  obtain c where "get_condition APIExportValid es' = Some c" "cond_Status c = ConditionFalse"
    "cond_Reason c = (if IsNotFound e then APIExportNotFoundReason else InternalErrorReason)"
    using law unfolding es' conditions_law_def by blast
  moreover have "Spec es' = Spec es" using law unfolding es' conditions_law_def by blast
  ultimately show ?thesis using Inl err reasons by auto
qed

text \<open>A condition list with at most one entry for each type, as an instance.\<close>

definition set_condition :: "condition \<Rightarrow> slice \<Rightarrow> slice" where
  "set_condition c s =
     SetConditions s (c # filter (\<lambda>x. cond_Type x \<noteq> cond_Type c) (GetConditions s))"

definition ref_conditions :: conditions_api where
  "ref_conditions =
     \<lparr>co_MarkTrue = (\<lambda>s t. set_condition \<lparr>cond_Type = t, cond_Status = ConditionTrue,
        cond_Severity = '''', cond_Reason = '''', cond_Message = Str ''''\<rparr> s),
      co_MarkFalse = (\<lambda>s t r v m. set_condition \<lparr>cond_Type = t, cond_Status = ConditionFalse,
        cond_Severity = v, cond_Reason = r, cond_Message = m\<rparr> s)\<rparr>"

lemma get_set_condition:
  "get_condition t (set_condition c s) = (if cond_Type c = t then Some c else get_condition t s)"
proof (cases "cond_Type c = t")
  case False
  have "find (\<lambda>x. cond_Type x = t) (filter (\<lambda>x. cond_Type x \<noteq> u) cs) = find (\<lambda>x. cond_Type x = t) cs"
    if "u \<noteq> t" for u cs using that by (induction cs) auto
  from this [OF False] False show ?thesis by (simp add: get_condition_def set_condition_def)
qed (simp add: get_condition_def set_condition_def)

lemma set_condition_Spec [simp]: "Spec (set_condition c s) = Spec s"
  by (simp add: set_condition_def)

lemma ref_conditions_law [simp]: "conditions_law ref_conditions"
  by (auto simp: conditions_law_def ref_conditions_def get_set_condition)

theorem condition_tells_export_state_witness:
  "\<exists>c. get_condition APIExportValid (fst (endpoints_reconcile ref_conditions w_exports w_slice)) = Some c
     \<and> cond_Status c = ConditionTrue"
  using condition_tells_export_state [OF ref_conditions_law surjective_pairing refl, of w_exports w_slice]
  by (auto simp: w_exports_def w_slice_def)

text \<open>
  C28: Whenever the slice of a queue key is found, its status is committed, also when
  reconciling failed, and the key is retried exactly when reconciling or the commit failed.
\<close>

theorem status_always_committed:
  assumes "ka_SplitKey (en_Keys env) key = Inr (cl, ns, name)" and "en_getSlice env cl name = Inr old"
    and "endpoints_reconcile (en_Conditions env) (en_getAPIExport env) old = (obj, err)"
    and "es_processNextWorkItem env (Some key) st = (r, ops, st')"
  shows "r = Some True \<and> st' = st @ [(old, obj)]
    \<and> (QAddRateLimited key \<in> set ops \<longleftrightarrow> err \<noteq> None \<or> en_Commit env old obj \<noteq> None)"
proof -
  let ?errs = "(case err of None \<Rightarrow> [] | Some e \<Rightarrow> [e])
    @ (case en_Commit env old obj of None \<Rightarrow> [] | Some e \<Rightarrow> [e])"
  have p: "es_process env key st = (Done (NewAggregate ?errs), st @ [(old, obj)])"
    using assms(1-3) by (simp add: es_process_def Let_def)
  have "st' = snd (es_process env key st)"
    using es_worker.state_is_process [of env key st] assms(4) by simp
  moreover have "r = Some True"
    using es_worker.goes_on_iff [of env key st] p assms(4) by simp
  moreover have "QAddRateLimited key \<in> set ops \<longleftrightarrow> ?errs \<noteq> []"
    using es_worker.retried_iff_failed [OF assms(4)] p by (auto simp: NewAggregate_def)
  ultimately show ?thesis using p by (auto split: option.splits)
qed

definition w_es_keys :: key_api where [world]:
  "w_es_keys = \<lparr>ka_SliceKey = (\<lambda>s. Inr (sl_Cluster s @ ''|'' @ sl_Name s)),
     ka_ExportKey = (\<lambda>e. Inr (ex_Name e)), ka_SchemaKey = (\<lambda>s. Inr (sc_Name s)),
     ka_SplitKey = (\<lambda>k. Inr (''prov'', '''', ''es''))\<rparr>"

definition w_es :: es_env where [world]:
  "w_es = \<lparr>en_Keys = w_es_keys, en_getSlice = w_slices, en_getAPIExport = w_exports,
     en_Conditions = ref_conditions, en_Commit = (\<lambda>old new. Some (Err (Str ''conflict''))),
     en_IndexKeys = (\<lambda>x. Inr (if x = ''prov:exp'' then [''prov|es''] else [])),
     en_GetByKey = (\<lambda>k. Inr (if k = ''prov|es'' then Some w_slice else None)),
     en_Join = (\<lambda>p n. p @ '':'' @ n)\<rparr>"

theorem status_always_committed_witness:
  "QAddRateLimited ''prov|es'' \<in> set (fst (snd (es_processNextWorkItem w_es (Some ''prov|es'') [])))"
proof -
  obtain r ops st' where run: "es_processNextWorkItem w_es (Some ''prov|es'') [] = (r, ops, st')"
    by (metis surjective_pairing)
  obtain obj err where rec: "endpoints_reconcile (en_Conditions w_es) (en_getAPIExport w_es) w_slice = (obj, err)"
    by force
  have "ka_SplitKey (en_Keys w_es) ''prov|es'' = Inr (''prov'', '''', ''es'')"
    "en_getSlice w_es ''prov'' ''es'' = Inr w_slice" "en_Commit w_es w_slice obj \<noteq> None"
    by (simp_all add: w_es_def w_es_keys_def w_slices_def)
  with status_always_committed [OF this(1,2) rec run] run show ?thesis by simp
qed

text \<open>
  What the informer's index promises: for a value, the keys of the stored slices whose index
  function yields it.
\<close>

definition index_law :: "es_env \<Rightarrow> (string \<rightharpoonup> slice) \<Rightarrow> bool" where
  "index_law env store \<longleftrightarrow>
     (\<forall>k. en_GetByKey env k = Inr (store k))
     \<and> (\<forall>x. \<exists>ks. en_IndexKeys env x = Inr ks
          \<and> set ks = {k. \<exists>s. store k = Some s
                \<and> x \<in> set (fst (IndexFilteredAPIExportEndpointSliceByAPIExport (en_Join env) (Some s)))})"

lemma enqueue_keys_all:
  "k \<in> set ks \<Longrightarrow> en_GetByKey env k = Inr (Some s) \<Longrightarrow> q \<in> set (es_enqueue env s) \<Longrightarrow>
     q \<in> set (enqueue_keys env ks)"
proof (induction ks)
  case (Cons k' ks)
  show ?case
  proof (cases "k' = k")
    case True
    with Cons.prems have "enqueue_keys env (k' # ks) = es_enqueue env s @ enqueue_keys env ks" by simp
    then show ?thesis using Cons.prems(3) by (simp only: set_append Un_iff simp_thms)
  next
    case False
    with Cons have "q \<in> set (enqueue_keys env ks)" by simp
    then show ?thesis unfolding enqueue_keys.simps set_append by (rule UnI2)
  qed
qed simp

text \<open>
  An event of an APIExport enqueues every stored slice that refers to it by path annotation or
  by cluster.
\<close>

theorem export_event_reaches_referring_slices:
  assumes law: "index_law env store" and s: "store sk = Some s"
    and name: "ref_Name (APIExport (Spec s)) = ex_Name e"
    and refers: "ref_Path (APIExport (Spec s)) \<in> {ex_PathAnnotation e, ex_Cluster e} - {''''}"
    and key: "ka_SliceKey (en_Keys env) s = Inr k"
  shows "QAdd k \<in> set (enqueueFilteredAPIExportEndpointSlicesForAPIExport env e)"
proof -
  obtain pathKeys where pk: "(if ex_PathAnnotation e \<noteq> ''''
        then en_IndexKeys env (en_Join env (ex_PathAnnotation e) (ex_Name e)) else Inr []) = Inr pathKeys"
      "ref_Path (APIExport (Spec s)) = ex_PathAnnotation e \<Longrightarrow> sk \<in> set pathKeys"
  proof (cases "ex_PathAnnotation e = ''''")
    case True
    then show thesis using refers that [of "[]"] by auto
  next
    case False
    obtain ks where ks: "en_IndexKeys env (en_Join env (ex_PathAnnotation e) (ex_Name e)) = Inr ks"
      "set ks = {k. \<exists>s. store k = Some s \<and> en_Join env (ex_PathAnnotation e) (ex_Name e)
         \<in> set (fst (IndexFilteredAPIExportEndpointSliceByAPIExport (en_Join env) (Some s)))}"
      using law unfolding index_law_def by blast
    have "sk \<in> set ks" if "ref_Path (APIExport (Spec s)) = ex_PathAnnotation e"
      using that False s name unfolding ks(2)
      by (auto simp: IndexFilteredAPIExportEndpointSliceByAPIExport_def Let_def)
    then show thesis using that [of ks] ks(1) False by simp
  qed
  obtain ck where ck: "en_IndexKeys env (en_Join env (ex_Cluster e) (ex_Name e)) = Inr ck"
    "set ck = {k. \<exists>s. store k = Some s \<and> en_Join env (ex_Cluster e) (ex_Name e)
         \<in> set (fst (IndexFilteredAPIExportEndpointSliceByAPIExport (en_Join env) (Some s)))}"
    using law unfolding index_law_def by blast
  have "sk \<in> set ck" if "ref_Path (APIExport (Spec s)) = ex_Cluster e"
    using that refers s name unfolding ck(2)
    by (auto simp: IndexFilteredAPIExportEndpointSliceByAPIExport_def Let_def)
  then have "sk \<in> set (sort (remdups (pathKeys @ ck)))" using pk(2) refers by auto
  moreover have "en_GetByKey env sk = Inr (Some s)" using law s unfolding index_law_def by simp
  moreover have "QAdd k \<in> set (es_enqueue env s)"
    unfolding es_enqueue_def key by (simp only: sum.case list.set insert_iff simp_thms)
  ultimately have "QAdd k \<in> set (enqueue_keys env (sort (remdups (pathKeys @ ck))))"
    by (rule enqueue_keys_all)
  then show ?thesis
    unfolding enqueueFilteredAPIExportEndpointSlicesForAPIExport_def Let_def pk(1) ck(1)
    by (simp only: sum.case)
qed

theorem export_event_reaches_referring_slices_witness:
  "QAdd ''prov|es'' \<in> set (enqueueFilteredAPIExportEndpointSlicesForAPIExport w_es w_export)"
proof (rule export_event_reaches_referring_slices [of w_es "[''prov|es'' \<mapsto> w_slice]" "''prov|es''" w_slice])
  show "index_law w_es [''prov|es'' \<mapsto> w_slice]"
    by (auto simp: index_law_def w_es_def w_slice_def Let_def IndexFilteredAPIExportEndpointSliceByAPIExport_def)
qed (simp_all add: w_slice_def w_export_def w_es_def w_es_keys_def)

end
