(* ===== verification/Server.thy ===== *)
theory Server
  imports Prelude
begin

text \<open>
  The command around the virtual workspace: options and their validation
  (\<open>cmd/filtered-apiexport-vw/options\<close>, \<open>internal/virtual/filteredapiexport/options\<close>), the
  registry of controllers (\<open>internal/reconciler/reconciler.go\<close>), and the start-up sequence
  \<open>Run\<close> (\<open>cmd/filtered-apiexport-vw/command/cmd.go\<close>). Validation of the embedded library
  options and the success of each library call are parameters.
\<close>

section \<open>Options\<close>

definition FilteredAPIExport_Validate :: "string option \<Rightarrow> go_error list" where
  "FilteredAPIExport_Validate o' =
     (case o' of
        None \<Rightarrow> []
      | Some kubeconfigFile \<Rightarrow>
          if kubeconfigFile = ''''
          then [Errorf ''kubeconfig is required for the FilteredAPIExport virtual workspace'' []]
          else [])"

text \<open>
  The embedded options of other packages appear with the fields this program sets or reads;
  \<open>library_options\<close> is what their \<open>Validate\<close> functions return.
\<close>

record Options =
  op_ShardName :: string
  op_LocalShardKubeconfigFile :: string
  op_FrontProxyKubeconfigFile :: string
  op_Context :: string
  op_RootPathPrefix :: string
  op_ShardExternalURL :: string
  op_Cache_KubeconfigFile :: string
  op_SecureServing_CertFile :: string
  op_SecureServing_KeyFile :: string
  op_SecureServing_BindPort :: nat
  op_Authentication_SkipInClusterLookup :: bool
  op_FilteredAPIExport_KubeconfigFile :: string
  op_ProfilerAddress :: string

record library_options =
  lo_Cache :: "Options \<Rightarrow> go_error list"
  lo_SecureServing :: "Options \<Rightarrow> go_error list"
  lo_Authentication :: "Options \<Rightarrow> go_error list"

definition DefaultRootPathPrefix :: string where
  "DefaultRootPathPrefix = ''/services''"

definition NewOptions :: Options where
  "NewOptions =
     \<lparr>op_ShardName = '''', op_LocalShardKubeconfigFile = '''', op_FrontProxyKubeconfigFile = '''',
      op_Context = '''', op_RootPathPrefix = DefaultRootPathPrefix, op_ShardExternalURL = '''',
      op_Cache_KubeconfigFile = '''',
      op_SecureServing_CertFile = ''.kcp/apiserver.crt'', op_SecureServing_KeyFile = ''.kcp/apiserver.key'',
      op_SecureServing_BindPort = 6444, op_Authentication_SkipInClusterLookup = True,
      op_FilteredAPIExport_KubeconfigFile = '''', op_ProfilerAddress = ''''\<rparr>"

definition Options_Validate :: "library_options \<Rightarrow> Options \<Rightarrow> go_error option" where
  "Options_Validate V o' =
     NewAggregate
       (lo_Cache V o' @ lo_SecureServing V o' @ lo_Authentication V o'
        @ FilteredAPIExport_Validate (Some (op_FilteredAPIExport_KubeconfigFile o'))
        @ (if length (op_ShardName o') = 0 then [Errorf ''--shard-name is required'' []] else [])
        @ (if length (op_ShardExternalURL o') = 0 then [Errorf ''--shard-external-url is required'' []] else [])
        @ (if length (op_LocalShardKubeconfigFile o') = 0
           then [Errorf ''--local-shard-kubeconfig is required for this command'' []] else [])
        @ (if \<not> HasPrefix (op_RootPathPrefix o') ''/''
           then [Errorf ''RootPathPrefix %q must start with /'' [Str (op_RootPathPrefix o')]] else []))"

text \<open>
  The options are accepted exactly when the library options are, the three required kubeconfig
  and shard values are set and the root path prefix starts with a slash.
\<close>

theorem options_valid_iff:
  "Options_Validate V o' = None \<longleftrightarrow>
     lo_Cache V o' = [] \<and> lo_SecureServing V o' = [] \<and> lo_Authentication V o' = []
     \<and> op_FilteredAPIExport_KubeconfigFile o' \<noteq> '''' \<and> op_ShardName o' \<noteq> '''' \<and> op_ShardExternalURL o' \<noteq> ''''
     \<and> op_LocalShardKubeconfigFile o' \<noteq> '''' \<and> (\<exists>r. op_RootPathPrefix o' = ''/'' @ r)"
  by (auto simp: Options_Validate_def NewAggregate_def FilteredAPIExport_Validate_def HasPrefix_iff
      split: if_splits)

section \<open>The registry of controllers\<close>

record controllerWrapper =
  cw_Name :: string
  cw_Wait :: "go_error option option"        \<comment> \<open>no wait function, or what it returns\<close>

type_synonym registry = "string \<rightharpoonup> controllerWrapper"

definition registerController :: "controllerWrapper \<Rightarrow> registry \<Rightarrow> registry \<times> go_error option" where
  "registerController c r =
     (if r (cw_Name c) \<noteq> None
      then (r, Some (Errorf ''controller %s is already registered'' [Str (cw_Name c)]))
      else (r(cw_Name c \<mapsto> c), None))"

definition installFilteredAPIExportEndpointSliceController ::
    "go_error option \<Rightarrow> string \<Rightarrow> go_error option \<Rightarrow> registry \<Rightarrow> registry \<times> go_error option" where
  "installFilteredAPIExportEndpointSliceController newForConfig controllerName synced r =
     (case newForConfig of
        Some err \<Rightarrow> (r, Some err)
      | None \<Rightarrow> registerController \<lparr>cw_Name = controllerName, cw_Wait = Some synced\<rparr> r)"

definition InstallControllers ::
    "go_error option \<Rightarrow> string \<Rightarrow> go_error option \<Rightarrow> registry \<Rightarrow> registry \<times> go_error option" where
  "InstallControllers newForConfig controllerName synced r =
     (case installFilteredAPIExportEndpointSliceController newForConfig controllerName synced r of
        (r', None) \<Rightarrow> (r', None)
      | (r', Some err) \<Rightarrow>
          (r', Some (Wrap ''failed to install FilteredAPIExportEndpointSlice controller: %w'' [] err)))"

text \<open>Whether the goroutine of a controller gets as far as its \<open>Runner\<close>.\<close>

definition runController :: "controllerWrapper \<Rightarrow> bool" where
  "runController c = (case cw_Wait c of None \<Rightarrow> True | Some None \<Rightarrow> True | Some (Some err) \<Rightarrow> False)"

definition StartControllers :: "string list \<Rightarrow> registry \<Rightarrow> string list" where
  "StartControllers order r =
     filter (\<lambda>n. case r n of None \<Rightarrow> False | Some c \<Rightarrow> runController c) order"

text \<open>
  The controller is registered once under its name, and runs exactly when its informers
  synced.
\<close>

theorem controllers_registered_once:
  assumes "InstallControllers newForConfig name synced r = (r', err)"
  shows "(err = None \<longleftrightarrow> newForConfig = None \<and> r name = None)
    \<and> (err \<noteq> None \<longrightarrow> r' = r)
    \<and> (err = None \<longrightarrow> (name \<in> set (StartControllers [name] r') \<longleftrightarrow> synced = None)
         \<and> snd (InstallControllers None name synced r') \<noteq> None)"
  using assms
  by (auto simp: InstallControllers_def installFilteredAPIExportEndpointSliceController_def
      registerController_def StartControllers_def runController_def split: option.splits if_splits)

theorem controllers_registered_once_witness:
  "snd (InstallControllers None ''c'' None (fst (InstallControllers None ''c'' None Map.empty))) \<noteq> None"
proof -
  have "InstallControllers None ''c'' None Map.empty
      = (fst (InstallControllers None ''c'' None Map.empty), None)"
    by (simp add: InstallControllers_def installFilteredAPIExportEndpointSliceController_def
        registerController_def)
  from controllers_registered_once [OF this] show ?thesis by blast
qed

section \<open>The start-up sequence\<close>

datatype run_step =
    ReadLocalShardKubeconfig | LocalShardClientConfig
  | ReadFrontProxyKubeconfig | FrontProxyClientConfig
  | ReadFilteredAPIExportKubeconfig | FilteredAPIExportClientConfig | NewFilteredAPIExportClient
  | DefaultCacheClientConfig | CacheRestConfig | NewCacheClient
  | ParseLocalShardHost | ParseFrontProxyHost | NewLocalShardKubeClient
  | ResolveIdentities | NewLocalKcpClient | NewInformerFactories
  | Step_InstallIndexers | Step_InstallControllers
  | ApplySecureServing | ApplyAuthentication | ApplyAudit | NewRootConfig
  | ApplyAuthorization | ApplyAdmission | Step_NewVirtualWorkspaces | NewRootServer
  | PrepareRun | WithOpenAPIAggregation | StartProfiler
  | StartLocalInformers | StartFilteredInformers | StartCacheInformers
  | SyncLocalInformers | SyncFilteredInformers | SyncCacheInformers
  | Step_StartControllers | RunServer

definition run_clients :: "bool \<Rightarrow> run_step list" where
  "run_clients cacheEnabled =
     [ReadLocalShardKubeconfig, LocalShardClientConfig,
      ReadFrontProxyKubeconfig, FrontProxyClientConfig,
      ReadFilteredAPIExportKubeconfig, FilteredAPIExportClientConfig, NewFilteredAPIExportClient]
     @ (if cacheEnabled then [DefaultCacheClientConfig, CacheRestConfig, NewCacheClient] else [])
     @ [ParseLocalShardHost, ParseFrontProxyHost, NewLocalShardKubeClient,
        ResolveIdentities, NewLocalKcpClient, NewInformerFactories]"

definition run_server :: "bool \<Rightarrow> bool \<Rightarrow> run_step list" where
  "run_server cacheEnabled profiler =
     [Step_InstallIndexers, Step_InstallControllers,
      ApplySecureServing, ApplyAuthentication, ApplyAudit, NewRootConfig,
      ApplyAuthorization, ApplyAdmission, Step_NewVirtualWorkspaces, NewRootServer,
      PrepareRun, WithOpenAPIAggregation]
     @ (if profiler then [StartProfiler] else [])
     @ [StartLocalInformers, StartFilteredInformers]
     @ (if cacheEnabled then [StartCacheInformers] else [])
     @ [SyncLocalInformers, SyncFilteredInformers]
     @ (if cacheEnabled then [SyncCacheInformers] else [])
     @ [Step_StartControllers, RunServer]"

text \<open>Steps whose result the code does not look at.\<close>

definition ignores_result :: "run_step \<Rightarrow> bool" where
  "ignores_result s \<longleftrightarrow> s \<in> {NewInformerFactories, Step_InstallIndexers, PrepareRun, StartProfiler,
     StartLocalInformers, StartFilteredInformers, StartCacheInformers,
     SyncLocalInformers, SyncFilteredInformers, SyncCacheInformers, Step_StartControllers}"

text \<open>The steps run, and the error returned; the first checked failure ends the run.\<close>

fun exec :: "(run_step \<Rightarrow> go_error option) \<Rightarrow> run_step list \<Rightarrow> run_step list \<times> go_error option" where
  "exec result [] = ([], None)"
| "exec result (s # ss) =
     (if \<not> ignores_result s \<and> result s \<noteq> None then ([s], result s)
      else case exec result ss of (trace, err) \<Rightarrow> (s # trace, err))"

definition Run :: "Options \<Rightarrow> (run_step \<Rightarrow> go_error option) \<Rightarrow> run_step list \<times> go_error option" where
  "Run o' result =
     (let cacheEnabled = (length (op_Cache_KubeconfigFile o') > 0);
          profiler = (op_ProfilerAddress o' \<noteq> '''')
      in exec result (run_clients cacheEnabled @ run_server cacheEnabled profiler))"

text \<open>\<open>RunE\<close> of the command: logging options, then the options, then \<open>Run\<close>.\<close>

definition NewCommand_RunE ::
    "library_options \<Rightarrow> (Options \<Rightarrow> go_error option) \<Rightarrow> Options \<Rightarrow> (run_step \<Rightarrow> go_error option)
      \<Rightarrow> run_step list \<times> go_error option" where
  "NewCommand_RunE V validateAndApplyLogs opts result =
     (case validateAndApplyLogs opts of
        Some err \<Rightarrow> ([], Some err)
      | None \<Rightarrow>
          (case Options_Validate V opts of
             Some err \<Rightarrow> ([], Some err)
           | None \<Rightarrow> Run opts result))"

lemma exec_prefix: "prefix (fst (exec result ss)) ss"
  by (induction ss) (auto split: prod.splits)

lemma exec_error:
  "snd (exec result ss) = Some e \<Longrightarrow> fst (exec result ss) \<noteq> [] \<and> result (last (fst (exec result ss))) = Some e
     \<and> \<not> ignores_result (last (fst (exec result ss)))"
  by (induction ss) (auto split: prod.splits if_splits)

lemma exec_passed:
  "fst (exec result ss) = xs @ z # zs \<Longrightarrow> s \<in> set xs \<Longrightarrow> ignores_result s \<or> result s = None"
  by (induction ss arbitrary: xs) (auto split: prod.splits if_splits simp: Cons_eq_append_conv)

lemma prefix_reaches:
  assumes "prefix trace (xs @ s # ys)" "s \<in> set trace" "s \<notin> set xs"
  shows "\<exists>zs. trace = xs @ s # zs"
proof -
  from assms(1) consider "prefix trace xs" | us where "trace = xs @ us" "prefix us (s # ys)"
    unfolding prefix_append by blast
  then show ?thesis
  proof cases
    case 1
    then have "set trace \<subseteq> set xs" by (rule set_mono_prefix)
    then show ?thesis using assms(2,3) by blast
  next
    case 2
    then show ?thesis using assms(2,3) by (cases us) auto
  qed
qed



text \<open>Nothing is run with options that are not valid.\<close>

lemma invalid_options_run_nothing:
  assumes "Options_Validate V opts \<noteq> None"
  shows "fst (NewCommand_RunE V logs opts result) = [] \<and> snd (NewCommand_RunE V logs opts result) \<noteq> None"
  using assms by (auto simp: NewCommand_RunE_def split: option.splits)

end
