(* ===== verification/Virtual_Workspaces.thy ===== *)
theory Virtual_Workspaces
  imports Authorizer_Chain Selector_Admission Url_Digest Builder Server
begin

text \<open>
  How the virtual workspace is put together: \<open>NewVirtualWorkspaces\<close> of
  \<open>internal/virtual/filteredapiexport/options\<close> joins the root path prefix with the name of the
  workspace and hands it to \<open>BuildVirtualWorkspace\<close> (\<open>builder/build.go\<close>), which equips one
  named workspace with its resolver, readiness check, authorizer and admission. \<open>path.Join\<close> and
  \<open>path.Clean\<close> of the standard library are written out.
\<close>

section \<open>Package path\<close>

text \<open>
  \<open>Clean\<close>, segment by segment: empty segments and dots are dropped, a double dot removes the
  segment before it, or stays where nothing precedes it in a relative path.
\<close>

fun clean_segments :: "bool \<Rightarrow> string list \<Rightarrow> string list \<Rightarrow> string list" where
  "clean_segments rooted out [] = rev out"
| "clean_segments rooted out (s # ss) =
     (if s = '''' \<or> s = ''.'' then clean_segments rooted out ss
      else if s = ''..'' then
        (case out of
           [] \<Rightarrow> if rooted then clean_segments rooted [] ss else clean_segments rooted [''..''] ss
         | o1 # rest \<Rightarrow> if o1 = ''..'' then clean_segments rooted (''..'' # out) ss
                       else clean_segments rooted rest ss)
      else clean_segments rooted (s # out) ss)"

fun join_slash :: "string list \<Rightarrow> string" where
  "join_slash [] = ''''"
| "join_slash [s] = s"
| "join_slash (s # ss) = s @ ''/'' @ join_slash ss"

definition path_Clean :: "string \<Rightarrow> string" where
  "path_Clean p =
     (if p = '''' then ''.''
      else let rooted = HasPrefix p ''/'';
               out = join_slash (clean_segments rooted [] (Split slash p))
           in if rooted then ''/'' @ out else if out = '''' then ''.'' else out)"

fun join_elems :: "string \<Rightarrow> string list \<Rightarrow> string" where
  "join_elems buf [] = buf"
| "join_elems buf (e # es) =
     (if buf \<noteq> '''' \<or> e \<noteq> '''' then join_elems ((if buf \<noteq> '''' then buf @ ''/'' else buf) @ e) es
      else join_elems buf es)"

definition path_Join :: "string list \<Rightarrow> string" where
  "path_Join elems = (let buf = join_elems '''' elems in if buf = '''' then '''' else path_Clean buf)"

lemma Split_join: "Split c (a @ c # b) = Split c a @ Split c b"
  by (induction a) (auto split: list.splits)

lemma clean_segments_snoc:
  "n \<notin> {'''', ''.'', ''..''} \<Longrightarrow> clean_segments r out (ss @ [n]) = clean_segments r out ss @ [n]"
  by (induction r out ss rule: clean_segments.induct) (auto split: list.splits)

lemma join_slash_snoc: "join_slash (ss @ [n]) = (if ss = [] then n else join_slash ss @ ''/'' @ n)"
  by (induction ss rule: join_slash.induct) auto

lemma clean_segments_nonempty: "s \<in> set (clean_segments r out ss) \<Longrightarrow> s \<in> set out \<or> s \<noteq> ''''"
  by (induction r out ss rule: clean_segments.induct) (auto split: if_splits list.splits)

lemma join_slash_empty: "'''' \<notin> set ss \<Longrightarrow> join_slash ss = '''' \<longleftrightarrow> ss = []"
  by (induction ss rule: join_slash.induct) auto

text \<open>Joining one plain name to a rooted path.\<close>

lemma join_name:
  assumes "HasPrefix root ''/''" and n: "n \<notin> {'''', ''.'', ''..''}" "slash \<notin> set n"
  shows "path_Join [root, n]
    = (if path_Clean root = ''/'' then '''' else path_Clean root) @ ''/'' @ n"
proof -
  have ne: "root \<noteq> ''''" using assms(1) by (auto simp: HasPrefix_def)
  have rooted: "HasPrefix (root @ slash # n) ''/''" using assms(1) by (auto simp: HasPrefix_iff)
  let ?segs = "clean_segments True [] (Split slash root)"
  have "path_Join [root, n] = path_Clean (root @ slash # n)" using ne by (simp add: path_Join_def)
  also have "\<dots> = ''/'' @ join_slash (?segs @ [n])"
    using rooted n by (simp add: path_Clean_def Split_join Split_none clean_segments_snoc)
  finally have j: "path_Join [root, n] = ''/'' @ join_slash (?segs @ [n])" .
  have c: "path_Clean root = ''/'' @ join_slash ?segs" using ne assms(1) by (simp add: path_Clean_def)
  have "'''' \<notin> set ?segs" using clean_segments_nonempty [of "''''" True "[]" "Split slash root"] by auto
  then have "path_Clean root = ''/'' \<longleftrightarrow> ?segs = []" unfolding c using join_slash_empty by simp
  then show ?thesis unfolding j by (simp add: join_slash_snoc c)
qed

section \<open>The workspace\<close>

record ('sel, 'req) workspace_deps =      \<comment> \<open>what the closures of the workspace capture\<close>
  wd_lc :: logicalcluster_api
  wd_decorator :: decorator
  wd_chain :: chain_deps
  wd_range :: "(string, string) range_order"
  wd_labels :: "('sel, 'req) labels_api"

record NamedVirtualWorkspace =
  nv_Name :: string
  nv_RootPathResolver :: "string \<Rightarrow> req_ctx \<Rightarrow> bool \<times> string \<times> req_ctx"
  nv_ReadyChecker :: "hook_state \<Rightarrow> go_error option"
  nv_Authorizer :: authorizer
  nv_Mutator :: "req_ctx \<Rightarrow> admission_attributes \<Rightarrow> go_error option \<times> admission_attributes"
  nv_Validator :: "req_ctx \<Rightarrow> admission_attributes \<Rightarrow> go_error option"

definition BuildVirtualWorkspace ::
    "('sel, 'req) workspace_deps \<Rightarrow> string \<Rightarrow> go_error + NamedVirtualWorkspace list" where
  "BuildVirtualWorkspace D rootPathPrefix =
     (let k = wd_chain D;
          admissionChain = NewSelectorAdmission (cd_slices k) (cd_bindings k)
      in Inr [\<lparr>nv_Name = VirtualWorkspaceName,
               nv_RootPathResolver = resolveRootPath (wd_lc D) rootPathPrefix,
               nv_ReadyChecker = ReadyChecker,
               nv_Authorizer = newAuthorizer (wd_decorator D) k,
               nv_Mutator = Admit (wd_range D) admissionChain,
               nv_Validator = Validate (wd_labels D) admissionChain\<rparr>])"

text \<open>The three clients are made first, each with its own error.\<close>

definition NewVirtualWorkspaces ::
    "go_error option \<Rightarrow> go_error option \<Rightarrow> go_error option \<Rightarrow> ('sel, 'req) workspace_deps \<Rightarrow> string
      \<Rightarrow> go_error + NamedVirtualWorkspace list" where
  "NewVirtualWorkspaces kcpClusterClient kubeClusterClient deepSARClient D rootPathPrefix =
     (case kcpClusterClient of
        Some err \<Rightarrow> Inl err
      | None \<Rightarrow>
          (case kubeClusterClient of
             Some err \<Rightarrow> Inl err
           | None \<Rightarrow>
               (case deepSARClient of
                  Some err \<Rightarrow> Inl err
                | None \<Rightarrow> BuildVirtualWorkspace D (path_Join [rootPathPrefix, VirtualWorkspaceName]))))"

text \<open>
  C12: With valid options exactly one workspace is made, and it accepts every well-formed
  slice URL below the cleaned root path prefix and the name of the workspace, with the domain
  key, the cluster and the prefix to strip of that URL, and refuses every path that is not
  below.
\<close>

theorem valid_options_serve_slices:
  assumes valid: "Options_Validate V opts = None"
    and made: "NewVirtualWorkspaces None None None D (op_RootPathPrefix opts) = Inr ws"
    and base: "base = (if path_Clean (op_RootPathPrefix opts) = ''/'' then ''''
                       else path_Clean (op_RootPathPrefix opts)) @ ''/filtered-apiexport/''"
    and names: "c \<noteq> ''''" "n \<noteq> ''''" "t \<noteq> ''''" "slash \<notin> set c" "slash \<notin> set n" "slash \<notin> set t"
    and rest: "rest = '''' \<or> HasPrefix rest ''/''"
    and target: "target_of (wd_lc D) t = Some cluster"
  shows "\<exists>w. ws = [w] \<and> nv_Name w = ''filtered-apiexport''
    \<and> nv_RootPathResolver w (base @ c @ ''/'' @ n @ ''/clusters/'' @ t @ rest) ctx
        = (True, base @ c @ ''/'' @ n @ ''/clusters/'' @ t,
           ctx\<lparr>ctx_Cluster := lc_valid (wd_lc D) cluster, ctx_DomainKey := c @ ''/'' @ n\<rparr>)
    \<and> (\<forall>url. \<not> HasPrefix url base \<longrightarrow> fst (nv_RootPathResolver w url ctx) = False)"
proof -
  have root: "HasPrefix (op_RootPathPrefix opts) ''/''"
    using valid by (auto simp: Options_Validate_def NewAggregate_def split: if_splits)
  have plain: "VirtualWorkspaceName \<notin> {'''', ''.'', ''..''}" "slash \<notin> set VirtualWorkspaceName"
    by (simp_all add: VirtualWorkspaceName_def)
  let ?root = "path_Join [op_RootPathPrefix opts, VirtualWorkspaceName]"
  have "?root @ ''/'' = base"
    unfolding base join_name [OF root plain] by (simp add: VirtualWorkspaceName_def)
  moreover have "\<not> HasSuffix ?root ''/''"
    unfolding join_name [OF root plain] by (simp add: VirtualWorkspaceName_def HasSuffix_def)
  ultimately have norm: "normalizeRootPathPrefix ?root = base"
    by (simp add: normalizeRootPathPrefix_def)
  have resolver: "resolveRootPath (wd_lc D) ?root (base @ c @ ''/'' @ n @ ''/clusters/'' @ t @ rest) ctx
      = (True, base @ c @ ''/'' @ n @ ''/clusters/'' @ t,
         ctx\<lparr>ctx_Cluster := lc_valid (wd_lc D) cluster, ctx_DomainKey := c @ ''/'' @ n\<rparr>)"
    unfolding resolveRootPath_def norm
    by (subst digestUrl_roundtrip [OF names rest target]) simp
  have foreign: "fst (resolveRootPath (wd_lc D) ?root url ctx) = False" if "\<not> HasPrefix url base" for url
    using that unfolding resolveRootPath_def norm by (simp add: digestUrl_def rejected_def)
  have "ws = [\<lparr>nv_Name = VirtualWorkspaceName, nv_RootPathResolver = resolveRootPath (wd_lc D) ?root,
      nv_ReadyChecker = ReadyChecker, nv_Authorizer = newAuthorizer (wd_decorator D) (wd_chain D),
      nv_Mutator = Admit (wd_range D) (NewSelectorAdmission (cd_slices (wd_chain D)) (cd_bindings (wd_chain D))),
      nv_Validator = Validate (wd_labels D)
        (NewSelectorAdmission (cd_slices (wd_chain D)) (cd_bindings (wd_chain D)))\<rparr>]"
    using made by (simp add: NewVirtualWorkspaces_def BuildVirtualWorkspace_def Let_def)
  then show ?thesis using resolver foreign by (simp add: VirtualWorkspaceName_def)
qed

definition w_workspace_deps :: "(label_selector, string \<times> string list) workspace_deps" where
  "w_workspace_deps = \<lparr>wd_lc = w_lc, wd_decorator = (\<lambda>name b v. v), wd_chain = w_deps w_yes,
     wd_range = w_ord, wd_labels = ref_labels []\<rparr>"

definition w_options :: Options where
  "w_options = NewOptions\<lparr>op_ShardName := ''s'', op_ShardExternalURL := ''u'',
     op_LocalShardKubeconfigFile := ''l'', op_FilteredAPIExport_KubeconfigFile := ''f''\<rparr>"

theorem valid_options_serve_slices_witness:
  "\<exists>w. NewVirtualWorkspaces None None None w_workspace_deps ''/services'' = Inr [w]
     \<and> fst (nv_RootPathResolver w ''/services/filtered-apiexport/prov/es/clusters/*/api'' w_ctx)"
proof -
  let ?V = "\<lparr>lo_Cache = \<lambda>_. [], lo_SecureServing = \<lambda>_. [], lo_Authentication = \<lambda>_. []\<rparr>"
  have valid: "Options_Validate ?V w_options = None"
    by (simp add: Options_Validate_def NewAggregate_def FilteredAPIExport_Validate_def w_options_def NewOptions_def
        DefaultRootPathPrefix_def HasPrefix_def)
  obtain ws where ws: "NewVirtualWorkspaces None None None w_workspace_deps (op_RootPathPrefix w_options) = Inr ws"
    by (simp add: NewVirtualWorkspaces_def BuildVirtualWorkspace_def Let_def)
  have pre: "op_RootPathPrefix w_options = ''/services''"
    by (simp add: w_options_def NewOptions_def DefaultRootPathPrefix_def)
  have base: "''/services/filtered-apiexport/''
      = (if path_Clean (op_RootPathPrefix w_options) = ''/'' then ''''
         else path_Clean (op_RootPathPrefix w_options)) @ ''/filtered-apiexport/''"
    unfolding pre by (simp add: path_Clean_def HasPrefix_def)
  have target: "target_of (wd_lc w_workspace_deps) ''*'' = Some \<lparr>cl_Name = '''', cl_Wildcard = True\<rparr>"
    by (simp add: w_workspace_deps_def target_of_def w_lc_def)
  have rest: "''/api'' = '''' \<or> HasPrefix ''/api'' ''/''" by (simp add: HasPrefix_def)
  from valid_options_serve_slices [OF valid ws base _ _ _ _ _ _ rest target, of "''prov''" "''es''" w_ctx]
  obtain w where "ws = [w]"
    "fst (nv_RootPathResolver w ''/services/filtered-apiexport/prov/es/clusters/*/api'' w_ctx)"
    by auto
  then show ?thesis using ws unfolding pre by blast
qed

end
