(* ===== verification/Informer_Factory.thy ===== *)
theory Informer_Factory
  imports Api_Types
begin

text \<open>
  The shared informer factories of \<open>sdk/client/informers/externalversions\<close>: \<open>factory.go\<close>,
  \<open>generic.go\<close> and the informer of \<open>filteredvw/v1alpha1/filteredapiexportendpointslice.go\<close>.
  The cluster-wide and the workspace-scoped factory are two pieces of code with one contract,
  \<open>informer_factory\<close>, over an abstract factory that knows which informers were requested and
  which were started; both are interpretations of it.

  Informers are objects: a factory holds references into a heap, which also records the calls
  of \<open>Run\<close> (one per goroutine that \<open>Start\<close> spawns, with its stop channel) and the ones that
  returned. \<open>reflect.Type\<close> is the name of the type. The informer package of client-go is a
  parameter: what is modelled of an informer is how it was constructed.
\<close>

section \<open>Informers\<close>

type_synonym go_type = string

record ('o, 'r) slices_client =           \<comment> \<open>the typed client of \<open>FilteredAPIExportEndpointSlices\<close>\<close>
  sc_List :: "'o \<Rightarrow> 'r"
  sc_Watch :: "'o \<Rightarrow> 'r"

record ('o, 'r, 'x) informer =
  in_ListFunc :: "'o \<Rightarrow> 'r"
  in_WatchFunc :: "'o \<Rightarrow> 'r"
  in_Type :: go_type
  in_ResyncPeriod :: int
  in_Indexers :: "string list"
  in_Transform :: "('x \<Rightarrow> 'x) option"

definition slice_type :: go_type where
  "slice_type = ''*v1alpha1.FilteredAPIExportEndpointSlice''"

definition ClusterIndexName :: string where
  "ClusterIndexName = ''cluster''"

definition NewFilteredFilteredAPIExportEndpointSliceClusterInformer ::
    "('o, 'r) slices_client \<Rightarrow> int \<Rightarrow> string list \<Rightarrow> ('o \<Rightarrow> 'o) option \<Rightarrow> ('o, 'r, 'x) informer" where
  "NewFilteredFilteredAPIExportEndpointSliceClusterInformer client resyncPeriod indexers tweakListOptions =
     \<lparr>in_ListFunc = (\<lambda>options. sc_List client
        (case tweakListOptions of None \<Rightarrow> options | Some tweak \<Rightarrow> tweak options)),
      in_WatchFunc = (\<lambda>options. sc_Watch client
        (case tweakListOptions of None \<Rightarrow> options | Some tweak \<Rightarrow> tweak options)),
      in_Type = slice_type, in_ResyncPeriod = resyncPeriod, in_Indexers = indexers,
      in_Transform = None\<rparr>"

definition NewFilteredAPIExportEndpointSliceClusterInformer ::
    "('o, 'r) slices_client \<Rightarrow> int \<Rightarrow> string list \<Rightarrow> ('o, 'r, 'x) informer" where
  "NewFilteredAPIExportEndpointSliceClusterInformer client resyncPeriod indexers =
     NewFilteredFilteredAPIExportEndpointSliceClusterInformer client resyncPeriod indexers None"

definition defaultInformer ::
    "('o \<Rightarrow> 'o) option \<Rightarrow> ('o, 'r) slices_client \<Rightarrow> int \<Rightarrow> ('o, 'r, 'x) informer" where
  "defaultInformer tweakListOptions client resyncPeriod =
     NewFilteredFilteredAPIExportEndpointSliceClusterInformer client resyncPeriod
       [ClusterIndexName] tweakListOptions"

definition NewFilteredFilteredAPIExportEndpointSliceInformer ::
    "('o, 'r) slices_client \<Rightarrow> int \<Rightarrow> string list \<Rightarrow> ('o \<Rightarrow> 'o) option \<Rightarrow> ('o, 'r, 'x) informer" where
  "NewFilteredFilteredAPIExportEndpointSliceInformer client resyncPeriod indexers tweakListOptions =
     \<lparr>in_ListFunc = (\<lambda>options. sc_List client
        (case tweakListOptions of None \<Rightarrow> options | Some tweak \<Rightarrow> tweak options)),
      in_WatchFunc = (\<lambda>options. sc_Watch client
        (case tweakListOptions of None \<Rightarrow> options | Some tweak \<Rightarrow> tweak options)),
      in_Type = slice_type, in_ResyncPeriod = resyncPeriod, in_Indexers = indexers,
      in_Transform = None\<rparr>"

definition NewFilteredAPIExportEndpointSliceInformer ::
    "('o, 'r) slices_client \<Rightarrow> int \<Rightarrow> string list \<Rightarrow> ('o, 'r, 'x) informer" where
  "NewFilteredAPIExportEndpointSliceInformer client resyncPeriod indexers =
     NewFilteredFilteredAPIExportEndpointSliceInformer client resyncPeriod indexers None"

definition scoped_defaultInformer ::
    "('o \<Rightarrow> 'o) option \<Rightarrow> ('o, 'r) slices_client \<Rightarrow> int \<Rightarrow> ('o, 'r, 'x) informer" where
  "scoped_defaultInformer tweakListOptions client resyncPeriod =
     NewFilteredFilteredAPIExportEndpointSliceInformer client resyncPeriod [] tweakListOptions"

section \<open>The heap of informers\<close>

record ('o, 'r, 'x) informer_heap =
  ih_Next :: nat
  ih_Informers :: "nat \<rightharpoonup> ('o, 'r, 'x) informer"
  ih_Runs :: "(nat \<times> nat) list"             \<comment> \<open>calls of \<open>Run\<close>: informer and stop channel\<close>
  ih_Returned :: "nat list"                 \<comment> \<open>informers whose \<open>Run\<close> has returned\<close>

definition new_informer ::
    "('o, 'r, 'x) informer \<Rightarrow> ('o, 'r, 'x) informer_heap \<Rightarrow> nat \<times> ('o, 'r, 'x) informer_heap" where
  "new_informer i h =
     (ih_Next h, h\<lparr>ih_Next := Suc (ih_Next h), ih_Informers := (ih_Informers h)(ih_Next h \<mapsto> i)\<rparr>)"

definition go_Run :: "nat \<Rightarrow> nat \<Rightarrow> ('o, 'r, 'x) informer_heap \<Rightarrow> ('o, 'r, 'x) informer_heap" where
  "go_Run r stopCh h = h\<lparr>ih_Runs := ih_Runs h @ [(r, stopCh)]\<rparr>"

definition empty_heap :: "('o, 'r, 'x) informer_heap" where
  "empty_heap = \<lparr>ih_Next = 0, ih_Informers = Map.empty, ih_Runs = [], ih_Returned = []\<rparr>"

section \<open>Options of a factory\<close>

record ('o, 'x) SharedInformerOptions =
  so_customResync :: "go_type \<rightharpoonup> int"
  so_tweakListOptions :: "('o \<Rightarrow> 'o) option"
  so_transform :: "('x \<Rightarrow> 'x) option"
  so_namespace :: string

type_synonym ('o, 'x) SharedInformerOption =
  "('o, 'x) SharedInformerOptions \<Rightarrow> ('o, 'x) SharedInformerOptions"

text \<open>The map of objects is given by its entries, in the order of the range.\<close>

definition WithCustomResyncConfig :: "(go_type \<times> int) list \<Rightarrow> ('o, 'x) SharedInformerOption" where
  "WithCustomResyncConfig resyncConfig opts =
     opts\<lparr>so_customResync := foldl (\<lambda>m (t, d). m(t \<mapsto> d)) (so_customResync opts) resyncConfig\<rparr>"

definition WithTweakListOptions :: "('o \<Rightarrow> 'o) option \<Rightarrow> ('o, 'x) SharedInformerOption" where
  "WithTweakListOptions tweakListOptions opts = opts\<lparr>so_tweakListOptions := tweakListOptions\<rparr>"

definition WithTransform :: "('x \<Rightarrow> 'x) option \<Rightarrow> ('o, 'x) SharedInformerOption" where
  "WithTransform transform opts = opts\<lparr>so_transform := transform\<rparr>"

definition WithNamespace :: "string \<Rightarrow> ('o, 'x) SharedInformerOption" where
  "WithNamespace namespace opts = opts\<lparr>so_namespace := namespace\<rparr>"

definition no_options :: "('o, 'x) SharedInformerOptions" where
  "no_options = \<lparr>so_customResync = Map.empty, so_tweakListOptions = None, so_transform = None,
                 so_namespace = ''''\<rparr>"

definition apply_options :: "('o, 'x) SharedInformerOption list \<Rightarrow> ('o, 'x) SharedInformerOptions" where
  "apply_options options = foldl (\<lambda>opts opt. opt opts) no_options options"

section \<open>The cluster-wide factory\<close>

record ('o, 'r, 'x) sharedInformerFactory =
  fa_client :: "('o, 'r) slices_client"
  fa_tweakListOptions :: "('o \<Rightarrow> 'o) option"
  fa_defaultResync :: int
  fa_customResync :: "go_type \<rightharpoonup> int"
  fa_transform :: "('x \<Rightarrow> 'x) option"
  fa_informers :: "go_type \<rightharpoonup> nat"
  fa_startedInformers :: "go_type \<rightharpoonup> bool"
  fa_wg :: nat
  fa_shuttingDown :: bool

definition NewSharedInformerFactoryWithOptions ::
    "('o, 'r) slices_client \<Rightarrow> int \<Rightarrow> ('o, 'x) SharedInformerOption list \<Rightarrow> ('o, 'r, 'x) sharedInformerFactory"
  where
  "NewSharedInformerFactoryWithOptions client defaultResync options =
     (let opts = apply_options options in
      \<lparr>fa_client = client, fa_tweakListOptions = so_tweakListOptions opts, fa_defaultResync = defaultResync,
       fa_customResync = so_customResync opts, fa_transform = so_transform opts,
       fa_informers = Map.empty, fa_startedInformers = Map.empty, fa_wg = 0, fa_shuttingDown = False\<rparr>)"

definition NewSharedInformerFactory ::
    "('o, 'r) slices_client \<Rightarrow> int \<Rightarrow> ('o, 'r, 'x) sharedInformerFactory" where
  "NewSharedInformerFactory client defaultResync = NewSharedInformerFactoryWithOptions client defaultResync []"

definition InformerFor ::
    "go_type \<Rightarrow> (('o, 'r) slices_client \<Rightarrow> int \<Rightarrow> ('o, 'r, 'x) informer) \<Rightarrow> ('o, 'r, 'x) sharedInformerFactory
      \<Rightarrow> ('o, 'r, 'x) informer_heap \<Rightarrow> nat \<times> ('o, 'r, 'x) sharedInformerFactory \<times> ('o, 'r, 'x) informer_heap"
  where
  "InformerFor informerType newFunc f h =
     (case fa_informers f informerType of
        Some informer \<Rightarrow> (informer, f, h)
      | None \<Rightarrow>
          let resyncPeriod = (case fa_customResync f informerType of Some d \<Rightarrow> d | None \<Rightarrow> fa_defaultResync f);
              (informer, h') = new_informer (newFunc (fa_client f) resyncPeriod) h
          in (informer, f\<lparr>fa_informers := (fa_informers f)(informerType \<mapsto> informer)\<rparr>, h'))"

text \<open>The loop of \<open>Start\<close>, over the types in the order of the range.\<close>

fun start_loop ::
    "nat \<Rightarrow> go_type list \<Rightarrow> ('o, 'r, 'x) sharedInformerFactory \<Rightarrow> ('o, 'r, 'x) informer_heap
      \<Rightarrow> ('o, 'r, 'x) sharedInformerFactory \<times> ('o, 'r, 'x) informer_heap" where
  "start_loop stopCh [] f h = (f, h)"
| "start_loop stopCh (informerType # types) f h =
     (case fa_informers f informerType of
        None \<Rightarrow> start_loop stopCh types f h
      | Some informer \<Rightarrow>
          if fa_startedInformers f informerType \<noteq> Some True
          then start_loop stopCh types
                 (f\<lparr>fa_wg := fa_wg f + 1,
                    fa_startedInformers := (fa_startedInformers f)(informerType \<mapsto> True)\<rparr>)
                 (go_Run informer stopCh h)
          else start_loop stopCh types f h)"

definition Start ::
    "go_type list \<Rightarrow> nat \<Rightarrow> ('o, 'r, 'x) sharedInformerFactory \<Rightarrow> ('o, 'r, 'x) informer_heap
      \<Rightarrow> ('o, 'r, 'x) sharedInformerFactory \<times> ('o, 'r, 'x) informer_heap" where
  "Start types stopCh f h = (if fa_shuttingDown f then (f, h) else start_loop stopCh types f h)"

text \<open>
  \<open>Shutdown\<close> sets the flag and then waits for the goroutines; \<open>Shutdown_returns\<close> is the
  condition under which the wait is over. \<open>goroutine_returns\<close> is the deferred \<open>wg.Done\<close>.
\<close>

definition Shutdown :: "('o, 'r, 'x) sharedInformerFactory \<Rightarrow> ('o, 'r, 'x) sharedInformerFactory" where
  "Shutdown f = f\<lparr>fa_shuttingDown := True\<rparr>"

definition Shutdown_returns :: "('o, 'r, 'x) sharedInformerFactory \<Rightarrow> bool" where
  "Shutdown_returns f \<longleftrightarrow> fa_shuttingDown f \<and> fa_wg f = 0"

definition goroutine_returns ::
    "nat \<Rightarrow> ('o, 'r, 'x) sharedInformerFactory \<Rightarrow> ('o, 'r, 'x) informer_heap
      \<Rightarrow> ('o, 'r, 'x) sharedInformerFactory \<times> ('o, 'r, 'x) informer_heap" where
  "goroutine_returns r f h = (f\<lparr>fa_wg := fa_wg f - 1\<rparr>, h\<lparr>ih_Returned := r # ih_Returned h\<rparr>)"

text \<open>\<open>synced r\<close> is what waiting for the informer \<open>r\<close> to sync, or the stop channel to close, gives.\<close>

definition WaitForCacheSync ::
    "(nat \<Rightarrow> bool) \<Rightarrow> ('o, 'r, 'x) sharedInformerFactory \<Rightarrow> (go_type \<rightharpoonup> bool)" where
  "WaitForCacheSync synced f =
     (let informers = (\<lambda>t. if fa_startedInformers f t = Some True then fa_informers f t else None)
      in (\<lambda>t. map_option synced (informers t)))"

definition slices_Informer ::
    "('o, 'r, 'x) sharedInformerFactory \<Rightarrow> ('o, 'r, 'x) informer_heap
      \<Rightarrow> nat \<times> ('o, 'r, 'x) sharedInformerFactory \<times> ('o, 'r, 'x) informer_heap" where
  "slices_Informer f h = InformerFor slice_type (defaultInformer (fa_tweakListOptions f)) f h"

text \<open>\<open>ForResource\<close>: the informer with the group and resource of its generic lister.\<close>

definition ForResource ::
    "group_version_resource \<Rightarrow> ('o, 'r, 'x) sharedInformerFactory \<Rightarrow> ('o, 'r, 'x) informer_heap
      \<Rightarrow> (go_error + nat \<times> group_resource) \<times> ('o, 'r, 'x) sharedInformerFactory \<times> ('o, 'r, 'x) informer_heap"
  where
  "ForResource resource f h =
     (if resource = slice_gvr
      then case slices_Informer f h of (informer, f', h') \<Rightarrow> (Inr (informer, GroupResource resource), f', h')
      else (Inl (Errorf ''no informer found for %v'' [Str (gvr_Resource resource)]), f, h))"

section \<open>The workspace-scoped factory\<close>

record ('o, 'r, 'x) sharedScopedInformerFactory =
  fs_client :: "('o, 'r) slices_client"
  fs_namespace :: string
  fs_tweakListOptions :: "('o \<Rightarrow> 'o) option"
  fs_defaultResync :: int
  fs_customResync :: "go_type \<rightharpoonup> int"
  fs_transform :: "('x \<Rightarrow> 'x) option"
  fs_informers :: "go_type \<rightharpoonup> nat"
  fs_startedInformers :: "go_type \<rightharpoonup> bool"

text \<open>The constructor forwards resync periods, tweak and namespace; the transform it does not.\<close>

definition NewSharedScopedInformerFactoryWithOptions ::
    "('o, 'r) slices_client \<Rightarrow> int \<Rightarrow> ('o, 'x) SharedInformerOption list
      \<Rightarrow> ('o, 'r, 'x) sharedScopedInformerFactory" where
  "NewSharedScopedInformerFactoryWithOptions client defaultResync options =
     (let opts = apply_options options in
      \<lparr>fs_client = client, fs_namespace = so_namespace opts, fs_tweakListOptions = so_tweakListOptions opts,
       fs_defaultResync = defaultResync, fs_customResync = so_customResync opts, fs_transform = None,
       fs_informers = Map.empty, fs_startedInformers = Map.empty\<rparr>)"

definition NewSharedScopedInformerFactory ::
    "('o, 'r) slices_client \<Rightarrow> int \<Rightarrow> string \<Rightarrow> ('o, 'r, 'x) sharedScopedInformerFactory" where
  "NewSharedScopedInformerFactory client defaultResync namespace =
     NewSharedScopedInformerFactoryWithOptions client defaultResync [WithNamespace namespace]"

definition scoped_InformerFor ::
    "go_type \<Rightarrow> (('o, 'r) slices_client \<Rightarrow> int \<Rightarrow> ('o, 'r, 'x) informer) \<Rightarrow> ('o, 'r, 'x) sharedScopedInformerFactory
      \<Rightarrow> ('o, 'r, 'x) informer_heap
      \<Rightarrow> nat \<times> ('o, 'r, 'x) sharedScopedInformerFactory \<times> ('o, 'r, 'x) informer_heap" where
  "scoped_InformerFor informerType newFunc f h =
     (case fs_informers f informerType of
        Some informer \<Rightarrow> (informer, f, h)
      | None \<Rightarrow>
          let resyncPeriod = (case fs_customResync f informerType of Some d \<Rightarrow> d | None \<Rightarrow> fs_defaultResync f);
              i = (newFunc (fs_client f) resyncPeriod)\<lparr>in_Transform := fs_transform f\<rparr>;
              (informer, h') = new_informer i h
          in (informer, f\<lparr>fs_informers := (fs_informers f)(informerType \<mapsto> informer)\<rparr>, h'))"

fun scoped_Start ::
    "go_type list \<Rightarrow> nat \<Rightarrow> ('o, 'r, 'x) sharedScopedInformerFactory \<Rightarrow> ('o, 'r, 'x) informer_heap
      \<Rightarrow> ('o, 'r, 'x) sharedScopedInformerFactory \<times> ('o, 'r, 'x) informer_heap" where
  "scoped_Start [] stopCh f h = (f, h)"
| "scoped_Start (informerType # types) stopCh f h =
     (case fs_informers f informerType of
        None \<Rightarrow> scoped_Start types stopCh f h
      | Some informer \<Rightarrow>
          if fs_startedInformers f informerType \<noteq> Some True
          then scoped_Start types stopCh
                 (f\<lparr>fs_startedInformers := (fs_startedInformers f)(informerType \<mapsto> True)\<rparr>)
                 (go_Run informer stopCh h)
          else scoped_Start types stopCh f h)"

definition scoped_WaitForCacheSync ::
    "(nat \<Rightarrow> bool) \<Rightarrow> ('o, 'r, 'x) sharedScopedInformerFactory \<Rightarrow> (go_type \<rightharpoonup> bool)" where
  "scoped_WaitForCacheSync synced f =
     (let informers = (\<lambda>t. if fs_startedInformers f t = Some True then fs_informers f t else None)
      in (\<lambda>t. map_option synced (informers t)))"

definition scoped_slices_Informer ::
    "('o, 'r, 'x) sharedScopedInformerFactory \<Rightarrow> ('o, 'r, 'x) informer_heap
      \<Rightarrow> nat \<times> ('o, 'r, 'x) sharedScopedInformerFactory \<times> ('o, 'r, 'x) informer_heap" where
  "scoped_slices_Informer f h =
     scoped_InformerFor slice_type (scoped_defaultInformer (fs_tweakListOptions f)) f h"

definition scoped_ForResource ::
    "group_version_resource \<Rightarrow> ('o, 'r, 'x) sharedScopedInformerFactory \<Rightarrow> ('o, 'r, 'x) informer_heap
      \<Rightarrow> (go_error + nat \<times> group_resource) \<times> ('o, 'r, 'x) sharedScopedInformerFactory
         \<times> ('o, 'r, 'x) informer_heap" where
  "scoped_ForResource resource f h =
     (if resource = slice_gvr
      then case scoped_slices_Informer f h of (informer, f', h') \<Rightarrow>
             (Inr (informer, GroupResource resource), f', h')
      else (Inl (Errorf ''no informer found for %v'' [Str (gvr_Resource resource)]), f, h))"

section \<open>The contract of both factories\<close>

text \<open>An abstract factory: the informers that were requested, and the types that were started.\<close>

record afactory =
  af_Requested :: "go_type \<rightharpoonup> nat"
  af_Started :: "go_type set"

definition af_request :: "go_type \<Rightarrow> nat \<Rightarrow> afactory \<Rightarrow> afactory" where
  "af_request t r a =
     (if af_Requested a t = None then a\<lparr>af_Requested := (af_Requested a)(t \<mapsto> r)\<rparr> else a)"

definition af_start :: "afactory \<Rightarrow> afactory" where
  "af_start a = a\<lparr>af_Started := af_Started a \<union> dom (af_Requested a)\<rparr>"

locale informer_factory =
  fixes abs :: "'f \<Rightarrow> afactory"
    and open_for :: "'f \<Rightarrow> bool"             \<comment> \<open>whether \<open>Start\<close> still starts informers\<close>
    and request :: "go_type \<Rightarrow> 'n \<Rightarrow> 'f \<Rightarrow> 'h \<Rightarrow> nat \<times> 'f \<times> 'h"
    and start :: "go_type list \<Rightarrow> nat \<Rightarrow> 'f \<Rightarrow> 'h \<Rightarrow> 'f \<times> 'h"
    and wait :: "(nat \<Rightarrow> bool) \<Rightarrow> 'f \<Rightarrow> (go_type \<rightharpoonup> bool)"
  assumes request: "request t n f h = (r, f', h') \<Longrightarrow>
      abs f' = af_request t r (abs f) \<and> af_Requested (abs f') t = Some r \<and> open_for f' = open_for f"
    and start: "open_for f \<Longrightarrow> is_range ts (af_Requested (abs f)) \<Longrightarrow> start ts stop f h = (f', h') \<Longrightarrow>
      abs f' = af_start (abs f) \<and> open_for f'"
    and closed: "\<not> open_for f \<Longrightarrow> start ts stop f h = (f, h)"
    and wait: "wait synced f t
      = (if t \<in> af_Started (abs f) then map_option synced (af_Requested (abs f) t) else None)"
begin

lemma same_informer:
  assumes "request t n f h = (r, f1, h1)" "request t n' f1 h2 = (r', f2, h3)"
  shows "r' = r \<and> abs f2 = abs f1"
  using request [OF assms(1)] request [OF assms(2)] by (auto simp: af_request_def split: if_splits)

lemma other_informer:
  "request t n f h = (r, f1, h1) \<Longrightarrow> t' \<noteq> t \<Longrightarrow> af_Requested (abs f1) t' = af_Requested (abs f) t'"
  by (drule request) (simp add: af_request_def)

lemma start_covers_requests:
  assumes "open_for f" "is_range ts (af_Requested (abs f))" "start ts stop f h = (f', h')"
  shows "wait synced f' = map_option synced \<circ> af_Requested (abs f)"
proof
  fix t
  show "wait synced f' t = (map_option synced \<circ> af_Requested (abs f)) t"
    using start [OF assms] by (cases "af_Requested (abs f) t") (simp_all add: wait af_start_def domIff)
qed

lemma late_request_not_waited_for:
  assumes "request t n f h = (r, f', h')" "t \<notin> af_Started (abs f)"
  shows "wait synced f' t = None"
  using request [OF assms(1)] assms(2) by (simp add: wait af_request_def)

lemma start_twice:
  assumes "is_range ts (af_Requested (abs f))" "start ts stop f h = (f', h')"
    "is_range ts' (af_Requested (abs f'))" "start ts' stop' f' h1 = (f'', h'')"
  shows "abs f'' = abs f'"
proof (cases "open_for f")
  case True
  with assms(1,2) have "abs f' = af_start (abs f)" "open_for f'" using start by blast+
  moreover from this(2) assms(3,4) have "abs f'' = af_start (abs f')" using start by blast
  ultimately show ?thesis by (simp add: af_start_def)
next
  case False
  then show ?thesis using assms closed by simp
qed

end

end
