(* ===== verification/Informer_Lifecycle.thy ===== *)
theory Informer_Lifecycle
  imports Informer_Factory
begin

text \<open>
  The lifecycle of the informers of a factory: both factories meet the contract
  \<open>informer_factory\<close>; over every interleaving of requests, starts, returning goroutines and
  shutdown, each informer runs at most once, the wait group counts the running goroutines,
  and nothing starts after a shutdown.
\<close>

section \<open>The contract holds of both factories\<close>

definition cluster_abs :: "('o, 'r, 'x) sharedInformerFactory \<Rightarrow> afactory" where
  "cluster_abs f = \<lparr>af_Requested = fa_informers f, af_Started = {t. fa_startedInformers f t = Some True}\<rparr>"

definition scoped_abs :: "('o, 'r, 'x) sharedScopedInformerFactory \<Rightarrow> afactory" where
  "scoped_abs f = \<lparr>af_Requested = fs_informers f, af_Started = {t. fs_startedInformers f t = Some True}\<rparr>"

text \<open>The types that \<open>Start\<close> starts among the ones it ranges over.\<close>

definition to_start :: "('o, 'r, 'x) sharedInformerFactory \<Rightarrow> go_type list \<Rightarrow> go_type list" where
  "to_start f ts = filter (\<lambda>t. fa_informers f t \<noteq> None \<and> fa_startedInformers f t \<noteq> Some True) ts"

lemma to_start_Cons:
  "t \<notin> set ts \<Longrightarrow> to_start (f\<lparr>fa_wg := n, fa_startedInformers := (fa_startedInformers f)(t \<mapsto> True)\<rparr>) ts
     = to_start f ts"
  by (auto simp: to_start_def intro!: filter_cong)

lemma start_loop_effect:
  assumes "start_loop stop ts f h = (f', h')" "distinct ts"
  shows "f' = f\<lparr>fa_wg := fa_wg f + length (to_start f ts),
       fa_startedInformers := fa_startedInformers f ++ (\<lambda>t. if t \<in> set (to_start f ts) then Some True else None)\<rparr>
     \<and> h' = h\<lparr>ih_Runs := ih_Runs h @ map (\<lambda>t. (the (fa_informers f t), stop)) (to_start f ts)\<rparr>"
  using assms
proof (induction stop ts f h rule: start_loop.induct)
  case (1 stop f h)
  then show ?case by (simp add: to_start_def map_add_def)
next
  case (2 stop t ts f h)
  show ?case
  proof (cases "fa_informers f t \<noteq> None \<and> fa_startedInformers f t \<noteq> Some True")
    case False
    then have ts: "to_start f (t # ts) = to_start f ts" by (auto simp: to_start_def)
    show ?thesis
    proof (cases "fa_informers f t")
      case None
      with 2 show ?thesis by (simp add: ts)
    next
      case (Some r)
      with False 2 show ?thesis by (simp add: ts)
    qed
  next
    case True
    then obtain r where r: "fa_informers f t = Some r" by auto
    let ?f = "f\<lparr>fa_wg := fa_wg f + 1, fa_startedInformers := (fa_startedInformers f)(t \<mapsto> True)\<rparr>"
    have ts: "to_start f (t # ts) = t # to_start f ts" "to_start ?f ts = to_start f ts"
      using True 2(5) to_start_Cons [of t ts f "fa_wg f + 1"] by (auto simp: to_start_def)
    have run: "start_loop stop ts ?f (go_Run r stop h) = (f', h')"
      using True r 2(4) by simp
    have "t \<notin> set (to_start f ts)" using 2(5) by (simp add: to_start_def)
    then have m: "(fa_startedInformers f)(t \<mapsto> True)
          ++ (\<lambda>t'. if t' \<in> set (to_start f ts) then Some True else None)
        = fa_startedInformers f ++ (\<lambda>t'. if t' \<in> set (t # to_start f ts) then Some True else None)"
      by (auto simp: map_add_def fun_eq_iff)
    from 2(2) [OF r _ run] True 2(5) show ?thesis
      unfolding ts m [symmetric] by (simp add: ts go_Run_def r fun_upd_def)
  qed
qed

lemma set_to_start:
  "is_range ts (fa_informers f) \<Longrightarrow>
     set (to_start f ts) = {t \<in> dom (fa_informers f). fa_startedInformers f t \<noteq> Some True}"
  by (auto simp: to_start_def is_range_def)

lemma Start_effect:
  assumes "Start ts stop f h = (f', h')" "is_range ts (fa_informers f)" "\<not> fa_shuttingDown f"
  shows "f' = f\<lparr>fa_wg := fa_wg f + length (to_start f ts),
       fa_startedInformers := fa_startedInformers f ++ (\<lambda>t. if t \<in> set (to_start f ts) then Some True else None)\<rparr>"
    and "h' = h\<lparr>ih_Runs := ih_Runs h @ map (\<lambda>t. (the (fa_informers f t), stop)) (to_start f ts)\<rparr>"
  using start_loop_effect [of stop ts f h f' h'] assms by (simp_all add: Start_def is_range_def)

lemma cluster_request:
  assumes "InformerFor t n f h = (r, f', h')"
  shows "cluster_abs f' = af_request t r (cluster_abs f)" "af_Requested (cluster_abs f') t = Some r"
    "fa_shuttingDown f' = fa_shuttingDown f" "fa_startedInformers f' = fa_startedInformers f"
  using assms
  by (auto simp: InformerFor_def new_informer_def Let_def af_request_def cluster_abs_def split: option.splits)

lemma cluster_start:
  assumes "Start ts stop f h = (f', h')" "is_range ts (fa_informers f)" "\<not> fa_shuttingDown f"
  shows "cluster_abs f' = af_start (cluster_abs f)"
  by (auto simp: Start_effect(1) [OF assms] cluster_abs_def af_start_def set_to_start [OF assms(2)] map_add_def
      split: option.splits)

interpretation cluster_factory: informer_factory cluster_abs "\<lambda>f. \<not> fa_shuttingDown f" InformerFor Start
    WaitForCacheSync
proof
  show "cluster_abs f' = af_request t r (cluster_abs f) \<and> af_Requested (cluster_abs f') t = Some r
      \<and> (\<not> fa_shuttingDown f') = (\<not> fa_shuttingDown f)" if "InformerFor t n f h = (r, f', h')" for t n f h r f' h'
    by (intro conjI arg_cong [of _ _ Not] cluster_request [OF that])
  show "cluster_abs f' = af_start (cluster_abs f) \<and> \<not> fa_shuttingDown f'"
    if "\<not> fa_shuttingDown f" "is_range ts (af_Requested (cluster_abs f))" "Start ts stop f h = (f', h')"
    for f ts stop h f' h'
    using cluster_start [OF that(3)] Start_effect(1) [OF that(3)] that by (simp add: cluster_abs_def)
qed (auto simp: Start_def WaitForCacheSync_def cluster_abs_def)

lemma scoped_start_effect:
  assumes "scoped_Start ts stop f h = (f', h')"
  shows "fs_informers f' = fs_informers f
    \<and> {t. fs_startedInformers f' t = Some True}
        = {t. fs_startedInformers f t = Some True} \<union> (set ts \<inter> dom (fs_informers f))"
  using assms
proof (induction ts stop f h rule: scoped_Start.induct)
  case (2 t ts stop f h)
  show ?case
  proof (cases "fs_informers f t")
    case None
    then have "set (t # ts) \<inter> dom (fs_informers f) = set ts \<inter> dom (fs_informers f)" by auto
    with 2 None show ?thesis by simp
  next
    case r: (Some r)
    show ?thesis
    proof (cases "fs_startedInformers f t = Some True")
      case True
      then have "{t. fs_startedInformers f t = Some True} \<union> (set (t # ts) \<inter> dom (fs_informers f))
          = {t. fs_startedInformers f t = Some True} \<union> (set ts \<inter> dom (fs_informers f))" by auto
      with 2 r True show ?thesis by simp
    next
      case False
      let ?f = "f\<lparr>fs_startedInformers := (fs_startedInformers f)(t \<mapsto> True)\<rparr>"
      have "{t. fs_startedInformers f t = Some True} \<union> (set (t # ts) \<inter> dom (fs_informers f))
          = {t. fs_startedInformers ?f t = Some True} \<union> (set ts \<inter> dom (fs_informers ?f))"
        using r by (auto split: if_splits)
      moreover have "scoped_Start ts stop ?f (go_Run r stop h) = (f', h')" using 2(4) r False by simp
      ultimately show ?thesis using 2(2) [OF r False] by simp
    qed
  qed
qed simp

lemma scoped_request:
  assumes "scoped_InformerFor t n f h = (r, f', h')"
  shows "scoped_abs f' = af_request t r (scoped_abs f)" "af_Requested (scoped_abs f') t = Some r"
  using assms
  by (auto simp: scoped_InformerFor_def new_informer_def Let_def af_request_def scoped_abs_def split: option.splits)

interpretation scoped_factory: informer_factory scoped_abs "\<lambda>f. True" scoped_InformerFor scoped_Start
    scoped_WaitForCacheSync
proof
  show "scoped_abs f' = af_request t r (scoped_abs f) \<and> af_Requested (scoped_abs f') t = Some r \<and> True = True"
    if "scoped_InformerFor t n f h = (r, f', h')" for t n f h r f' h'
    by (intro conjI refl scoped_request [OF that])
  show "scoped_abs f' = af_start (scoped_abs f) \<and> True"
    if "is_range ts (af_Requested (scoped_abs f))" "scoped_Start ts stop f h = (f', h')"
    for f ts stop h f' h'
    using scoped_start_effect [OF that(2)] that(1) by (auto simp: scoped_abs_def af_start_def is_range_def)
qed (auto simp: scoped_WaitForCacheSync_def scoped_abs_def)

section \<open>The lifecycle\<close>

inductive factory_step ::
    "('o, 'r, 'x) sharedInformerFactory \<times> ('o, 'r, 'x) informer_heap
      \<Rightarrow> ('o, 'r, 'x) sharedInformerFactory \<times> ('o, 'r, 'x) informer_heap \<Rightarrow> bool" where
  Request: "InformerFor t n f h = (r, f', h') \<Longrightarrow> factory_step (f, h) (f', h')"
| Started: "is_range ts (fa_informers f) \<Longrightarrow> Start ts stop f h = (f', h') \<Longrightarrow> factory_step (f, h) (f', h')"
| Returned: "r \<in> fst ` set (ih_Runs h) \<Longrightarrow> r \<notin> set (ih_Returned h) \<Longrightarrow>
    goroutine_returns r f h = (f', h') \<Longrightarrow> factory_step (f, h) (f', h')"
| ShutDown: "factory_step (f, h) (Shutdown f, h)"

inductive_cases factory_stepE: "factory_step (f, h) (f', h')"

text \<open>
  The invariant: references are distinct; an informer has been run exactly when its type is
  started, and once; the wait group counts the runs that have not returned.
\<close>

definition started_refs :: "('o, 'r, 'x) sharedInformerFactory \<Rightarrow> nat set" where
  "started_refs f = {r. \<exists>t. fa_informers f t = Some r \<and> fa_startedInformers f t = Some True}"

definition factory_inv ::
    "('o, 'r, 'x) sharedInformerFactory \<Rightarrow> ('o, 'r, 'x) informer_heap \<Rightarrow> bool" where
  "factory_inv f h \<longleftrightarrow>
     (\<forall>t r. fa_informers f t = Some r \<longrightarrow> r < ih_Next h)
     \<and> (\<forall>t t' r. fa_informers f t = Some r \<longrightarrow> fa_informers f t' = Some r \<longrightarrow> t = t')
     \<and> (\<forall>t. fa_startedInformers f t = Some True \<longrightarrow> fa_informers f t \<noteq> None)
     \<and> fst ` set (ih_Runs h) = started_refs f
     \<and> distinct (map fst (ih_Runs h))
     \<and> distinct (ih_Returned h) \<and> set (ih_Returned h) \<subseteq> fst ` set (ih_Runs h)
     \<and> fa_wg f + length (ih_Returned h) = length (ih_Runs h)"

lemma factory_invD:
  assumes "factory_inv f h"
  shows "fa_informers f t = Some r \<Longrightarrow> r < ih_Next h"
    and "fa_informers f t = Some r \<Longrightarrow> fa_informers f t' = Some r \<Longrightarrow> t = t'"
    and "fa_startedInformers f t = Some True \<Longrightarrow> fa_informers f t \<noteq> None"
    and "fst ` set (ih_Runs h) = started_refs f"
    and "distinct (map fst (ih_Runs h))"
    and "distinct (ih_Returned h)" "set (ih_Returned h) \<subseteq> fst ` set (ih_Runs h)"
    and "fa_wg f + length (ih_Returned h) = length (ih_Runs h)"
  using assms unfolding factory_inv_def by blast+

lemma factory_inv_request:
  assumes "InformerFor t n f h = (r, f', h')" and inv: "factory_inv f h"
  shows "factory_inv f' h'"
proof (cases "fa_informers f t")
  case (Some r')
  with assms show ?thesis by (simp add: InformerFor_def)
next
  case None
  let ?i = "(fa_informers f)(t \<mapsto> ih_Next h)"
  have f': "fa_informers f' = ?i" "fa_startedInformers f' = fa_startedInformers f" "fa_wg f' = fa_wg f"
    and h': "ih_Next h' = Suc (ih_Next h)" "ih_Runs h' = ih_Runs h" "ih_Returned h' = ih_Returned h"
    using assms(1) None by (auto simp: InformerFor_def new_informer_def Let_def)
  have "fa_startedInformers f t \<noteq> Some True" using factory_invD(3) [OF inv] None by blast
  then have "started_refs f' = started_refs f"
    using None by (auto simp: started_refs_def f')
  moreover have "?i x = Some s \<Longrightarrow> s < Suc (ih_Next h)" for x s
    using factory_invD(1) [OF inv, of x s] by (simp split: if_splits)
  moreover have "?i x = Some s \<Longrightarrow> ?i y = Some s \<Longrightarrow> x = y" for x y s
    using factory_invD(1,2) [OF inv] by (fastforce split: if_splits)
  moreover have "fa_startedInformers f x = Some True \<Longrightarrow> ?i x \<noteq> None" for x
    using factory_invD(3) [OF inv, of x] by simp
  ultimately show ?thesis
    using factory_invD(4-8) [OF inv] unfolding factory_inv_def f' h' by blast
qed

lemma factory_inv_start:
  assumes run: "Start ts stop f h = (f', h')" and ts: "is_range ts (fa_informers f)" and inv: "factory_inv f h"
  shows "factory_inv f' h'"
proof (cases "fa_shuttingDown f")
  case True
  with assms show ?thesis by (simp add: Start_def)
next
  case False
  note f' = Start_effect(1) [OF run ts False] and h' = Start_effect(2) [OF run ts False]
  let ?new = "map (the \<circ> fa_informers f) (to_start f ts)"
  note new = set_to_start [OF ts]
  have st: "fa_startedInformers f' t = Some True
      \<longleftrightarrow> fa_startedInformers f t = Some True \<or> fa_informers f t \<noteq> None" for t
    by (auto simp: f' map_add_def new split: option.splits)
  have runs: "map fst (ih_Runs h') = map fst (ih_Runs h) @ ?new" by (simp add: h')
  have ref: "\<exists>t. fa_informers f t = Some r \<and> fa_startedInformers f t \<noteq> Some True" if "r \<in> set ?new" for r
    using that new by auto
  have same: "fa_informers f' = fa_informers f" by (simp add: f')
  have "set ?new = {r. \<exists>t. fa_informers f t = Some r \<and> fa_startedInformers f t \<noteq> Some True}"
    by (force simp: new)
  then have "started_refs f' = started_refs f \<union> set ?new"
    by (auto simp: started_refs_def st same)
  then have A: "fst ` set (ih_Runs h') = started_refs f'"
    using factory_invD(4) [OF inv] runs by (metis set_append set_map)
  have "inj_on (the \<circ> fa_informers f) (set (to_start f ts))"
    using factory_invD(2) [OF inv] by (auto simp: inj_on_def new)
  moreover have "distinct (to_start f ts)" using ts by (simp add: to_start_def is_range_def)
  moreover have "r \<notin> started_refs f" if "r \<in> set ?new" for r
  proof
    assume "r \<in> started_refs f"
    then obtain t' where "fa_informers f t' = Some r" "fa_startedInformers f t' = Some True"
      unfolding started_refs_def by blast
    with ref [OF that] factory_invD(2) [OF inv] show False by blast
  qed
  ultimately have B: "distinct (map fst (ih_Runs h'))"
    unfolding runs distinct_append distinct_map set_map factory_invD(4) [OF inv]
    using factory_invD(5) [OF inv] unfolding distinct_map by blast
  have C: "set (ih_Returned h') \<subseteq> fst ` set (ih_Runs h')"
    using factory_invD(7) [OF inv] by (auto simp: h')
  have D: "fa_wg f' + length (ih_Returned h') = length (ih_Runs h')"
    using factory_invD(8) [OF inv] by (simp add: f' h')
  have E: "fa_startedInformers f' t = Some True \<Longrightarrow> fa_informers f' t \<noteq> None" for t
    using st factory_invD(3) [OF inv] same by metis
  have F: "ih_Next h' = ih_Next h" "ih_Returned h' = ih_Returned h" by (simp_all add: h')
  show ?thesis
    unfolding factory_inv_def
  proof (intro conjI allI impI)
    fix t r assume "fa_informers f' t = Some r"
    then show "r < ih_Next h'" using factory_invD(1) [OF inv] by (simp add: same F)
  next
    fix t t' r assume "fa_informers f' t = Some r" "fa_informers f' t' = Some r"
    then show "t = t'" unfolding same by (rule factory_invD(2) [OF inv])
  next
    show "distinct (ih_Returned h')" using factory_invD(6) [OF inv] by (simp add: F)
  qed (fact A B C D E)+
qed

lemma factory_inv_return:
  assumes "goroutine_returns r f h = (f', h')" "r \<in> fst ` set (ih_Runs h)" "r \<notin> set (ih_Returned h)"
    and inv: "factory_inv f h"
  shows "factory_inv f' h'"
proof -
  have "card (set (r # ih_Returned h)) \<le> card (fst ` set (ih_Runs h))"
    using assms(2) factory_invD(7) [OF inv] by (intro card_mono) auto
  then have "length (ih_Returned h) < length (ih_Runs h)"
    using assms(3) factory_invD(6) [OF inv] distinct_card [OF factory_invD(5) [OF inv]]
    by (simp add: distinct_card)
  moreover have f': "f' = f\<lparr>fa_wg := fa_wg f - 1\<rparr>" "h' = h\<lparr>ih_Returned := r # ih_Returned h\<rparr>"
    using assms(1) by (simp_all add: goroutine_returns_def)
  moreover have "started_refs f' = started_refs f" by (simp add: f' started_refs_def)
  ultimately show ?thesis
    using assms(2,3) factory_invD [OF inv] unfolding factory_inv_def by simp
qed

lemma factory_inv_step: "factory_step s s' \<Longrightarrow> factory_inv (fst s) (snd s) \<Longrightarrow> factory_inv (fst s') (snd s')"
proof (induction rule: factory_step.induct)
  case (ShutDown f h)
  then have inv: "factory_inv f h" by simp
  have "started_refs (Shutdown f) = started_refs f"
    by (simp add: started_refs_def Shutdown_def)
  with factory_invD [OF inv] show ?case
    unfolding fst_conv snd_conv factory_inv_def by (simp add: Shutdown_def)
qed (auto intro: factory_inv_request factory_inv_start factory_inv_return)

abbreviation new_factory where
  "new_factory client d options \<equiv> (NewSharedInformerFactoryWithOptions client d options, empty_heap)"

lemma factory_inv_new: "factory_inv (fst (new_factory client d options)) (snd (new_factory client d options))"
  by (simp add: factory_inv_def NewSharedInformerFactoryWithOptions_def Let_def empty_heap_def started_refs_def)

lemma factory_inv_reachable:
  "factory_step\<^sup>*\<^sup>* (new_factory client d options) s \<Longrightarrow> factory_inv (fst s) (snd s)"
  by (induction rule: rtranclp_induct) (auto intro: factory_inv_new [unfolded fst_conv snd_conv] dest: factory_inv_step)

lemma step_keeps:
  "factory_step s s' \<Longrightarrow> fa_informers (fst s) t = Some r \<Longrightarrow> fa_informers (fst s') t = Some r"
proof (induction rule: factory_step.induct)
  case (Request t' n f h r' f' h')
  then show ?case by (auto simp: InformerFor_def new_informer_def Let_def split: option.splits)
next
  case (Started ts f stop h f' h')
  then show ?case
    using Start_effect(1) [of ts stop f h f' h'] by (cases "fa_shuttingDown f") (auto simp: Start_def)
qed (auto simp: Shutdown_def goroutine_returns_def)

lemma steps_keep:
  "factory_step\<^sup>*\<^sup>* s s' \<Longrightarrow> fa_informers (fst s) t = Some r \<Longrightarrow> fa_informers (fst s') t = Some r"
  by (induction rule: rtranclp_induct) (auto intro: step_keeps)

lemma step_after_shutdown:
  "factory_step s s' \<Longrightarrow> fa_shuttingDown (fst s) \<Longrightarrow>
     fa_shuttingDown (fst s') \<and> ih_Runs (snd s') = ih_Runs (snd s)
     \<and> set (ih_Returned (snd s)) \<subseteq> set (ih_Returned (snd s'))"
proof (induction rule: factory_step.induct)
  case (Request t' n f h r' f' h')
  then show ?case by (auto simp: InformerFor_def new_informer_def Let_def split: option.splits)
qed (auto simp: Start_def Shutdown_def goroutine_returns_def)

lemma steps_after_shutdown:
  "factory_step\<^sup>*\<^sup>* s s' \<Longrightarrow> fa_shuttingDown (fst s) \<Longrightarrow>
     fa_shuttingDown (fst s') \<and> ih_Runs (snd s') = ih_Runs (snd s)
     \<and> set (ih_Returned (snd s)) \<subseteq> set (ih_Returned (snd s'))"
proof (induction rule: rtranclp_induct)
  case (step y z)
  then have y: "fa_shuttingDown (fst y)" "ih_Runs (snd y) = ih_Runs (snd s)"
    "set (ih_Returned (snd s)) \<subseteq> set (ih_Returned (snd y))" by blast+
  note step_after_shutdown [OF step(2) y(1)]
  with y(2,3) show ?case by auto
qed simp

section \<open>Both factories behave alike\<close>

datatype factory_op = RequestOp go_type | StartOp nat

fun cluster_run ::
    "(go_type, nat) range_order \<Rightarrow> (go_type \<Rightarrow> ('o, 'r) slices_client \<Rightarrow> int \<Rightarrow> ('o, 'r, 'x) informer)
      \<Rightarrow> factory_op list \<Rightarrow> ('o, 'r, 'x) sharedInformerFactory \<Rightarrow> ('o, 'r, 'x) informer_heap
      \<Rightarrow> nat list \<times> ('o, 'r, 'x) sharedInformerFactory \<times> ('o, 'r, 'x) informer_heap" where
  "cluster_run ord new [] f h = ([], f, h)"
| "cluster_run ord new (RequestOp t # ops) f h =
     (case InformerFor t (new t) f h of (r, f1, h1) \<Rightarrow>
        (case cluster_run ord new ops f1 h1 of (rs, f2, h2) \<Rightarrow> (r # rs, f2, h2)))"
| "cluster_run ord new (StartOp stop # ops) f h =
     (case Start (ord 0 (fa_informers f)) stop f h of (f1, h1) \<Rightarrow> cluster_run ord new ops f1 h1)"

fun scoped_run ::
    "(go_type, nat) range_order \<Rightarrow> (go_type \<Rightarrow> ('o, 'r) slices_client \<Rightarrow> int \<Rightarrow> ('o, 'r, 'x) informer)
      \<Rightarrow> factory_op list \<Rightarrow> ('o, 'r, 'x) sharedScopedInformerFactory \<Rightarrow> ('o, 'r, 'x) informer_heap
      \<Rightarrow> nat list \<times> ('o, 'r, 'x) sharedScopedInformerFactory \<times> ('o, 'r, 'x) informer_heap" where
  "scoped_run ord new [] f h = ([], f, h)"
| "scoped_run ord new (RequestOp t # ops) f h =
     (case scoped_InformerFor t (new t) f h of (r, f1, h1) \<Rightarrow>
        (case scoped_run ord new ops f1 h1 of (rs, f2, h2) \<Rightarrow> (r # rs, f2, h2)))"
| "scoped_run ord new (StartOp stop # ops) f h =
     (case scoped_Start (ord 0 (fs_informers f)) stop f h of (f1, h1) \<Rightarrow> scoped_run ord new ops f1 h1)"

definition alike ::
    "('o, 'r, 'x) sharedInformerFactory \<Rightarrow> ('o, 'r, 'x) informer_heap
      \<Rightarrow> ('o, 'r, 'x) sharedScopedInformerFactory \<Rightarrow> ('o, 'r, 'x) informer_heap \<Rightarrow> bool" where
  "alike f h g k \<longleftrightarrow> cluster_abs f = scoped_abs g \<and> \<not> fa_shuttingDown f
     \<and> ih_Next h = ih_Next k \<and> ih_Runs h = ih_Runs k"

lemma alikeD:
  assumes "alike f h g k"
  shows "fs_informers g = fa_informers f"
    and "fs_startedInformers g t = Some True \<longleftrightarrow> fa_startedInformers f t = Some True"
    and "\<not> fa_shuttingDown f" "ih_Next k = ih_Next h" "ih_Runs k = ih_Runs h"
  using assms by (auto simp: alike_def cluster_abs_def scoped_abs_def set_eq_iff)

lemma alikeI:
  assumes "fs_informers g = fa_informers f"
    and "\<And>t. fs_startedInformers g t = Some True \<longleftrightarrow> fa_startedInformers f t = Some True"
    and "\<not> fa_shuttingDown f" "ih_Next k = ih_Next h" "ih_Runs k = ih_Runs h"
  shows "alike f h g k"
  using assms by (auto simp: alike_def cluster_abs_def scoped_abs_def)

lemma start_alike:
  "alike f h g k \<Longrightarrow> start_loop stop ts f h = (f', h') \<Longrightarrow> scoped_Start ts stop g k = (g', k') \<Longrightarrow>
     alike f' h' g' k' \<and> fa_informers f' = fa_informers f"
proof (induction ts arbitrary: f h g k)
  case (Cons t ts)
  note a = alikeD [OF Cons.prems(1)]
  show ?case
  proof (cases "fa_informers f t")
    case None
    with Cons a(1) show ?thesis by simp
  next
    case r: (Some r)
    show ?thesis
    proof (cases "fa_startedInformers f t = Some True")
      case True
      with Cons a(1,2) r show ?thesis by simp
    next
      case False
      let ?f = "f\<lparr>fa_wg := fa_wg f + 1, fa_startedInformers := (fa_startedInformers f)(t \<mapsto> True)\<rparr>"
      let ?g = "g\<lparr>fs_startedInformers := (fs_startedInformers g)(t \<mapsto> True)\<rparr>"
      have "alike ?f (go_Run r stop h) ?g (go_Run r stop k)"
        by (rule alikeI) (use a in \<open>simp_all add: go_Run_def\<close>)
      moreover have "start_loop stop ts ?f (go_Run r stop h) = (f', h')"
        using Cons.prems(2) r False by simp
      moreover have "scoped_Start ts stop ?g (go_Run r stop k) = (g', k')"
        using Cons.prems(3) r False a(1,2) by simp
      ultimately show ?thesis using Cons.IH [of ?f _ ?g] by simp
    qed
  qed
qed simp

lemma request_alike:
  assumes "alike f h g k" "InformerFor t n f h = (r, f', h')" "scoped_InformerFor t m g k = (r', g', k')"
  shows "r' = r \<and> alike f' h' g' k' \<and> dom (fa_informers f') = insert t (dom (fa_informers f))"
proof -
  note a = alikeD [OF assms(1)]
  show ?thesis
  proof (cases "fa_informers f t")
    case (Some s)
    with assms a(1) show ?thesis by (auto simp: InformerFor_def scoped_InformerFor_def)
  next
    case None
    with assms a(1) have "r = ih_Next h" "r' = ih_Next k"
      "f' = f\<lparr>fa_informers := (fa_informers f)(t \<mapsto> r)\<rparr>" "g' = g\<lparr>fs_informers := (fs_informers g)(t \<mapsto> r')\<rparr>"
      "ih_Next h' = Suc (ih_Next h)" "ih_Next k' = Suc (ih_Next k)" "ih_Runs h' = ih_Runs h" "ih_Runs k' = ih_Runs k"
      by (auto simp: InformerFor_def scoped_InformerFor_def new_informer_def Let_def)
    moreover from this have "alike f' h' g' k'" by (intro alikeI) (use a in simp_all)
    ultimately show ?thesis using a by simp
  qed
qed

lemma wait_alike: "alike f h g k \<Longrightarrow> scoped_WaitForCacheSync synced g = WaitForCacheSync synced f"
  by (auto simp: WaitForCacheSync_def scoped_WaitForCacheSync_def Let_def alikeD)

lemma runs_alike:
  assumes "alike f h g k" "cluster_run ord new ops f h = (rs, f', h')" "scoped_run ord new' ops g k = (rs', g', k')"
  shows "rs' = rs \<and> alike f' h' g' k'"
  using assms
proof (induction ord new ops f h arbitrary: g k rs rs' rule: cluster_run.induct)
  case (2 ord new t ops f h)
  obtain r f1 h1 where c: "InformerFor t (new t) f h = (r, f1, h1)" by (metis prod_cases3)
  obtain r' g1 k1 where s: "scoped_InformerFor t (new' t) g k = (r', g1, k1)" by (metis prod_cases3)
  obtain rs1 where rs1: "cluster_run ord new ops f1 h1 = (rs1, f', h')" "rs = r # rs1"
    using 2 c by (auto split: prod.splits)
  obtain rs2 where rs2: "scoped_run ord new' ops g1 k1 = (rs2, g', k')" "rs' = r' # rs2"
    using 2 s by (auto split: prod.splits)
  show ?case
    using 2(1) [OF c [symmetric] refl _ rs1(1) rs2(1)] request_alike [OF 2(2) c s] rs1 rs2 by simp
next
  case (3 ord new stop ops f h)
  obtain f1 h1 where c: "start_loop stop (ord 0 (fa_informers f)) f h = (f1, h1)" by force
  obtain g1 k1 where s: "scoped_Start (ord 0 (fa_informers f)) stop g k = (g1, k1)" by force
  have al: "alike f1 h1 g1 k1" using start_alike [OF 3(2) c s] by simp
  have "Start (ord 0 (fa_informers f)) stop f h = (f1, h1)"
    using c alikeD(3) [OF 3(2)] by (simp add: Start_def)
  moreover from this have "cluster_run ord new ops f1 h1 = (rs, f', h')" using 3(3) by simp
  moreover have "scoped_run ord new' ops g1 k1 = (rs', g', k')"
    using 3(4) s alikeD(1) [OF 3(2)] by simp
  ultimately show ?case using 3(1) al by metis
qed simp

section \<open>Properties\<close>

text \<open>The example: one informer, requested and started with stop channel 7.\<close>

definition w_slices_client :: "(nat, nat) slices_client" where
  "w_slices_client = \<lparr>sc_List = (\<lambda>x. x), sc_Watch = (\<lambda>x. x)\<rparr>"

definition w_factory :: "(nat, nat, nat) sharedInformerFactory" where
  "w_factory = NewSharedInformerFactory w_slices_client 600"

definition w_requested :: "(nat, nat, nat) sharedInformerFactory \<times> (nat, nat, nat) informer_heap" where
  "w_requested = snd (slices_Informer w_factory empty_heap)"

definition w_started :: "(nat, nat, nat) sharedInformerFactory \<times> (nat, nat, nat) informer_heap" where
  "w_started = Start [slice_type] 7 (fst w_requested) (snd w_requested)"

lemma w_requested_eq:
  "fa_informers (fst w_requested) = [slice_type \<mapsto> 0]" "fa_startedInformers (fst w_requested) = Map.empty"
  "\<not> fa_shuttingDown (fst w_requested)" "ih_Runs (snd w_requested) = []" "fa_wg (fst w_requested) = 0"
  by (simp_all add: w_requested_def slices_Informer_def InformerFor_def w_factory_def Let_def new_informer_def
      NewSharedInformerFactory_def NewSharedInformerFactoryWithOptions_def empty_heap_def)

lemma w_started_eq:
  "fa_informers (fst w_started) = [slice_type \<mapsto> 0]" "fa_startedInformers (fst w_started) slice_type = Some True"
  "ih_Runs (snd w_started) = [(0, 7)]" "fa_wg (fst w_started) = 1"
  by (simp_all add: w_started_def Start_def w_requested_eq go_Run_def)

lemma w_range: "is_range [slice_type] (fa_informers (fst w_requested))"
  by (simp add: is_range_def w_requested_eq)

lemma w_request_step: "factory_step (new_factory w_slices_client 600 []) w_requested"
proof -
  obtain r f h where e: "slices_Informer w_factory empty_heap = (r, f, h)" by (metis prod_cases3)
  then have "factory_step (w_factory, empty_heap) (f, h)"
    unfolding slices_Informer_def by (rule factory_step.Request)
  then show ?thesis
    unfolding w_requested_def e snd_conv by (simp add: w_factory_def NewSharedInformerFactory_def)
qed

lemma w_factory_reachable:
  "factory_step\<^sup>*\<^sup>* (new_factory w_slices_client 600 []) w_started"
proof -
  note w_request_step
  moreover have "factory_step w_requested w_started"
    using factory_step.Started [OF w_range, of 7 "snd w_requested" "fst w_started" "snd w_started"]
    by (simp add: w_started_def)
  ultimately show ?thesis by (meson converse_rtranclp_into_rtranclp r_into_rtranclp)
qed

text \<open>
  C37: Over every sequence of requests, starts, returning goroutines and shutdown, no informer
  is run twice, an informer runs exactly when its type is marked started, and the wait group
  counts the goroutines that have not returned.
\<close>

theorem informers_run_once:
  assumes "factory_step\<^sup>*\<^sup>* (new_factory client d options) (f, h)"
  shows "distinct (map fst (ih_Runs h))
    \<and> (\<forall>t r. fa_informers f t = Some r \<longrightarrow>
          (r \<in> fst ` set (ih_Runs h) \<longleftrightarrow> fa_startedInformers f t = Some True))
    \<and> fa_wg f = card (fst ` set (ih_Runs h) - set (ih_Returned h))"
proof -
  have inv: "factory_inv f h" using factory_inv_reachable [OF assms] by simp
  have "card (fst ` set (ih_Runs h)) = length (ih_Runs h)" "card (set (ih_Returned h)) = length (ih_Returned h)"
    using distinct_card [OF factory_invD(5) [OF inv]] distinct_card [OF factory_invD(6) [OF inv]] by simp_all
  then have "fa_wg f = card (fst ` set (ih_Runs h) - set (ih_Returned h))"
    using factory_invD(7,8) [OF inv] by (simp add: card_Diff_subset)
  moreover have "r \<in> fst ` set (ih_Runs h) \<longleftrightarrow> fa_startedInformers f t = Some True"
    if "fa_informers f t = Some r" for t r
    unfolding factory_invD(4) [OF inv] started_refs_def using that factory_invD(2) [OF inv] by blast
  ultimately show ?thesis using factory_invD(5) [OF inv] by blast
qed

theorem informers_run_once_witness:
  "distinct (map fst (ih_Runs (snd w_started)))
   \<and> 1 = card (fst ` set (ih_Runs (snd w_started)) - set (ih_Returned (snd w_started)))"
  using informers_run_once [of w_slices_client 600 "[]" "fst w_started" "snd w_started"] w_factory_reachable
  by (simp add: w_started_eq)



text \<open>
  Once Shutdown has returned, every informer that was run has returned, and no later request
  or start runs another one.
\<close>

theorem shutdown_is_final:
  assumes reach: "factory_step\<^sup>*\<^sup>* (new_factory client d options) (f, h)"
    and over: "Shutdown_returns f" and later: "factory_step\<^sup>*\<^sup>* (f, h) (f', h')"
  shows "ih_Runs h' = ih_Runs h \<and> fst ` set (ih_Runs h) = set (ih_Returned h') \<and> Shutdown_returns f'"
proof -
  have inv: "factory_inv f' h'" and reach': "factory_inv f h"
    using factory_inv_reachable [OF rtranclp_trans [OF reach later]] factory_inv_reachable [OF reach] by simp_all
  have down: "fa_shuttingDown f" "fa_wg f = 0" using over by (simp_all add: Shutdown_returns_def)
  have same: "fa_shuttingDown f'" "ih_Runs h' = ih_Runs h" "set (ih_Returned h) \<subseteq> set (ih_Returned h')"
    using steps_after_shutdown [OF later] down by simp_all
  have "card (set (ih_Returned h)) = card (fst ` set (ih_Runs h))"
    using factory_invD(8) [OF reach'] down(2) distinct_card [OF factory_invD(5) [OF reach']]
      distinct_card [OF factory_invD(6) [OF reach']] by simp
  then have "set (ih_Returned h) = fst ` set (ih_Runs h)"
    using factory_invD(7) [OF reach'] by (intro card_subset_eq) auto
  moreover have "set (ih_Returned h') \<subseteq> fst ` set (ih_Runs h)"
    using factory_invD(7) [OF inv] same(2) by simp
  ultimately have all: "fst ` set (ih_Runs h) = set (ih_Returned h')" using same(3) by blast
  then have "length (ih_Returned h') = length (ih_Runs h')"
    using distinct_card [OF factory_invD(5) [OF inv]] distinct_card [OF factory_invD(6) [OF inv]] same(2) by simp
  then have "fa_wg f' = 0" using factory_invD(8) [OF inv] by simp
  with same all show ?thesis by (simp add: Shutdown_returns_def)
qed

theorem shutdown_is_final_witness:
  "ih_Runs (snd (Start [] 3 (Shutdown w_factory) empty_heap)) = []"
proof -
  have "factory_step\<^sup>*\<^sup>* (new_factory w_slices_client 600 []) (Shutdown w_factory, empty_heap)"
    by (rule r_into_rtranclp) (simp add: w_factory_def NewSharedInformerFactory_def factory_step.ShutDown)
  moreover have "Shutdown_returns (Shutdown w_factory)"
    by (simp add: Shutdown_returns_def Shutdown_def w_factory_def NewSharedInformerFactory_def
        NewSharedInformerFactoryWithOptions_def Let_def)
  moreover have "factory_step\<^sup>*\<^sup>* (Shutdown w_factory, empty_heap) (Start [] 3 (Shutdown w_factory) empty_heap)"
    by (simp add: Start_def Shutdown_def)
  ultimately show ?thesis
    using shutdown_is_final [of w_slices_client 600 "[]" "Shutdown w_factory" empty_heap]
    by (simp add: empty_heap_def Start_def Shutdown_def)
qed

text \<open>
  After a start of a factory that is not shutting down, every requested informer has been run,
  and waiting for the caches reports on exactly these.
\<close>

theorem start_then_wait:
  assumes reach: "factory_step\<^sup>*\<^sup>* (new_factory client d options) (f, h)"
    and ts: "is_range ts (fa_informers f)" and open_for: "\<not> fa_shuttingDown f"
    and start: "Start ts stop f h = (f', h')"
  shows "WaitForCacheSync synced f' = map_option synced \<circ> fa_informers f
    \<and> ran (fa_informers f) = fst ` set (ih_Runs h')"
proof
  show "WaitForCacheSync synced f' = map_option synced \<circ> fa_informers f"
    using cluster_factory.start_covers_requests [of f ts stop h f' h' synced] ts open_for start
    by (simp add: cluster_abs_def)
next
  have "factory_step (f, h) (f', h')" using ts start by (rule factory_step.Started)
  then have inv: "factory_inv f' h'"
    using factory_inv_reachable [OF rtranclp.rtrancl_into_rtrancl [OF reach]] by fastforce
  have "fa_informers f' = fa_informers f" by (simp add: Start_effect(1) [OF start ts open_for])
  moreover have "{t. fa_startedInformers f' t = Some True} \<supseteq> dom (fa_informers f)"
    using cluster_start [OF start ts open_for] by (simp add: cluster_abs_def af_start_def)
  ultimately have "started_refs f' = ran (fa_informers f)" by (auto simp: started_refs_def ran_def)
  then show "ran (fa_informers f) = fst ` set (ih_Runs h')" using factory_invD(4) [OF inv] by simp
qed

theorem start_then_wait_witness:
  "WaitForCacheSync (\<lambda>r. r = 0) (fst w_started) slice_type = Some True"
proof -
  have "factory_step\<^sup>*\<^sup>* (new_factory w_slices_client 600 []) (fst w_requested, snd w_requested)"
    using w_request_step by simp
  from start_then_wait [OF this w_range w_requested_eq(3), of 7 "fst w_started" "snd w_started" "\<lambda>r. r = 0"]
  show ?thesis by (simp add: w_started_def w_requested_eq)
qed

text \<open>
  For the same sequence of requests and starts the workspace-scoped factory hands out the same
  informers, runs the same ones with the same stop channels, and waits for the same ones as
  the cluster-wide factory.
\<close>

theorem scoped_refines_cluster:
  fixes f :: "('o, 'r, 'x) sharedInformerFactory" and g :: "('o, 'r, 'x) sharedScopedInformerFactory"
    and h k :: "('o, 'r, 'x) informer_heap"
  assumes "cluster_run ord new ops (NewSharedInformerFactoryWithOptions client d options) empty_heap = (rs, f, h)"
    and "scoped_run ord new' ops (NewSharedScopedInformerFactoryWithOptions client' d' options') empty_heap
      = (rs', g, k)"
  shows "rs' = rs \<and> ih_Runs k = ih_Runs h \<and> scoped_abs g = cluster_abs f
    \<and> scoped_WaitForCacheSync synced g = WaitForCacheSync synced f"
proof -
  have "alike (NewSharedInformerFactoryWithOptions client d options) empty_heap
      (NewSharedScopedInformerFactoryWithOptions client' d' options') empty_heap"
    by (simp add: alike_def cluster_abs_def scoped_abs_def NewSharedInformerFactoryWithOptions_def
        NewSharedScopedInformerFactoryWithOptions_def Let_def empty_heap_def)
  from runs_alike [OF this assms] have r: "rs' = rs" and al: "alike f h g k" by blast+
  note wait_alike [OF al, of synced]
  with r al show ?thesis unfolding alike_def by metis
qed

theorem scoped_refines_cluster_witness:
  "fst (scoped_run (range_in [slice_type]) (\<lambda>_. scoped_defaultInformer None) [RequestOp slice_type, StartOp 7]
     (NewSharedScopedInformerFactoryWithOptions w_slices_client 60 []) (empty_heap :: (nat, nat, nat) informer_heap))
   = fst (cluster_run (range_in [slice_type]) (\<lambda>_. defaultInformer None) [RequestOp slice_type, StartOp 7]
     (NewSharedInformerFactoryWithOptions w_slices_client 600 []) (empty_heap :: (nat, nat, nat) informer_heap))"
  (is "fst ?s = fst ?c")
proof -
  obtain rs f h where c: "?c = (rs, f, h)" by (metis prod_cases3)
  obtain rs' g k where s: "?s = (rs', g, k)" by (metis prod_cases3)
  from scoped_refines_cluster [OF c s] show ?thesis by (simp only: c s fst_conv)
qed

text \<open>
  The option WithTransform has no effect: with either factory the informer of the slices is
  made without a transform, although the cluster-wide factory has stored it.
\<close>

theorem transform_option_ignored:
  assumes "slices_Informer (NewSharedInformerFactoryWithOptions client d (options @ [WithTransform (Some tr)])) h
      = (r, f, h')"
    and "scoped_slices_Informer
      (NewSharedScopedInformerFactoryWithOptions client d (options @ [WithTransform (Some tr)])) h = (r', g, k')"
  shows "fa_transform f = Some tr
    \<and> (\<exists>i. ih_Informers h' r = Some i \<and> in_Transform i = None)
    \<and> (\<exists>i. ih_Informers k' r' = Some i \<and> in_Transform i = None)"
  using assms
  by (auto simp: slices_Informer_def scoped_slices_Informer_def InformerFor_def scoped_InformerFor_def Let_def
      NewSharedInformerFactoryWithOptions_def NewSharedScopedInformerFactoryWithOptions_def new_informer_def
      apply_options_def WithTransform_def defaultInformer_def
      NewFilteredFilteredAPIExportEndpointSliceClusterInformer_def)

theorem transform_option_ignored_witness:
  "fa_transform (fst (snd (slices_Informer
      (NewSharedInformerFactoryWithOptions w_slices_client 600 ([] @ [WithTransform (Some Suc)])) empty_heap))) = Some Suc
   \<and> in_Transform (the (ih_Informers (snd (snd (slices_Informer
      (NewSharedInformerFactoryWithOptions w_slices_client 600 ([] @ [WithTransform (Some Suc)])) empty_heap))) 0)) = None"
  (is "fa_transform (fst (snd ?c)) = _ \<and> _")
proof -
  obtain r f h' where c: "?c = (r, f, h')" by (metis prod_cases3)
  obtain r' g k' where s: "scoped_slices_Informer (NewSharedScopedInformerFactoryWithOptions w_slices_client 600
      ([] @ [WithTransform (Some Suc)])) empty_heap = (r', g, k')" by (metis prod_cases3)
  have "r = 0" using c
    by (auto simp: slices_Informer_def InformerFor_def NewSharedInformerFactoryWithOptions_def Let_def
        new_informer_def empty_heap_def)
  with transform_option_ignored [OF c s] show ?thesis unfolding c by auto
qed

end
