(* ===== verification/Listers.thy ===== *)
theory Listers
  imports Examples
begin

text \<open>
  The listers of \<open>sdk/client/listers/filteredvw/v1alpha1\<close>, through which the authorizers, the
  admission and the API reconciler read endpoint slices. The indexer behind them, and the
  keys it uses, are client-go's and kcp's; \<open>indexer_law\<close> is their documented behaviour: the
  objects are stored under the key of their cluster and name, \<open>GetByKey\<close> reads the store, and
  the list functions hand over the stored objects that match.
\<close>

record 'sel indexer =
  ix_GetByKey :: "string \<Rightarrow> go_error + slice option"
  ix_ListAll :: "'sel \<Rightarrow> slice list \<times> go_error option"
    \<comment> \<open>the objects handed to the append function, and the error\<close>
  ix_ListAllByCluster :: "string \<Rightarrow> 'sel \<Rightarrow> slice list \<times> go_error option"

type_synonym cluster_key = "string \<Rightarrow> string \<Rightarrow> string \<Rightarrow> string"

text \<open>The append function \<open>ret = append(ret, m)\<close> over the objects handed over.\<close>

definition collect :: "slice list \<times> go_error option \<Rightarrow> slice list \<times> go_error option" where
  "collect res = (case res of (ms, err) \<Rightarrow> (foldl (\<lambda>ret m. ret @ [m]) [] ms, err))"

record 'sel filteredAPIExportEndpointSliceClusterLister =
  cli_indexer :: "'sel indexer"

definition NewFilteredAPIExportEndpointSliceClusterLister ::
    "'sel indexer \<Rightarrow> 'sel filteredAPIExportEndpointSliceClusterLister" where
  "NewFilteredAPIExportEndpointSliceClusterLister indexer = \<lparr>cli_indexer = indexer\<rparr>"

definition ClusterLister_List ::
    "'sel filteredAPIExportEndpointSliceClusterLister \<Rightarrow> 'sel \<Rightarrow> slice list \<times> go_error option" where
  "ClusterLister_List s selector = collect (ix_ListAll (cli_indexer s) selector)"

record 'sel filteredAPIExportEndpointSliceLister =
  li_indexer :: "'sel indexer"
  li_clusterName :: string

definition ClusterLister_Cluster ::
    "'sel filteredAPIExportEndpointSliceClusterLister \<Rightarrow> string \<Rightarrow> 'sel filteredAPIExportEndpointSliceLister" where
  "ClusterLister_Cluster s clusterName = \<lparr>li_indexer = cli_indexer s, li_clusterName = clusterName\<rparr>"

definition Lister_List ::
    "'sel filteredAPIExportEndpointSliceLister \<Rightarrow> 'sel \<Rightarrow> slice list \<times> go_error option" where
  "Lister_List s selector = collect (ix_ListAllByCluster (li_indexer s) (li_clusterName s) selector)"

text \<open>\<open>errors.NewNotFound\<close> with the resource of the slices.\<close>

definition NewNotFound :: "group_resource \<Rightarrow> string \<Rightarrow> go_error" where
  "NewNotFound gr name = NotFound (Sprintf ''%s.%s %q not found'' [Str (gr_Resource gr), Str (gr_Group gr), Str name])"

definition get_by_key :: "'sel indexer \<Rightarrow> string \<Rightarrow> string \<Rightarrow> go_error + slice" where
  "get_by_key indexer key name =
     (case ix_GetByKey indexer key of
        Inl err \<Rightarrow> Inl err
      | Inr None \<Rightarrow> Inl (NewNotFound (Resource ''filteredapiexportendpointslices'') name)
      | Inr (Some obj) \<Rightarrow> Inr obj)"

definition Lister_Get ::
    "cluster_key \<Rightarrow> 'sel filteredAPIExportEndpointSliceLister \<Rightarrow> string \<Rightarrow> go_error + slice" where
  "Lister_Get ToClusterAwareKey s name =
     get_by_key (li_indexer s) (ToClusterAwareKey (li_clusterName s) '''' name) name"

record 'sel filteredAPIExportEndpointSliceScopedLister =
  sli_indexer :: "'sel indexer"

definition NewFilteredAPIExportEndpointSliceLister ::
    "'sel indexer \<Rightarrow> 'sel filteredAPIExportEndpointSliceScopedLister" where
  "NewFilteredAPIExportEndpointSliceLister indexer = \<lparr>sli_indexer = indexer\<rparr>"

definition ScopedLister_List ::
    "'sel filteredAPIExportEndpointSliceScopedLister \<Rightarrow> 'sel \<Rightarrow> slice list \<times> go_error option" where
  "ScopedLister_List s selector = collect (ix_ListAll (sli_indexer s) selector)"

definition ScopedLister_Get ::
    "'sel filteredAPIExportEndpointSliceScopedLister \<Rightarrow> string \<Rightarrow> go_error + slice" where
  "ScopedLister_Get s name = get_by_key (sli_indexer s) name name"

text \<open>The getter the constructors of the authorizers and of the admission build from a lister.\<close>

definition slice_getter :: "cluster_key \<Rightarrow> 'sel indexer \<Rightarrow> slice getter" where
  "slice_getter K indexer clusterName name =
     Lister_Get K (ClusterLister_Cluster (NewFilteredAPIExportEndpointSliceClusterLister indexer) clusterName) name"

section \<open>What the listers read\<close>

definition indexer_law ::
    "cluster_key \<Rightarrow> ('sel \<Rightarrow> slice \<Rightarrow> bool) \<Rightarrow> (string \<rightharpoonup> slice) \<Rightarrow> 'sel indexer \<Rightarrow> bool" where
  "indexer_law K matches store indexer \<longleftrightarrow>
     (\<forall>k s. store k = Some s \<longrightarrow> k = K (sl_Cluster s) '''' (sl_Name s))
     \<and> (\<forall>k. ix_GetByKey indexer k = Inr (store k))
     \<and> (\<forall>sel. set (fst (ix_ListAll indexer sel)) = {s \<in> ran store. matches sel s}
          \<and> snd (ix_ListAll indexer sel) = None)
     \<and> (\<forall>c sel. set (fst (ix_ListAllByCluster indexer c sel))
            = {s \<in> ran store. sl_Cluster s = c \<and> matches sel s}
          \<and> snd (ix_ListAllByCluster indexer c sel) = None)"

text \<open>Keys of different clusters or names differ, for the clusters and names that occur.\<close>

definition key_law :: "cluster_key \<Rightarrow> string set \<Rightarrow> bool" where
  "key_law K names \<longleftrightarrow>
     (\<forall>c \<in> names. \<forall>c' \<in> names. \<forall>n \<in> names. \<forall>n' \<in> names. K c '''' n = K c' '''' n' \<longrightarrow> c = c' \<and> n = n')"

lemma collect_eq [simp]: "collect res = res"
proof -
  have "foldl (\<lambda>ret m. ret @ [m]) acc ms = acc @ ms" for acc ms :: "slice list"
    by (induction ms arbitrary: acc) simp_all
  then show ?thesis by (simp add: collect_def split: prod.split)
qed

lemma slice_getter_eq:
  "slice_getter K indexer c n = get_by_key indexer (K c '''' n) n"
  by (simp add: slice_getter_def Lister_Get_def ClusterLister_Cluster_def
      NewFilteredAPIExportEndpointSliceClusterLister_def)

lemma get_by_key_store:
  "indexer_law K matches store indexer \<Longrightarrow>
     get_by_key indexer k n = (case store k of None \<Rightarrow>
       Inl (NewNotFound (Resource ''filteredapiexportendpointslices'') n) | Some s \<Rightarrow> Inr s)"
  by (simp add: indexer_law_def get_by_key_def split: option.splits)

lemma store_key:
  assumes "indexer_law K matches store indexer"
  shows "s \<in> ran store \<longleftrightarrow> store (K (sl_Cluster s) '''' (sl_Name s)) = Some s"
  using assms by (auto simp: indexer_law_def ran_def)

text \<open>
  Reading a slice by cluster and name through the lister gives a slice exactly when it is in
  the store under that cluster and name, and otherwise a not-found error.
\<close>

theorem lister_reads_store:
  assumes law: "indexer_law K matches store indexer"
    and keys: "key_law K names" and dom: "\<forall>s \<in> ran store. sl_Cluster s \<in> names \<and> sl_Name s \<in> names"
    and cn: "c \<in> names" "n \<in> names"
  shows "(slice_getter K indexer c n = Inr s \<longleftrightarrow> s \<in> ran store \<and> sl_Cluster s = c \<and> sl_Name s = n)
    \<and> (\<forall>e. slice_getter K indexer c n = Inl e \<longrightarrow> IsNotFound e)"
proof -
  let ?get = "slice_getter K indexer c n"
  have get: "?get = (case store (K c '''' n) of None \<Rightarrow>
       Inl (NewNotFound (Resource ''filteredapiexportendpointslices'') n) | Some s \<Rightarrow> Inr s)"
    unfolding slice_getter_eq by (rule get_by_key_store [OF law])
  have "s \<in> ran store \<and> sl_Cluster s = c \<and> sl_Name s = n" if "store (K c '''' n) = Some s" for s
  proof -
    have ran: "s \<in> ran store" using that by (rule ranI)
    have "K c '''' n = K (sl_Cluster s) '''' (sl_Name s)"
      using law that unfolding indexer_law_def by blast
    then show ?thesis using keys dom ran cn unfolding key_law_def by metis
  qed
  moreover have "store (K c '''' n) = Some s" if "s \<in> ran store" "sl_Cluster s = c" "sl_Name s = n"
    using that store_key [OF law] by blast
  ultimately have "?get = Inr s \<longleftrightarrow> s \<in> ran store \<and> sl_Cluster s = c \<and> sl_Name s = n"
    unfolding get by (cases "store (K c '''' n)") auto
  moreover have "?get = Inl e \<Longrightarrow> IsNotFound e" for e
    unfolding get by (auto simp: NewNotFound_def split: option.splits)
  ultimately show ?thesis by blast
qed

lemma lists_agree_with_get:
  assumes law: "indexer_law K matches store indexer"
  shows "s \<in> set (fst (Lister_List (ClusterLister_Cluster \<lparr>cli_indexer = indexer\<rparr> c) sel))
    \<longleftrightarrow> slice_getter K indexer c (sl_Name s) = Inr s \<and> sl_Cluster s = c \<and> matches sel s"
proof -
  have "s \<in> set (fst (ix_ListAllByCluster indexer c sel)) \<longleftrightarrow> s \<in> ran store \<and> sl_Cluster s = c \<and> matches sel s"
    using law unfolding indexer_law_def by auto
  moreover have "slice_getter K indexer (sl_Cluster s) (sl_Name s) = Inr s \<longleftrightarrow> s \<in> ran store"
    unfolding slice_getter_eq get_by_key_store [OF law] store_key [OF law]
    by (simp split: option.splits)
  ultimately show ?thesis
    by (auto simp: Lister_List_def ClusterLister_Cluster_def)
qed

lemma cluster_list_is_union:
  assumes "indexer_law K matches store indexer"
  shows "set (fst (ClusterLister_List \<lparr>cli_indexer = indexer\<rparr> sel))
    = (\<Union>c. set (fst (Lister_List (ClusterLister_Cluster \<lparr>cli_indexer = indexer\<rparr> c) sel)))"
  using assms by (auto simp: ClusterLister_List_def Lister_List_def ClusterLister_Cluster_def indexer_law_def)

definition w_cluster_key :: cluster_key where [world]:
  "w_cluster_key c ns n = c @ ''|'' @ n"

definition w_store :: "string \<rightharpoonup> slice" where [world]:
  "w_store = [''prov|es'' \<mapsto> w_slice]"

definition w_indexer :: "unit indexer" where [world]:
  "w_indexer = \<lparr>ix_GetByKey = (\<lambda>k. Inr (w_store k)), ix_ListAll = (\<lambda>_. ([w_slice], None)),
     ix_ListAllByCluster = (\<lambda>c _. (if c = ''prov'' then [w_slice] else [], None))\<rparr>"

theorem lister_reads_store_witness:
  "slice_getter w_cluster_key w_indexer ''prov'' ''es'' = Inr w_slice
   \<and> (\<exists>e. slice_getter w_cluster_key w_indexer ''es'' ''prov'' = Inl e \<and> IsNotFound e)"
proof -
  have law: "indexer_law w_cluster_key (\<lambda>_ _. True) w_store w_indexer"
    by (auto simp: indexer_law_def w_indexer_def w_store_def w_cluster_key_def w_slice_def)
  have keys: "key_law w_cluster_key {''prov'', ''es''}"
    by (simp add: key_law_def w_cluster_key_def)
  have dom: "\<forall>s \<in> ran w_store. sl_Cluster s \<in> {''prov'', ''es''} \<and> sl_Name s \<in> {''prov'', ''es''}"
    by (simp add: w_store_def w_slice_def)
  have s: "w_slice \<in> ran w_store" "sl_Cluster w_slice = ''prov''" "sl_Name w_slice = ''es''"
    by (simp_all add: w_store_def w_slice_def)
  have other: "slice_getter w_cluster_key w_indexer ''es'' ''prov'' \<noteq> Inr s" for s
    using lister_reads_store [OF law keys dom, of "''es''" "''prov''" s] by (simp add: w_store_def w_slice_def)
  obtain e where e: "slice_getter w_cluster_key w_indexer ''es'' ''prov'' = Inl e"
    using other by (cases "slice_getter w_cluster_key w_indexer ''es'' ''prov''") blast+
  show ?thesis
    using lister_reads_store [OF law keys dom, of "''prov''" "''es''" w_slice] s
      lister_reads_store [OF law keys dom, of "''es''" "''prov''" w_slice] e by simp
qed

end
