(* ===== verification/Informer_Access.thy ===== *)
theory Informer_Access
  imports Informer_Factory Listers
begin

text \<open>
  The way from a factory to the informer and the lister of the slices: \<open>interface.go\<close> of both
  informer packages, the accessors of \<open>filteredapiexportendpointslice.go\<close> and \<open>generic.go\<close>, and the
  view of a factory scoped to one cluster. The factory is passed as state, so an accessor record
  holds only what it captured from it. \<open>GetIndexer\<close> of an informer is client-go's: a function from
  the informer to its indexer.
\<close>

section \<open>The accessors\<close>

record 'o informers_group =
  ig_tweakListOptions :: "('o \<Rightarrow> 'o) option"

record 'o informers_version =
  iv_tweakListOptions :: "('o \<Rightarrow> 'o) option"

record 'o filteredAPIExportEndpointSliceClusterInformer =
  ci_tweakListOptions :: "('o \<Rightarrow> 'o) option"

definition Filteredvw :: "('o, 'r, 'x) sharedInformerFactory \<Rightarrow> 'o informers_group" where
  "Filteredvw f = \<lparr>ig_tweakListOptions = fa_tweakListOptions f\<rparr>"

definition group_V1alpha1 :: "'o informers_group \<Rightarrow> 'o informers_version" where
  "group_V1alpha1 g = \<lparr>iv_tweakListOptions = ig_tweakListOptions g\<rparr>"

definition version_FilteredAPIExportEndpointSlices ::
    "'o informers_version \<Rightarrow> 'o filteredAPIExportEndpointSliceClusterInformer" where
  "version_FilteredAPIExportEndpointSlices v = \<lparr>ci_tweakListOptions = iv_tweakListOptions v\<rparr>"

definition cluster_Informer ::
    "'o filteredAPIExportEndpointSliceClusterInformer \<Rightarrow> ('o, 'r, 'x) sharedInformerFactory
      \<Rightarrow> ('o, 'r, 'x) informer_heap
      \<Rightarrow> nat \<times> ('o, 'r, 'x) sharedInformerFactory \<times> ('o, 'r, 'x) informer_heap" where
  "cluster_Informer ci f h = InformerFor slice_type (defaultInformer (ci_tweakListOptions ci)) f h"

definition cluster_Lister ::
    "(nat \<Rightarrow> 'sel indexer) \<Rightarrow> 'o filteredAPIExportEndpointSliceClusterInformer
      \<Rightarrow> ('o, 'r, 'x) sharedInformerFactory \<Rightarrow> ('o, 'r, 'x) informer_heap
      \<Rightarrow> 'sel filteredAPIExportEndpointSliceClusterLister \<times> ('o, 'r, 'x) sharedInformerFactory
         \<times> ('o, 'r, 'x) informer_heap" where
  "cluster_Lister GetIndexer ci f h =
     (case cluster_Informer ci f h of
        (informer, f', h') \<Rightarrow> (NewFilteredAPIExportEndpointSliceClusterLister (GetIndexer informer), f', h'))"

text \<open>An informer of one cluster is the shared one with the name of the cluster.\<close>

record 'sel filteredAPIExportEndpointSliceInformer =
  fi_informer :: "nat \<times> string"
  fi_lister :: "'sel filteredAPIExportEndpointSliceLister"

definition informer_Cluster ::
    "(nat \<Rightarrow> 'sel indexer) \<Rightarrow> 'o filteredAPIExportEndpointSliceClusterInformer \<Rightarrow> string
      \<Rightarrow> ('o, 'r, 'x) sharedInformerFactory \<Rightarrow> ('o, 'r, 'x) informer_heap
      \<Rightarrow> 'sel filteredAPIExportEndpointSliceInformer \<times> ('o, 'r, 'x) sharedInformerFactory
         \<times> ('o, 'r, 'x) informer_heap" where
  "informer_Cluster GetIndexer ci clusterName f h =
     (case cluster_Informer ci f h of
        (informer, f1, h1) \<Rightarrow>
          (case cluster_Lister GetIndexer ci f1 h1 of
             (lister, f2, h2) \<Rightarrow>
               (\<lparr>fi_informer = (informer, clusterName), fi_lister = ClusterLister_Cluster lister clusterName\<rparr>,
                f2, h2)))"

section \<open>The accessors of the scoped factory\<close>

record 'o scopedGroup =
  sg_tweakListOptions :: "('o \<Rightarrow> 'o) option"
  sg_namespace :: string

record 'o scopedVersion =
  sv_tweakListOptions :: "('o \<Rightarrow> 'o) option"
  sv_namespace :: string

record 'o filteredAPIExportEndpointSliceScopedInformer =
  si_tweakListOptions :: "('o \<Rightarrow> 'o) option"

definition scoped_Filteredvw :: "('o, 'r, 'x) sharedScopedInformerFactory \<Rightarrow> 'o scopedGroup" where
  "scoped_Filteredvw f = \<lparr>sg_tweakListOptions = fs_tweakListOptions f, sg_namespace = fs_namespace f\<rparr>"

definition scopedGroup_V1alpha1 :: "'o scopedGroup \<Rightarrow> 'o scopedVersion" where
  "scopedGroup_V1alpha1 g = \<lparr>sv_tweakListOptions = sg_tweakListOptions g, sv_namespace = sg_namespace g\<rparr>"

text \<open>Slices are cluster-scoped: the namespace ends here.\<close>

definition scopedVersion_FilteredAPIExportEndpointSlices ::
    "'o scopedVersion \<Rightarrow> 'o filteredAPIExportEndpointSliceScopedInformer" where
  "scopedVersion_FilteredAPIExportEndpointSlices v = \<lparr>si_tweakListOptions = sv_tweakListOptions v\<rparr>"

definition scoped_Informer ::
    "'o filteredAPIExportEndpointSliceScopedInformer \<Rightarrow> ('o, 'r, 'x) sharedScopedInformerFactory
      \<Rightarrow> ('o, 'r, 'x) informer_heap
      \<Rightarrow> nat \<times> ('o, 'r, 'x) sharedScopedInformerFactory \<times> ('o, 'r, 'x) informer_heap" where
  "scoped_Informer si f h = scoped_InformerFor slice_type (scoped_defaultInformer (si_tweakListOptions si)) f h"

definition scoped_Lister ::
    "(nat \<Rightarrow> 'sel indexer) \<Rightarrow> 'o filteredAPIExportEndpointSliceScopedInformer
      \<Rightarrow> ('o, 'r, 'x) sharedScopedInformerFactory \<Rightarrow> ('o, 'r, 'x) informer_heap
      \<Rightarrow> 'sel filteredAPIExportEndpointSliceScopedLister \<times> ('o, 'r, 'x) sharedScopedInformerFactory
         \<times> ('o, 'r, 'x) informer_heap" where
  "scoped_Lister GetIndexer si f h =
     (case scoped_Informer si f h of
        (informer, f', h') \<Rightarrow> (NewFilteredAPIExportEndpointSliceLister (GetIndexer informer), f', h'))"

section \<open>Generic access\<close>

record genericClusterInformer =
  gc_informer :: nat
  gc_resource :: group_resource

text \<open>Generic listers are kcp's; one is determined by its indexer, resource and cluster.\<close>

record 'sel generic_lister =
  gl_indexer :: "'sel indexer"
  gl_resource :: group_resource
  gl_cluster :: "string option"

record 'sel genericInformer =
  gi_informer :: "nat \<times> string"
  gi_lister :: "'sel generic_lister"

definition generic_Lister :: "(nat \<Rightarrow> 'sel indexer) \<Rightarrow> genericClusterInformer \<Rightarrow> 'sel generic_lister" where
  "generic_Lister GetIndexer f =
     \<lparr>gl_indexer = GetIndexer (gc_informer f), gl_resource = gc_resource f, gl_cluster = None\<rparr>"

definition generic_Cluster ::
    "(nat \<Rightarrow> 'sel indexer) \<Rightarrow> genericClusterInformer \<Rightarrow> string \<Rightarrow> 'sel genericInformer" where
  "generic_Cluster GetIndexer f clusterName =
     \<lparr>gi_informer = (gc_informer f, clusterName),
      gi_lister = (generic_Lister GetIndexer f)\<lparr>gl_cluster := Some clusterName\<rparr>\<rparr>"

text \<open>A factory scoped to one cluster shares the informers of the factory it was made from.\<close>

record scopedDynamicSharedInformerFactory =
  sd_clusterName :: string

definition factory_Cluster :: "string \<Rightarrow> scopedDynamicSharedInformerFactory" where
  "factory_Cluster clusterName = \<lparr>sd_clusterName = clusterName\<rparr>"

definition dynamic_ForResource ::
    "(nat \<Rightarrow> 'sel indexer) \<Rightarrow> scopedDynamicSharedInformerFactory \<Rightarrow> group_version_resource
      \<Rightarrow> ('o, 'r, 'x) sharedInformerFactory \<Rightarrow> ('o, 'r, 'x) informer_heap
      \<Rightarrow> (go_error + 'sel genericInformer) \<times> ('o, 'r, 'x) sharedInformerFactory
         \<times> ('o, 'r, 'x) informer_heap" where
  "dynamic_ForResource GetIndexer d resource f h =
     (case ForResource resource f h of
        (Inl err, f', h') \<Rightarrow> (Inl err, f', h')
      | (Inr (informer, gr), f', h') \<Rightarrow>
          (Inr (generic_Cluster GetIndexer \<lparr>gc_informer = informer, gc_resource = gr\<rparr> (sd_clusterName d)), f', h'))"

definition dynamic_Start ::
    "scopedDynamicSharedInformerFactory \<Rightarrow> go_type list \<Rightarrow> nat \<Rightarrow> ('o, 'r, 'x) sharedInformerFactory
      \<Rightarrow> ('o, 'r, 'x) informer_heap \<Rightarrow> ('o, 'r, 'x) sharedInformerFactory \<times> ('o, 'r, 'x) informer_heap" where
  "dynamic_Start d types stopCh f h = Start types stopCh f h"

section \<open>One informer, one store\<close>

lemma access_is_slices_Informer:
  "cluster_Informer (version_FilteredAPIExportEndpointSlices (group_V1alpha1 (Filteredvw f))) f h = slices_Informer f h"
  "scoped_Informer (scopedVersion_FilteredAPIExportEndpointSlices (scopedGroup_V1alpha1 (scoped_Filteredvw g))) g k
     = scoped_slices_Informer g k"
  by (simp_all add: cluster_Informer_def version_FilteredAPIExportEndpointSlices_def group_V1alpha1_def Filteredvw_def
      slices_Informer_def scoped_Informer_def scopedVersion_FilteredAPIExportEndpointSlices_def
      scopedGroup_V1alpha1_def scoped_Filteredvw_def scoped_slices_Informer_def)

lemma cluster_Informer_again:
  assumes "cluster_Informer ci f h = (r, f', h')"
  shows "cluster_Informer ci' f' h1 = (r, f', h1)"
  using assms by (auto simp: cluster_Informer_def InformerFor_def new_informer_def Let_def split: option.splits)

text \<open>
  The informer and the lister of a cluster belong to one shared informer, which is made at most
  once, and its lister reads the store of that informer for that cluster.
\<close>

lemma informer_Cluster_shares:
  assumes "informer_Cluster GetIndexer ci c f h = (i, f', h')"
  shows "\<exists>r. cluster_Informer ci f h = (r, f', h') \<and> fi_informer i = (r, c)
    \<and> fi_lister i = \<lparr>li_indexer = GetIndexer r, li_clusterName = c\<rparr>
    \<and> (\<forall>ci' h1. cluster_Lister GetIndexer ci' f' h1 = (\<lparr>cli_indexer = GetIndexer r\<rparr>, f', h1))"
proof -
  obtain r f1 h1 where r: "cluster_Informer ci f h = (r, f1, h1)" by (metis prod_cases3)
  have again: "cluster_Informer ci' f1 k = (r, f1, k)" for ci' k by (rule cluster_Informer_again [OF r])
  have lister: "cluster_Lister GetIndexer ci' f1 k = (\<lparr>cli_indexer = GetIndexer r\<rparr>, f1, k)" for ci' k
    by (simp add: cluster_Lister_def again NewFilteredAPIExportEndpointSliceClusterLister_def)
  have "i = \<lparr>fi_informer = (r, c), fi_lister = \<lparr>li_indexer = GetIndexer r, li_clusterName = c\<rparr>\<rparr>"
    "f' = f1" "h' = h1"
    using assms by (simp_all add: informer_Cluster_def r lister ClusterLister_Cluster_def)
  then show ?thesis using r lister by simp
qed

text \<open>
  Scoping the factory to a cluster adds nothing but the name of the cluster: a known resource
  gives the same shared informer, an unknown one the same error and no informer at all.
\<close>

lemma dynamic_ForResource_shares:
  "resource = slice_gvr \<Longrightarrow> slices_Informer f h = (r, f', h') \<Longrightarrow>
     \<exists>i. dynamic_ForResource GetIndexer (factory_Cluster c) resource f h = (Inr i, f', h')
       \<and> gi_informer i = (r, c) \<and> gl_indexer (gi_lister i) = GetIndexer r \<and> gl_cluster (gi_lister i) = Some c"
  "resource \<noteq> slice_gvr \<Longrightarrow>
     \<exists>e. dynamic_ForResource GetIndexer (factory_Cluster c) resource f h = (Inl e, f, h)"
  by (simp_all add: dynamic_ForResource_def ForResource_def generic_Cluster_def generic_Lister_def
      factory_Cluster_def)

end
