(* ===== verification/Deep_Copy.thy ===== *)
theory Deep_Copy
  imports Api_Types
begin

text \<open>
  The deep copies of \<open>sdk/apis/filteredvw/v1alpha1/zz_generated.deepcopy.go\<close>, on a heap: the
  maps, arrays and annotations an object points to have addresses, and the question is what a
  copy shares with its original. The objects of the informer caches are shared by all readers
  and must never change; the endpoint slice controller works on a deep copy.

  \<open>ObjectMeta.DeepCopyInto\<close>, \<open>LabelSelector.DeepCopyInto\<close> and \<open>Condition.DeepCopyInto\<close> are
  apimachinery's and kcp's: parameters with the law of a deep copy (\<open>copy_law\<close>). A nil pointer,
  map or slice is \<open>None\<close>.
\<close>

section \<open>Objects on a heap\<close>

record object_meta =
  om_Name :: string
  om_Annotations :: "nat option"

record selector_obj =
  os_MatchLabels :: "nat option"
  os_MatchExpressions :: "nat option"

record spec_obj =
  op_APIExport :: ExportBindingReference
  op_ObjectSelector :: selector_obj

record status_obj =
  ot_Conditions :: "nat option"

record slice_obj =
  oo_ObjectMeta :: object_meta
  oo_Spec :: spec_obj
  oo_Status :: status_obj

record list_obj =
  ll_Items :: "nat option"

text \<open>The store: what each address holds, and the first address not yet in use.\<close>

record heap =
  hp_Next :: nat
  hp_Annotations :: "nat \<Rightarrow> (string \<rightharpoonup> string)"
  hp_Labels :: "nat \<Rightarrow> (string \<rightharpoonup> string)"
  hp_Expressions :: "nat \<Rightarrow> match_expression list"
  hp_Conditions :: "nat \<Rightarrow> condition list"
  hp_Items :: "nat \<Rightarrow> slice_obj list"

text \<open>Two stores that hold the same at an address.\<close>

definition same_at :: "nat \<Rightarrow> heap \<Rightarrow> heap \<Rightarrow> bool" where
  "same_at a h h' \<longleftrightarrow> hp_Annotations h' a = hp_Annotations h a \<and> hp_Labels h' a = hp_Labels h a
     \<and> hp_Expressions h' a = hp_Expressions h a \<and> hp_Conditions h' a = hp_Conditions h a
     \<and> hp_Items h' a = hp_Items h a"

text \<open>The addresses an object reaches, and the value it stands for.\<close>

definition opt_set :: "nat option \<Rightarrow> nat set" where
  "opt_set a = set_option a"

definition meta_refs :: "object_meta \<Rightarrow> nat set" where
  "meta_refs m = opt_set (om_Annotations m)"

definition selector_refs :: "selector_obj \<Rightarrow> nat set" where
  "selector_refs s = opt_set (os_MatchLabels s) \<union> opt_set (os_MatchExpressions s)"

definition slice_refs :: "slice_obj \<Rightarrow> nat set" where
  "slice_refs s = meta_refs (oo_ObjectMeta s) \<union> selector_refs (op_ObjectSelector (oo_Spec s))
     \<union> opt_set (ot_Conditions (oo_Status s))"

definition meta_value :: "heap \<Rightarrow> object_meta \<Rightarrow> string \<times> (string \<rightharpoonup> string) option" where
  "meta_value h m = (om_Name m, map_option (hp_Annotations h) (om_Annotations m))"

definition selector_value :: "heap \<Rightarrow> selector_obj \<Rightarrow> label_selector" where
  "selector_value h s = \<lparr>MatchLabels = map_option (hp_Labels h) (os_MatchLabels s),
     MatchExpressions = map_option (hp_Expressions h) (os_MatchExpressions s)\<rparr>"

definition conditions_value :: "heap \<Rightarrow> status_obj \<Rightarrow> condition list option" where
  "conditions_value h s = map_option (hp_Conditions h) (ot_Conditions s)"

definition slice_value ::
    "heap \<Rightarrow> slice_obj \<Rightarrow> (string \<times> (string \<rightharpoonup> string) option) \<times> ExportBindingReference \<times> label_selector
      \<times> condition list option" where
  "slice_value h s = (meta_value h (oo_ObjectMeta s), op_APIExport (oo_Spec s),
     selector_value h (op_ObjectSelector (oo_Spec s)), conditions_value h (oo_Status s))"

text \<open>A later heap: nothing that existed has changed.\<close>

definition extends :: "heap \<Rightarrow> heap \<Rightarrow> bool" where
  "extends h h' \<longleftrightarrow> hp_Next h \<le> hp_Next h' \<and> (\<forall>a < hp_Next h. same_at a h h')"

definition fresh_refs :: "heap \<Rightarrow> heap \<Rightarrow> nat set \<Rightarrow> bool" where
  "fresh_refs h h' A \<longleftrightarrow> (\<forall>a \<in> A. hp_Next h \<le> a \<and> a < hp_Next h')"

section \<open>The copy functions\<close>

record copy_lib =
  cp_ObjectMeta :: "object_meta \<Rightarrow> heap \<Rightarrow> object_meta \<times> heap"
  cp_LabelSelector :: "selector_obj \<Rightarrow> heap \<Rightarrow> selector_obj \<times> heap"
  cp_Condition :: "condition \<Rightarrow> condition"

definition copy_law :: "copy_lib \<Rightarrow> bool" where
  "copy_law C \<longleftrightarrow>
     (\<forall>m h m' h'. meta_refs m \<subseteq> {..<hp_Next h} \<longrightarrow> cp_ObjectMeta C m h = (m', h') \<longrightarrow>
        extends h h' \<and> fresh_refs h h' (meta_refs m') \<and> meta_value h' m' = meta_value h m)
     \<and> (\<forall>s h s' h'. selector_refs s \<subseteq> {..<hp_Next h} \<longrightarrow> cp_LabelSelector C s h = (s', h') \<longrightarrow>
        extends h h' \<and> fresh_refs h h' (selector_refs s') \<and> selector_value h' s' = selector_value h s)
     \<and> (\<forall>c. cp_Condition C c = c)"

definition ExportBindingReference_DeepCopyInto :: "ExportBindingReference \<Rightarrow> ExportBindingReference" where
  "ExportBindingReference_DeepCopyInto r = r"

definition Selector_DeepCopyInto :: "copy_lib \<Rightarrow> selector_obj \<Rightarrow> heap \<Rightarrow> selector_obj \<times> heap" where
  "Selector_DeepCopyInto C s h = cp_LabelSelector C s h"

definition Spec_DeepCopyInto :: "copy_lib \<Rightarrow> spec_obj \<Rightarrow> heap \<Rightarrow> spec_obj \<times> heap" where
  "Spec_DeepCopyInto C s h =
     (let out = s\<lparr>op_APIExport := op_APIExport s\<rparr>;
          (selector, h') = Selector_DeepCopyInto C (op_ObjectSelector s) h
      in (out\<lparr>op_ObjectSelector := selector\<rparr>, h'))"

text \<open>A new array of the same length, filled element by element.\<close>

fun copy_conditions :: "copy_lib \<Rightarrow> condition list \<Rightarrow> condition list" where
  "copy_conditions C [] = []"
| "copy_conditions C (c # cs) = cp_Condition C c # copy_conditions C cs"

definition new_conditions :: "condition list \<Rightarrow> heap \<Rightarrow> nat \<times> heap" where
  "new_conditions cs h =
     (hp_Next h, h\<lparr>hp_Next := Suc (hp_Next h), hp_Conditions := (hp_Conditions h)(hp_Next h := cs)\<rparr>)"

definition Status_DeepCopyInto :: "copy_lib \<Rightarrow> status_obj \<Rightarrow> heap \<Rightarrow> status_obj \<times> heap" where
  "Status_DeepCopyInto C s h =
     (case ot_Conditions s of
        None \<Rightarrow> (s, h)
      | Some p \<Rightarrow>
          (case new_conditions (copy_conditions C (hp_Conditions h p)) h of
             (a, h') \<Rightarrow> (s\<lparr>ot_Conditions := Some a\<rparr>, h')))"

definition Slice_DeepCopyInto :: "copy_lib \<Rightarrow> slice_obj \<Rightarrow> heap \<Rightarrow> slice_obj \<times> heap" where
  "Slice_DeepCopyInto C s h =
     (let (meta, h1) = cp_ObjectMeta C (oo_ObjectMeta s) h;
          (spec, h2) = Spec_DeepCopyInto C (oo_Spec s) h1;
          (status, h3) = Status_DeepCopyInto C (oo_Status s) h2
      in (s\<lparr>oo_ObjectMeta := meta, oo_Spec := spec, oo_Status := status\<rparr>, h3))"

definition Slice_DeepCopy :: "copy_lib \<Rightarrow> slice_obj option \<Rightarrow> heap \<Rightarrow> slice_obj option \<times> heap" where
  "Slice_DeepCopy C s h =
     (case s of
        None \<Rightarrow> (None, h)
      | Some s \<Rightarrow> (case Slice_DeepCopyInto C s h of (out, h') \<Rightarrow> (Some out, h')))"

text \<open>The items of a list are copied one by one into a new array.\<close>

fun Items_DeepCopyInto :: "copy_lib \<Rightarrow> slice_obj list \<Rightarrow> heap \<Rightarrow> slice_obj list \<times> heap" where
  "Items_DeepCopyInto C [] h = ([], h)"
| "Items_DeepCopyInto C (s # ss) h =
     (let (s', h1) = Slice_DeepCopyInto C s h;
          (ss', h2) = Items_DeepCopyInto C ss h1
      in (s' # ss', h2))"

definition List_DeepCopyInto :: "copy_lib \<Rightarrow> list_obj \<Rightarrow> heap \<Rightarrow> list_obj \<times> heap" where
  "List_DeepCopyInto C l h =
     (case ll_Items l of
        None \<Rightarrow> (l, h)
      | Some p \<Rightarrow>
          (let a = hp_Next h;
               (items, h') = Items_DeepCopyInto C (hp_Items h p) (h\<lparr>hp_Next := Suc a\<rparr>)
           in (l\<lparr>ll_Items := Some a\<rparr>, h'\<lparr>hp_Items := (hp_Items h')(a := items)\<rparr>)))"

text \<open>The other types: nil for nil, otherwise a new object filled by \<open>DeepCopyInto\<close>.\<close>

definition ExportBindingReference_DeepCopy :: "ExportBindingReference option \<Rightarrow> ExportBindingReference option" where
  "ExportBindingReference_DeepCopy r =
     (case r of None \<Rightarrow> None | Some r \<Rightarrow> Some (ExportBindingReference_DeepCopyInto r))"

definition List_DeepCopy :: "copy_lib \<Rightarrow> list_obj option \<Rightarrow> heap \<Rightarrow> list_obj option \<times> heap" where
  "List_DeepCopy C l h =
     (case l of
        None \<Rightarrow> (None, h)
      | Some l \<Rightarrow> (case List_DeepCopyInto C l h of (out, h') \<Rightarrow> (Some out, h')))"

definition Spec_DeepCopy :: "copy_lib \<Rightarrow> spec_obj option \<Rightarrow> heap \<Rightarrow> spec_obj option \<times> heap" where
  "Spec_DeepCopy C s h =
     (case s of
        None \<Rightarrow> (None, h)
      | Some s \<Rightarrow> (case Spec_DeepCopyInto C s h of (out, h') \<Rightarrow> (Some out, h')))"

definition Status_DeepCopy :: "copy_lib \<Rightarrow> status_obj option \<Rightarrow> heap \<Rightarrow> status_obj option \<times> heap" where
  "Status_DeepCopy C s h =
     (case s of
        None \<Rightarrow> (None, h)
      | Some s \<Rightarrow> (case Status_DeepCopyInto C s h of (out, h') \<Rightarrow> (Some out, h')))"

definition Selector_DeepCopy :: "copy_lib \<Rightarrow> selector_obj option \<Rightarrow> heap \<Rightarrow> selector_obj option \<times> heap" where
  "Selector_DeepCopy C s h =
     (case s of
        None \<Rightarrow> (None, h)
      | Some s \<Rightarrow> (case Selector_DeepCopyInto C s h of (out, h') \<Rightarrow> (Some out, h')))"

text \<open>
  A \<open>runtime.Object\<close> is nil, or a pointer with its type, which may be a nil pointer of that type;
  \<open>DeepCopyObject\<close> tests the copy before it becomes an interface value.
\<close>

datatype runtime_object =
    NilObject
  | SliceObject "slice_obj option"
  | ListObject "list_obj option"

definition Slice_DeepCopyObject :: "copy_lib \<Rightarrow> slice_obj option \<Rightarrow> heap \<Rightarrow> runtime_object \<times> heap" where
  "Slice_DeepCopyObject C s h =
     (case Slice_DeepCopy C s h of
        (c, h') \<Rightarrow> (if c \<noteq> None then SliceObject c else NilObject, h'))"

definition List_DeepCopyObject :: "copy_lib \<Rightarrow> list_obj option \<Rightarrow> heap \<Rightarrow> runtime_object \<times> heap" where
  "List_DeepCopyObject C l h =
     (case List_DeepCopy C l h of
        (c, h') \<Rightarrow> (if c \<noteq> None then ListObject c else NilObject, h'))"

section \<open>A copy shares nothing\<close>

text \<open>No interface value holds a nil pointer: a nil object is copied to the nil interface.\<close>

lemma DeepCopyObject_no_typed_nil:
  "fst (Slice_DeepCopyObject C s h) \<noteq> SliceObject None" "fst (List_DeepCopyObject C l h) \<noteq> ListObject None"
  "Slice_DeepCopyObject C None h = (NilObject, h)" "List_DeepCopyObject C None h = (NilObject, h)"
  by (auto simp: Slice_DeepCopyObject_def List_DeepCopyObject_def Slice_DeepCopy_def List_DeepCopy_def
      split: prod.splits)

lemma same_at_trans: "same_at a h h1 \<Longrightarrow> same_at a h1 h2 \<Longrightarrow> same_at a h h2"
  by (simp add: same_at_def)

lemma extends_refl [simp]: "extends h h"
  by (simp add: extends_def same_at_def)

lemma extends_Next: "extends h h' \<Longrightarrow> hp_Next h \<le> hp_Next h'"
  by (simp add: extends_def)

lemma extends_trans: "extends h h1 \<Longrightarrow> extends h1 h2 \<Longrightarrow> extends h h2"
  unfolding extends_def using same_at_trans less_le_trans le_trans by metis

lemma same_values:
  shows "(\<forall>a \<in> meta_refs m. same_at a h h') \<Longrightarrow> meta_value h' m = meta_value h m"
    and "(\<forall>a \<in> selector_refs s. same_at a h h') \<Longrightarrow> selector_value h' s = selector_value h s"
    and "(\<forall>a \<in> opt_set (ot_Conditions t). same_at a h h') \<Longrightarrow> conditions_value h' t = conditions_value h t"
  by (auto simp: meta_refs_def selector_refs_def meta_value_def selector_value_def conditions_value_def
      opt_set_def same_at_def intro!: option.map_cong0)

lemma same_slice_value: "\<forall>a \<in> slice_refs s. same_at a h h' \<Longrightarrow> slice_value h' s = slice_value h s"
  by (simp add: slice_value_def slice_refs_def same_values)

lemma extends_same: "extends h h' \<Longrightarrow> A \<subseteq> {..<hp_Next h} \<Longrightarrow> \<forall>a \<in> A. same_at a h h'"
  by (auto simp: extends_def)

lemma fresh_refs_mono:
  "fresh_refs h1 h2 A \<Longrightarrow> extends h h1 \<Longrightarrow> extends h2 h3 \<Longrightarrow> fresh_refs h h3 A"
  unfolding fresh_refs_def by (meson extends_Next le_trans less_le_trans)

lemma fresh_refs_bound: "fresh_refs h h' A \<Longrightarrow> A \<subseteq> {..<hp_Next h'}"
  by (auto simp: fresh_refs_def)

lemma copy_conditions_id: "copy_law C \<Longrightarrow> copy_conditions C cs = cs"
  by (induction cs) (simp_all add: copy_law_def)

lemma Status_copy:
  assumes law: "copy_law C" and run: "Status_DeepCopyInto C t h = (t', h')"
  shows "extends h h' \<and> fresh_refs h h' (opt_set (ot_Conditions t')) \<and> conditions_value h' t' = conditions_value h t"
proof (cases "ot_Conditions t")
  case None
  with run show ?thesis by (auto simp: Status_DeepCopyInto_def fresh_refs_def opt_set_def)
next
  case (Some a)
  with run law have "t' = t\<lparr>ot_Conditions := Some (hp_Next h)\<rparr>"
    "h' = h\<lparr>hp_Next := Suc (hp_Next h), hp_Conditions := (hp_Conditions h)(hp_Next h := hp_Conditions h a)\<rparr>"
    by (auto simp: Status_DeepCopyInto_def new_conditions_def copy_conditions_id)
  with Some show ?thesis
    by (simp add: extends_def same_at_def fresh_refs_def opt_set_def conditions_value_def)
qed

lemma meta_copy:
  assumes "copy_law C" "meta_refs m \<subseteq> {..<hp_Next h}" "cp_ObjectMeta C m h = (m', h')"
  shows "extends h h' \<and> fresh_refs h h' (meta_refs m') \<and> meta_value h' m' = meta_value h m"
  using assms unfolding copy_law_def by blast

lemma Spec_copy:
  assumes law: "copy_law C" and refs: "selector_refs (op_ObjectSelector s) \<subseteq> {..<hp_Next h}"
    and run: "Spec_DeepCopyInto C s h = (s', h')"
  shows "extends h h' \<and> fresh_refs h h' (selector_refs (op_ObjectSelector s'))
    \<and> op_APIExport s' = op_APIExport s
    \<and> selector_value h' (op_ObjectSelector s') = selector_value h (op_ObjectSelector s)"
proof -
  obtain sel where sel: "cp_LabelSelector C (op_ObjectSelector s) h = (sel, h')"
    "op_ObjectSelector s' = sel" "op_APIExport s' = op_APIExport s"
    using run by (auto simp: Spec_DeepCopyInto_def Selector_DeepCopyInto_def split: prod.splits)
  then show ?thesis using law refs unfolding copy_law_def by simp
qed

text \<open>The copy of a slice has the value of the slice, in addresses that were not in use.\<close>

lemma Slice_copy:
  assumes law: "copy_law C" and refs: "slice_refs s \<subseteq> {..<hp_Next h}"
    and run: "Slice_DeepCopyInto C s h = (s', h')"
  shows "extends h h' \<and> fresh_refs h h' (slice_refs s') \<and> slice_value h' s' = slice_value h s"
proof -
  obtain m h1 p h2 t where steps: "cp_ObjectMeta C (oo_ObjectMeta s) h = (m, h1)"
    "Spec_DeepCopyInto C (oo_Spec s) h1 = (p, h2)" "Status_DeepCopyInto C (oo_Status s) h2 = (t, h')"
    and s': "s' = s\<lparr>oo_ObjectMeta := m, oo_Spec := p, oo_Status := t\<rparr>"
    using run by (auto simp: Slice_DeepCopyInto_def split: prod.splits)
  have r: "meta_refs (oo_ObjectMeta s) \<subseteq> {..<hp_Next h}"
    "selector_refs (op_ObjectSelector (oo_Spec s)) \<subseteq> {..<hp_Next h}"
    "opt_set (ot_Conditions (oo_Status s)) \<subseteq> {..<hp_Next h}"
    using refs by (simp_all add: slice_refs_def)
  have M: "extends h h1" "fresh_refs h h1 (meta_refs m)" "meta_value h1 m = meta_value h (oo_ObjectMeta s)"
    using meta_copy [OF law r(1) steps(1)] by blast+
  have r1: "selector_refs (op_ObjectSelector (oo_Spec s)) \<subseteq> {..<hp_Next h1}"
    using r(2) extends_Next [OF M(1)] by auto
  have P: "extends h1 h2" "fresh_refs h1 h2 (selector_refs (op_ObjectSelector p))"
    "op_APIExport p = op_APIExport (oo_Spec s)"
    "selector_value h2 (op_ObjectSelector p) = selector_value h1 (op_ObjectSelector (oo_Spec s))"
    using Spec_copy [OF law r1 steps(2)] by blast+
  have T: "extends h2 h'" "fresh_refs h2 h' (opt_set (ot_Conditions t))"
    "conditions_value h' t = conditions_value h2 (oo_Status s)"
    using Status_copy [OF law steps(3)] by blast+
  have E: "extends h h2" "extends h1 h'" "extends h h'"
    using M(1) P(1) T(1) extends_trans by blast+
  have F: "fresh_refs h h' (slice_refs s')"
    using fresh_refs_mono [OF M(2) extends_refl E(2)] fresh_refs_mono [OF P(2) M(1) T(1)]
      fresh_refs_mono [OF T(2) E(1) extends_refl]
    by (auto simp: s' slice_refs_def fresh_refs_def)
  have "meta_value h' m = meta_value h1 m"
    by (rule same_values(1), rule extends_same, rule E(2), rule fresh_refs_bound, rule M(2))
  moreover have "selector_value h' (op_ObjectSelector p) = selector_value h2 (op_ObjectSelector p)"
    by (rule same_values(2), rule extends_same, rule T(1), rule fresh_refs_bound, rule P(2))
  moreover have "selector_value h1 (op_ObjectSelector (oo_Spec s)) = selector_value h (op_ObjectSelector (oo_Spec s))"
    by (rule same_values(2), rule extends_same, rule M(1), rule r(2))
  moreover have "conditions_value h2 (oo_Status s) = conditions_value h (oo_Status s)"
    by (rule same_values(3), rule extends_same, rule E(1), rule r(3))
  ultimately have "slice_value h' s' = slice_value h s"
    using M P T by (simp add: slice_value_def s')
  with E F show ?thesis by blast
qed

lemma fresh_disjoint: "fresh_refs h h' A \<Longrightarrow> B \<subseteq> {..<hp_Next h} \<Longrightarrow> A \<inter> B = {}"
  unfolding fresh_refs_def by (meson disjoint_iff lessThan_iff not_less subsetD)

text \<open>The copied items of a list have the values of the items, again in fresh addresses.\<close>

lemma extends_slice_value:
  "extends h h' \<Longrightarrow> slice_refs s \<subseteq> {..<hp_Next h} \<Longrightarrow> slice_value h' s = slice_value h s"
  by (intro same_slice_value extends_same)

lemma Items_copy:
  assumes "copy_law C"
  shows "\<forall>s \<in> set ss. slice_refs s \<subseteq> {..<hp_Next h} \<Longrightarrow> Items_DeepCopyInto C ss h = (ss', h')
    \<Longrightarrow> extends h h' \<and> (\<forall>s' \<in> set ss'. fresh_refs h h' (slice_refs s'))
      \<and> map (slice_value h') ss' = map (slice_value h) ss"
proof (induction ss arbitrary: h ss' h')
  case Nil
  then show ?case by simp
next
  case (Cons s ss)
  from Cons.prems(2) obtain t h1 ts where run: "Slice_DeepCopyInto C s h = (t, h1)"
    "Items_DeepCopyInto C ss h1 = (ts, h')" "ss' = t # ts"
    by (auto split: prod.splits)
  have c: "extends h h1" "fresh_refs h h1 (slice_refs t)" "slice_value h1 t = slice_value h s"
    using Slice_copy [OF assms _ run(1)] Cons.prems(1) by auto
  have old: "\<forall>s \<in> set ss. slice_refs s \<subseteq> {..<hp_Next h} \<and> slice_refs s \<subseteq> {..<hp_Next h1}"
    using Cons.prems(1) extends_Next [OF c(1)] by fastforce
  then have i: "extends h1 h'" "\<forall>s' \<in> set ts. fresh_refs h1 h' (slice_refs s')"
    "map (slice_value h') ts = map (slice_value h1) ss"
    using Cons.IH [of h1 ts h'] run(2) by auto
  have "slice_value h' t = slice_value h1 t"
    by (rule extends_slice_value [OF i(1)]) (rule fresh_refs_bound [OF c(2)])
  moreover have "map (slice_value h1) ss = map (slice_value h) ss"
    using old extends_slice_value [OF c(1)] by simp
  moreover have "\<forall>s' \<in> set ss'. fresh_refs h h' (slice_refs s')"
    using run(3) fresh_refs_mono [OF c(2) extends_refl i(1)] i(2) fresh_refs_mono [OF _ c(1) extends_refl] by auto
  ultimately show ?case using c i run(3) extends_trans by auto
qed

text \<open>The copy of a list: the same number of items with the same values, in fresh addresses.\<close>

lemma List_copy:
  assumes law: "copy_law C" and p: "ll_Items l = Some p" "p < hp_Next h"
    and refs: "\<forall>s \<in> set (hp_Items h p). slice_refs s \<subseteq> {..<hp_Next h}"
    and run: "List_DeepCopyInto C l h = (l', h')"
  shows "\<exists>a. ll_Items l' = Some a \<and> hp_Next h \<le> a \<and> extends h h'
    \<and> map (slice_value h') (hp_Items h' a) = map (slice_value h) (hp_Items h p)
    \<and> (\<forall>s' \<in> set (hp_Items h' a). fresh_refs h h' (slice_refs s'))"
proof -
  let ?h = "h\<lparr>hp_Next := Suc (hp_Next h)\<rparr>"
  obtain items k where items: "Items_DeepCopyInto C (hp_Items h p) ?h = (items, k)"
    and l': "l' = l\<lparr>ll_Items := Some (hp_Next h)\<rparr>" "h' = k\<lparr>hp_Items := (hp_Items k)(hp_Next h := items)\<rparr>"
    using run p(1) by (auto simp: List_DeepCopyInto_def Let_def split: prod.splits)
  have "\<forall>s \<in> set (hp_Items h p). slice_refs s \<subseteq> {..<hp_Next ?h}" using refs by fastforce
  from Items_copy [OF law this items]
  have i: "extends ?h k" "\<forall>s' \<in> set items. fresh_refs ?h k (slice_refs s')"
    "map (slice_value k) items = map (slice_value ?h) (hp_Items h p)" by blast+
  have v: "slice_value h' = slice_value k" "slice_value ?h = slice_value h" "hp_Items h' (hp_Next h) = items"
    by (simp_all add: fun_eq_iff l' slice_value_def meta_value_def selector_value_def conditions_value_def)
  have "extends h h'" using i(1) by (auto simp: extends_def l' same_at_def)
  moreover have "\<forall>s' \<in> set items. fresh_refs h h' (slice_refs s')"
    using i(2) by (auto simp: fresh_refs_def l' dest: Suc_leD)
  ultimately show ?thesis using i(3) by (simp add: l'(1) v)
qed

text \<open>
  The deep copy of a slice has the value of the slice, and shares no map or array with it:
  writing to what the copy refers to leaves the original as it was, and writing to what the
  original refers to leaves the copy.
\<close>

theorem deep_copy_isolated:
  assumes law: "copy_law C" and refs: "slice_refs s \<subseteq> {..<hp_Next h}"
    and run: "Slice_DeepCopy C (Some s) h = (out, h')"
  shows "\<exists>s'. out = Some s' \<and> slice_value h' s' = slice_value h s
    \<and> (\<forall>h''. (\<forall>a. a \<notin> slice_refs s' \<longrightarrow> same_at a h' h'') \<longrightarrow> slice_value h'' s = slice_value h s)
    \<and> (\<forall>h''. (\<forall>a. a \<notin> slice_refs s \<longrightarrow> same_at a h' h'') \<longrightarrow> slice_value h'' s' = slice_value h s)"
proof -
  obtain s' where copy: "Slice_DeepCopyInto C s h = (s', h')" and out: "out = Some s'"
    using run by (auto simp: Slice_DeepCopy_def split: prod.splits)
  note c = Slice_copy [OF law refs copy]
  have disjoint: "slice_refs s' \<inter> slice_refs s = {}" using c refs fresh_disjoint by blast
  have orig: "slice_value h' s = slice_value h s"
    by (rule same_slice_value) (rule extends_same [OF _ refs], use c in blast)
  have 1: "slice_value h'' s = slice_value h s" if "\<forall>a. a \<notin> slice_refs s' \<longrightarrow> same_at a h' h''" for h''
    using same_slice_value [of s h' h''] that disjoint orig by auto
  have 2: "slice_value h'' s' = slice_value h s" if "\<forall>a. a \<notin> slice_refs s \<longrightarrow> same_at a h' h''" for h''
    using same_slice_value [of s' h' h''] that disjoint c by auto
  show ?thesis using out c 1 2 by blast
qed

text \<open>A copy library that allocates: its law, and a slice with annotations, labels and a condition.\<close>

definition w_copy :: copy_lib where
  "w_copy = \<lparr>
     cp_ObjectMeta = (\<lambda>m h. case om_Annotations m of None \<Rightarrow> (m, h)
       | Some p \<Rightarrow> (m\<lparr>om_Annotations := Some (hp_Next h)\<rparr>,
           h\<lparr>hp_Next := Suc (hp_Next h),
             hp_Annotations := (hp_Annotations h)(hp_Next h := hp_Annotations h p)\<rparr>)),
     cp_LabelSelector = (\<lambda>s h.
       (s\<lparr>os_MatchLabels := map_option (\<lambda>p. hp_Next h) (os_MatchLabels s),
          os_MatchExpressions := map_option (\<lambda>p. hp_Next h) (os_MatchExpressions s)\<rparr>,
        h\<lparr>hp_Next := Suc (hp_Next h),
          hp_Labels := (case os_MatchLabels s of None \<Rightarrow> hp_Labels h
            | Some p \<Rightarrow> (hp_Labels h)(hp_Next h := hp_Labels h p)),
          hp_Expressions := (case os_MatchExpressions s of None \<Rightarrow> hp_Expressions h
            | Some p \<Rightarrow> (hp_Expressions h)(hp_Next h := hp_Expressions h p))\<rparr>)),
     cp_Condition = (\<lambda>c. c)\<rparr>"

lemma w_copy_law: "copy_law w_copy"
  by (auto simp: copy_law_def w_copy_def extends_def same_at_def fresh_refs_def meta_refs_def meta_value_def
      selector_refs_def selector_value_def opt_set_def split: option.splits)

definition w_obj :: slice_obj where
  "w_obj = \<lparr>oo_ObjectMeta = \<lparr>om_Name = ''es'', om_Annotations = Some 0\<rparr>,
     oo_Spec = \<lparr>op_APIExport = \<lparr>ref_Path = ''prov'', ref_Name = ''exp''\<rparr>,
       op_ObjectSelector = \<lparr>os_MatchLabels = Some 1, os_MatchExpressions = None\<rparr>\<rparr>,
     oo_Status = \<lparr>ot_Conditions = Some 2\<rparr>\<rparr>"

definition w_heap :: heap where
  "w_heap = \<lparr>hp_Next = 3, hp_Annotations = (\<lambda>_. [''a'' \<mapsto> ''b'']), hp_Labels = (\<lambda>_. [''env'' \<mapsto> ''prod'']),
     hp_Expressions = (\<lambda>_. []), hp_Conditions = (\<lambda>_. []), hp_Items = (\<lambda>_. [])\<rparr>"

theorem deep_copy_isolated_witness:
  "\<exists>s' h'. Slice_DeepCopy w_copy (Some w_obj) w_heap = (Some s', h') \<and> om_Annotations (oo_ObjectMeta s') = Some 3
     \<and> slice_value (h'\<lparr>hp_Labels := (hp_Labels h')(4 := Map.empty)\<rparr>) w_obj = slice_value w_heap w_obj"
proof -
  obtain out h' where run: "Slice_DeepCopy w_copy (Some w_obj) w_heap = (out, h')" by (cases "Slice_DeepCopy w_copy (Some w_obj) w_heap")
  have refs: "slice_refs w_obj \<subseteq> {..<hp_Next w_heap}"
    by (simp add: slice_refs_def w_obj_def meta_refs_def selector_refs_def opt_set_def w_heap_def)
  obtain s' where s': "out = Some s'"
    "\<forall>h''. (\<forall>a. a \<notin> slice_refs s' \<longrightarrow> same_at a h' h'') \<longrightarrow> slice_value h'' w_obj = slice_value w_heap w_obj"
    using deep_copy_isolated [OF w_copy_law refs run] by blast
  have at: "om_Annotations (oo_ObjectMeta s') = Some 3" "os_MatchLabels (op_ObjectSelector (oo_Spec s')) = Some 4"
    using run unfolding s'(1)
    by (auto simp: Slice_DeepCopy_def Slice_DeepCopyInto_def Spec_DeepCopyInto_def Selector_DeepCopyInto_def
        Status_DeepCopyInto_def new_conditions_def w_copy_def w_obj_def w_heap_def)
  have "4 \<in> slice_refs s'" using at by (simp add: slice_refs_def selector_refs_def opt_set_def)
  then have "\<forall>a. a \<notin> slice_refs s' \<longrightarrow> same_at a h' (h'\<lparr>hp_Labels := (hp_Labels h')(4 := Map.empty)\<rparr>)"
    by (auto simp: same_at_def)
  with s' at run show ?thesis by blast
qed

end
