(* ===== verification/Endpoint_Heap.thy ===== *)
theory Endpoint_Heap
  imports Endpoint_Slice Deep_Copy
begin

text \<open>
  The endpoint slice controller on the heap of \<open>Deep_Copy\<close>. The getter returns a pointer into the
  informer cache, which all readers share; \<open>process\<close> copies the object and reconciles the copy.
  \<open>Endpoint_Slice\<close> models the same handler on values. Here the two are related: the handler on the
  heap refines the one on values, and no cached object changes.

  The condition helpers of kcp may write the conditions of the object they are given in place;
  what they promise is \<open>heap_conditions_law\<close>: the value they leave is the one of the value level,
  and they write only what the object refers to, or new addresses. The committer reads both
  objects when it is called, that is, after reconciling.
\<close>

section \<open>Slices on the heap and their values\<close>

text \<open>\<open>logicalcluster.From\<close>: the cluster annotation of the object.\<close>

definition cluster_of :: "string \<Rightarrow> heap \<Rightarrow> object_meta \<Rightarrow> string" where
  "cluster_of K h m =
     (case om_Annotations m of
        None \<Rightarrow> ''''
      | Some a \<Rightarrow> (case hp_Annotations h a K of None \<Rightarrow> '''' | Some c \<Rightarrow> c))"

definition abs_slice :: "string \<Rightarrow> heap \<Rightarrow> slice_obj \<Rightarrow> slice" where
  "abs_slice K h s =
     \<lparr>sl_Name = om_Name (oo_ObjectMeta s), sl_Cluster = cluster_of K h (oo_ObjectMeta s),
      Spec = \<lparr>APIExport = op_APIExport (oo_Spec s),
              ObjectSelector = selector_value h (op_ObjectSelector (oo_Spec s))\<rparr>,
      Status = \<lparr>Conditions = (case conditions_value h (oo_Status s) of None \<Rightarrow> [] | Some cs \<Rightarrow> cs)\<rparr>\<rparr>"

lemma abs_slice_cong:
  assumes "slice_value h s = slice_value h' s'"
  shows "abs_slice K h s = abs_slice K h' s'"
proof -
  have "om_Name (oo_ObjectMeta s) = om_Name (oo_ObjectMeta s')"
    and a: "map_option (hp_Annotations h) (om_Annotations (oo_ObjectMeta s))
      = map_option (hp_Annotations h') (om_Annotations (oo_ObjectMeta s'))"
    using assms by (simp_all add: slice_value_def meta_value_def)
  moreover have "cluster_of K h (oo_ObjectMeta s) = cluster_of K h' (oo_ObjectMeta s')"
    using a by (cases "om_Annotations (oo_ObjectMeta s)"; cases "om_Annotations (oo_ObjectMeta s')")
      (simp_all add: cluster_of_def)
  ultimately show ?thesis using assms by (simp add: abs_slice_def slice_value_def)
qed

section \<open>The handler\<close>

record heap_conditions =
  hc_MarkTrue :: "slice_obj \<Rightarrow> string \<Rightarrow> heap \<Rightarrow> slice_obj \<times> heap"
  hc_MarkFalse :: "slice_obj \<Rightarrow> string \<Rightarrow> string \<Rightarrow> string \<Rightarrow> message \<Rightarrow> heap \<Rightarrow> slice_obj \<times> heap"

definition writes_own :: "slice_obj \<Rightarrow> heap \<Rightarrow> heap \<Rightarrow> bool" where
  "writes_own s h h' \<longleftrightarrow> hp_Next h \<le> hp_Next h'
     \<and> (\<forall>a < hp_Next h. a \<notin> slice_refs s \<longrightarrow> same_at a h h')"

definition heap_conditions_law :: "string \<Rightarrow> conditions_api \<Rightarrow> heap_conditions \<Rightarrow> bool" where
  "heap_conditions_law K C H \<longleftrightarrow>
     (\<forall>s t h s' h'. slice_refs s \<subseteq> {..<hp_Next h} \<longrightarrow> hc_MarkTrue H s t h = (s', h') \<longrightarrow>
        writes_own s h h' \<and> abs_slice K h' s' = co_MarkTrue C (abs_slice K h s) t)
     \<and> (\<forall>s t r v m h s' h'. slice_refs s \<subseteq> {..<hp_Next h} \<longrightarrow> hc_MarkFalse H s t r v m h = (s', h') \<longrightarrow>
        writes_own s h h' \<and> abs_slice K h' s' = co_MarkFalse C (abs_slice K h s) t r v m)"

definition heap_endpoints_reconcile ::
    "string \<Rightarrow> heap_conditions \<Rightarrow> export_by_path \<Rightarrow> slice_obj \<Rightarrow> heap
      \<Rightarrow> (slice_obj \<times> heap) \<times> go_error option" where
  "heap_endpoints_reconcile K H getAPIExport es h =
     (let path = ref_Path (op_APIExport (oo_Spec es));
          apiExportPath = (if path = '''' then cluster_of K h (oo_ObjectMeta es) else path);
          name = ref_Name (op_APIExport (oo_Spec es));
          msg = Sprintf ''Error getting APIExport %s|%s'' [Str apiExportPath, Str name]
      in case getAPIExport apiExportPath name of
           Inl err \<Rightarrow>
             if IsNotFound err
             then (hc_MarkFalse H es APIExportValid APIExportNotFoundReason ConditionSeverityError msg h, None)
             else (hc_MarkFalse H es APIExportValid InternalErrorReason ConditionSeverityError msg h, Some err)
         | Inr _ \<Rightarrow> (hc_MarkTrue H es APIExportValid h, None))"

text \<open>
  \<open>eh_Cached\<close> is the getter of the controller: the pointer the informer's index holds. The rest
  of the environment is the one of the value level.
\<close>

record es_heap_env =
  eh_Env :: es_env
  eh_Cached :: "string \<Rightarrow> string \<Rightarrow> go_error + slice_obj"
  eh_ClusterKey :: string
  eh_Copy :: copy_lib
  eh_Conditions :: heap_conditions

definition heap_process :: "es_heap_env \<Rightarrow> string \<Rightarrow> heap \<Rightarrow> commits \<Rightarrow> outcome \<times> heap \<times> commits" where
  "heap_process E key h st =
     (case ka_SplitKey (en_Keys (eh_Env E)) key of
        Inl err \<Rightarrow> (Done None, h, st)
      | Inr (clusterName, _, name) \<Rightarrow>
          (case eh_Cached E clusterName name of
             Inl err \<Rightarrow> if IsNotFound err then (Done None, h, st) else (Done (Some err), h, st)
           | Inr old \<Rightarrow>
               (case Slice_DeepCopy (eh_Copy E) (Some old) h of
                  (None, h1) \<Rightarrow> (Panic, h1, st)
                | (Some obj, h1) \<Rightarrow>
                    (case heap_endpoints_reconcile (eh_ClusterKey E) (eh_Conditions E)
                            (en_getAPIExport (eh_Env E)) obj h1 of
                       ((obj', h2), err) \<Rightarrow>
                         let errs = (case err of None \<Rightarrow> [] | Some e \<Rightarrow> [e]);
                             oldResource = abs_slice (eh_ClusterKey E) h2 old;
                             newResource = abs_slice (eh_ClusterKey E) h2 obj';
                             errs' = errs @ (case en_Commit (eh_Env E) oldResource newResource of
                                               None \<Rightarrow> [] | Some e \<Rightarrow> [e])
                         in (Done (NewAggregate errs'), h2, st @ [(oldResource, newResource)])))))"

section \<open>Refinement\<close>

text \<open>The environment of the value level: the getter gives the value of the cached object.\<close>

definition abs_env :: "es_heap_env \<Rightarrow> heap \<Rightarrow> es_env" where
  "abs_env E h = (eh_Env E)\<lparr>en_getSlice := \<lambda>c n.
     (case eh_Cached E c n of Inl err \<Rightarrow> Inl err | Inr s \<Rightarrow> Inr (abs_slice (eh_ClusterKey E) h s))\<rparr>"

definition cache_ok :: "es_heap_env \<Rightarrow> heap \<Rightarrow> bool" where
  "cache_ok E h \<longleftrightarrow> (\<forall>c n s. eh_Cached E c n = Inr s \<longrightarrow> slice_refs s \<subseteq> {..<hp_Next h})"

lemma reconcile_refines:
  assumes law: "heap_conditions_law K C H" and refs: "slice_refs es \<subseteq> {..<hp_Next h}"
    and run: "heap_endpoints_reconcile K H get es h = ((es', h'), err)"
  shows "endpoints_reconcile C get (abs_slice K h es) = (abs_slice K h' es', err)" "writes_own es h h'"
proof -
  have sel: "ref_Path (APIExport (Spec (abs_slice K h es))) = ref_Path (op_APIExport (oo_Spec es))"
    "ref_Name (APIExport (Spec (abs_slice K h es))) = ref_Name (op_APIExport (oo_Spec es))"
    "sl_Cluster (abs_slice K h es) = cluster_of K h (oo_ObjectMeta es)"
    by (simp_all add: abs_slice_def)
  have true: "writes_own es h h1 \<and> abs_slice K h1 s1 = co_MarkTrue C (abs_slice K h es) t"
    if "hc_MarkTrue H es t h = (s1, h1)" for t s1 h1
    using law refs that unfolding heap_conditions_law_def by blast
  have false: "writes_own es h h1 \<and> abs_slice K h1 s1 = co_MarkFalse C (abs_slice K h es) t r v m"
    if "hc_MarkFalse H es t r v m h = (s1, h1)" for t r v m s1 h1
    using law refs that unfolding heap_conditions_law_def by blast
  show "endpoints_reconcile C get (abs_slice K h es) = (abs_slice K h' es', err)" "writes_own es h h'"
    using run unfolding heap_endpoints_reconcile_def endpoints_reconcile_def Let_def sel
    by (auto dest: true false split: sum.splits if_splits)
qed

lemma writes_own_fresh:
  assumes "writes_own s h1 h2" "extends h h1" "fresh_refs h h1 (slice_refs s)"
  shows "extends h h2"
proof -
  have "same_at a h h2" if "a < hp_Next h" for a
  proof -
    have "a \<notin> slice_refs s" using assms(3) that by (auto simp: fresh_refs_def)
    moreover have "a < hp_Next h1" using that extends_Next [OF assms(2)] by simp
    ultimately have "same_at a h1 h2" using assms(1) by (simp add: writes_own_def)
    moreover have "same_at a h h1" using assms(2) that by (simp add: extends_def)
    ultimately show ?thesis using same_at_trans by blast
  qed
  then show ?thesis using assms(1,2) by (auto simp: extends_def writes_own_def)
qed

lemma heap_process_step:
  assumes copy: "copy_law (eh_Copy E)"
    and law: "heap_conditions_law (eh_ClusterKey E) (en_Conditions (eh_Env E)) (eh_Conditions E)"
    and cache: "cache_ok E h" and run: "heap_process E key h st = (out, h', st')"
  shows "es_process (abs_env E h) key st = (out, st') \<and> extends h h'"
proof (cases "ka_SplitKey (en_Keys (eh_Env E)) key")
  case (Inl err)
  then show ?thesis using run by (auto simp: heap_process_def es_process_def abs_env_def)
next
  case (Inr r)
  then obtain c ns n where split: "ka_SplitKey (en_Keys (eh_Env E)) key = Inr (c, ns, n)"
    by (cases r) auto
  show ?thesis
  proof (cases "eh_Cached E c n")
    case (Inl err)
    then show ?thesis using run split
      by (auto simp: heap_process_def es_process_def abs_env_def split: if_splits)
  next
    case (Inr old)
    let ?K = "eh_ClusterKey E"
    have refs: "slice_refs old \<subseteq> {..<hp_Next h}" using cache Inr unfolding cache_ok_def by blast
    obtain obj h1 where cp: "Slice_DeepCopyInto (eh_Copy E) old h = (obj, h1)" by force
    note c = Slice_copy [OF copy refs cp]
    obtain obj' h2 err where rec: "heap_endpoints_reconcile ?K (eh_Conditions E)
        (en_getAPIExport (eh_Env E)) obj h1 = ((obj', h2), err)" by (metis surj_pair)
    have objrefs: "slice_refs obj \<subseteq> {..<hp_Next h1}" using c fresh_refs_bound by blast
    note r = reconcile_refines [OF law objrefs rec]
    have ext: "extends h h2" using writes_own_fresh [OF r(2)] c by blast
    have old: "abs_slice ?K h2 old = abs_slice ?K h old"
      by (rule abs_slice_cong) (rule extends_slice_value [OF ext refs])
    have new: "abs_slice ?K h1 obj = abs_slice ?K h old" by (rule abs_slice_cong) (use c in blast)
    show ?thesis
      using run r(1) ext
      by (auto simp: heap_process_def es_process_def abs_env_def split Inr Slice_DeepCopy_def cp rec old new
          Let_def)
  qed
qed

text \<open>
  C31: The handler of the endpoint slice controller on the heap, where the slice is a pointer
  into the informer cache of which it makes a deep copy, has the outcome and the commits of
  the handler on values, and no cached slice changes.
\<close>

theorem heap_process_refines:
  assumes copy: "copy_law (eh_Copy E)"
    and law: "heap_conditions_law (eh_ClusterKey E) (en_Conditions (eh_Env E)) (eh_Conditions E)"
    and cache: "cache_ok E h" and run: "heap_process E key h st = (out, h', st')"
  shows "es_process (abs_env E h) key st = (out, st')
    \<and> (\<forall>c n s. eh_Cached E c n = Inr s \<longrightarrow> slice_value h' s = slice_value h s)
    \<and> cache_ok E h' \<and> abs_env E h' = abs_env E h"
proof -
  note s = heap_process_step [OF assms]
  have v: "slice_value h' s = slice_value h s" if "eh_Cached E c n = Inr s" for c n s
    using extends_slice_value conjunct2 [OF s] cache that unfolding cache_ok_def by blast
  have "cache_ok E h'"
    using cache extends_Next [OF conjunct2 [OF s]] unfolding cache_ok_def by fastforce
  moreover have "abs_env E h' = abs_env E h"
    unfolding abs_env_def by (auto intro!: es_env.fold_congs ext abs_slice_cong v split: sum.splits)
  ultimately show ?thesis using s v by blast
qed

text \<open>
  Over any sequence of keys: the controller never changes what the informer cache holds, and the
  commits are those of the handler on values.
\<close>

fun heap_process_all :: "es_heap_env \<Rightarrow> string list \<Rightarrow> heap \<Rightarrow> commits \<Rightarrow> heap \<times> commits" where
  "heap_process_all E [] h st = (h, st)"
| "heap_process_all E (key # keys) h st =
     (case heap_process E key h st of (_, h', st') \<Rightarrow> heap_process_all E keys h' st')"

lemma cache_never_written:
  assumes copy: "copy_law (eh_Copy E)"
    and law: "heap_conditions_law (eh_ClusterKey E) (en_Conditions (eh_Env E)) (eh_Conditions E)"
  shows "cache_ok E h \<Longrightarrow> heap_process_all E keys h st = (h', st') \<Longrightarrow> eh_Cached E c n = Inr s \<Longrightarrow>
    slice_value h' s = slice_value h s
    \<and> st' = foldl (\<lambda>st key. snd (es_process (abs_env E h) key st)) st keys"
proof (induction keys arbitrary: h st)
  case (Cons key keys)
  obtain out h1 st1 where run: "heap_process E key h st = (out, h1, st1)" by (metis prod_cases3)
  note r = heap_process_step [OF copy law Cons.prems(1) run]
  have same: "slice_value h1 s = slice_value h s" if "eh_Cached E c n = Inr s" for c n s
    using extends_slice_value conjunct2 [OF r] Cons.prems(1) that unfolding cache_ok_def by blast
  have env: "abs_env E h1 = abs_env E h"
    unfolding abs_env_def by (auto intro!: es_env.fold_congs ext abs_slice_cong same split: sum.splits)
  have "cache_ok E h1"
    using Cons.prems(1) extends_Next [OF conjunct2 [OF r]] unfolding cache_ok_def by fastforce
  with Cons.IH [of h1 st1] Cons.prems(2,3) run env same r show ?case by simp
qed simp

section \<open>Example\<close>

text \<open>
  Condition helpers that write the array of the object in place, and a cache with one slice.
  Without the copy the cached slice itself would change.
\<close>

definition put_conditions :: "slice_obj \<Rightarrow> (condition list \<Rightarrow> condition list) \<Rightarrow> heap \<Rightarrow> slice_obj \<times> heap" where
  "put_conditions s f h =
     (case ot_Conditions (oo_Status s) of
        Some a \<Rightarrow> (s, h\<lparr>hp_Conditions := (hp_Conditions h)(a := f (hp_Conditions h a))\<rparr>)
      | None \<Rightarrow>
          (s\<lparr>oo_Status := (oo_Status s)\<lparr>ot_Conditions := Some (hp_Next h)\<rparr>\<rparr>,
           h\<lparr>hp_Next := Suc (hp_Next h), hp_Conditions := (hp_Conditions h)(hp_Next h := f [])\<rparr>))"

definition in_place :: heap_conditions where
  "in_place =
     \<lparr>hc_MarkTrue = (\<lambda>s t. put_conditions s (\<lambda>cs. \<lparr>cond_Type = t, cond_Status = ConditionTrue,
        cond_Severity = '''', cond_Reason = '''', cond_Message = Str ''''\<rparr>
          # filter (\<lambda>x. cond_Type x \<noteq> t) cs)),
      hc_MarkFalse = (\<lambda>s t r v m. put_conditions s (\<lambda>cs. \<lparr>cond_Type = t, cond_Status = ConditionFalse,
        cond_Severity = v, cond_Reason = r, cond_Message = m\<rparr> # filter (\<lambda>x. cond_Type x \<noteq> t) cs))\<rparr>"

lemma conditions_frame:
  "cluster_of K (h\<lparr>hp_Conditions := x\<rparr>) = cluster_of K h" "cluster_of K (h\<lparr>hp_Next := n\<rparr>) = cluster_of K h"
  "selector_value (h\<lparr>hp_Conditions := x\<rparr>) = selector_value h" "selector_value (h\<lparr>hp_Next := n\<rparr>) = selector_value h"
  by (simp_all add: fun_eq_iff cluster_of_def selector_value_def cong: option.case_cong)

lemma put_conditions_ok:
  assumes "slice_refs s \<subseteq> {..<hp_Next h}" "put_conditions s f h = (s', h')"
  shows "writes_own s h h' \<and> abs_slice K h' s' = SetConditions (abs_slice K h s) (f (GetConditions (abs_slice K h s)))"
proof (cases "ot_Conditions (oo_Status s)")
  case None
  then show ?thesis using assms
    by (auto simp: put_conditions_def writes_own_def same_at_def abs_slice_def SetConditions_def GetConditions_def
        conditions_value_def conditions_frame)
next
  case (Some a)
  then have "a \<in> slice_refs s" by (simp add: slice_refs_def opt_set_def)
  then show ?thesis using assms Some
    by (auto simp: put_conditions_def writes_own_def same_at_def abs_slice_def SetConditions_def GetConditions_def
        conditions_value_def conditions_frame)
qed

lemma in_place_law: "heap_conditions_law K ref_conditions in_place"
  unfolding heap_conditions_law_def in_place_def ref_conditions_def set_condition_def
  by (auto dest: put_conditions_ok)

definition w_es_heap :: es_heap_env where
  "w_es_heap = \<lparr>eh_Env = w_es,
     eh_Cached = (\<lambda>c n. if c = ''prov'' \<and> n = ''es'' then Inr w_obj else Inl (NotFound (Str n))),
     eh_ClusterKey = ''a'', eh_Copy = w_copy, eh_Conditions = in_place\<rparr>"

lemma w_cache_ok: "cache_ok w_es_heap w_heap"
  by (auto simp: cache_ok_def w_es_heap_def slice_refs_def w_obj_def meta_refs_def selector_refs_def opt_set_def
      w_heap_def)

theorem heap_process_refines_witness:
  "\<exists>out h' st'. heap_process w_es_heap ''prov|es'' w_heap [] = (out, h', st')
     \<and> st' \<noteq> [] \<and> fst (hd st') \<noteq> snd (hd st') \<and> slice_value h' w_obj = slice_value w_heap w_obj"
proof -
  obtain out h' st' where run: "heap_process w_es_heap ''prov|es'' w_heap [] = (out, h', st')"
    by (metis prod_cases3)
  have c: "copy_law (eh_Copy w_es_heap)" by (simp add: w_es_heap_def w_copy_law)
  have l: "heap_conditions_law (eh_ClusterKey w_es_heap) (en_Conditions (eh_Env w_es_heap)) (eh_Conditions w_es_heap)"
    by (simp add: w_es_heap_def w_es_def in_place_law)
  note r = heap_process_refines [OF c l w_cache_ok run]
  let ?old = "abs_slice ''a'' w_heap w_obj"
  let ?new = "fst (endpoints_reconcile ref_conditions w_exports ?old)"
  have "st' = [(?old, ?new)]"
    using r by (auto simp: es_process_def abs_env_def w_es_heap_def w_es_def w_es_keys_def Let_def split: prod.splits)
  moreover have "Conditions (Status ?new) \<noteq> Conditions (Status ?old)"
    by (auto simp: endpoints_reconcile_def Let_def ref_conditions_def set_condition_def SetConditions_def
        abs_slice_def conditions_value_def w_obj_def w_heap_def split: sum.splits)
  then have "?old \<noteq> ?new" by metis
  moreover have "eh_Cached w_es_heap ''prov'' ''es'' = Inr w_obj" by (simp add: w_es_heap_def)
  ultimately show ?thesis using r run by (intro exI [of _ out] exI [of _ h'] exI [of _ st']) auto
qed

text \<open>
  Why the copy matters: with these helpers, reconciling the cached object itself leaves the old
  and the new object equal, so that the committer has nothing to patch.
\<close>

lemma without_copy_nothing_to_commit:
  assumes "ot_Conditions (oo_Status s) = Some a"
    and "heap_endpoints_reconcile K in_place get s h = ((s', h'), err)"
  shows "abs_slice K h' s = abs_slice K h' s' \<and> GetConditions (abs_slice K h' s) \<noteq> []"
  using assms
  by (auto simp: heap_endpoints_reconcile_def in_place_def put_conditions_def abs_slice_def GetConditions_def
      conditions_value_def Let_def split: sum.splits if_splits)

end
