(* ===== verification/Api_Shutdown.thy ===== *)
theory Api_Shutdown
  imports Api_Controller
begin

text \<open>
  The end of \<open>APIReconciler.Start\<close>. Its deferred functions run in the reverse of the order
  they are registered in: when the context is done the definitions of every set are torn down
  (under the mutex, the maps stay), and only then is the queue shut down. The worker goes on
  until the queue is shut down and drained, so a \<open>reconcile\<close> may still follow the tear-down.
\<close>

datatype start_phase = Running | TornDown | QueueShut | Exited

type_synonym 'req start_state = "start_phase \<times> 'req defs_state reconciler_state"

inductive start_step ::
    "'req builder_env \<Rightarrow> ('sel, 'req) api_library \<Rightarrow> (string \<Rightarrow> label_selector)
      \<Rightarrow> 'req start_state \<Rightarrow> 'req start_state \<Rightarrow> bool"
  for be lib sel where
  work: "reconcile_step be lib sel st st' \<Longrightarrow> p \<noteq> Exited \<Longrightarrow> start_step be lib sel (p, st) (p, st')"
| tear_down:
    "stop_reconciler (NewAPIReconciler be lib v) (rs_apiSets st) keys (rs_Definitions st) = (True, rt') \<Longrightarrow>
     set keys = dom (rs_apiSets st) \<Longrightarrow> distinct keys \<Longrightarrow>
     start_step be lib sel (Running, st) (TornDown, st\<lparr>rs_Definitions := rt'\<rparr>)"
| queue_shut_down: "start_step be lib sel (TornDown, st) (QueueShut, st)"
| drained: "start_step be lib sel (QueueShut, st) (Exited, st)"

inductive_cases tear_downE: "start_step be lib sel (Running, st) (TornDown, st')"
inductive_cases workE: "start_step be lib sel (p, st) (p', st')"

text \<open>Up to the tear-down only the worker has run.\<close>

lemma running_reachable:
  assumes "(start_step be lib sel)\<^sup>*\<^sup>* (Running, reconciler_init an) s"
  shows "fst s = Running \<longrightarrow> (reconcile_step be lib sel)\<^sup>*\<^sup>* (reconciler_init an) (snd s)"
  using assms
proof (induction rule: rtranclp_induct)
  case (step s s')
  from step.hyps(2) step.IH show ?case
    by (cases rule: start_step.cases) auto
qed simp

lemma keys_irrelevant_definitions [simp]:
  "served_def (st\<lparr>rs_Definitions := rt\<rparr>) key gvr = served_def st key gvr"
  by (simp add: served_def_def)

text \<open>A reconcile that leaves something served has updated the domain.\<close>

lemma reconcile_serves:
  assumes "reconcile c fs key st = (Done None, st')" "served_def st' key gvr = Some d"
  obtains s e where "update_domain c s e key st = (Done None, st')"
proof -
  have "remove_domain key st \<noteq> (Done None, st')"
    using assms(2) by (auto simp: remove_domain_def served_def_def split: option.splits)
  then show thesis
    using assms(1) that unfolding reconcile_def by (auto split: sum.splits option.splits if_splits)
qed

context reconciler_world
begin

lemma update_domain_new_live:
  assumes wf: "wf (rs_Definitions st)"
    and known: "old_known (origin (rs_Definitions st)) (go_map (rs_apiSets st key))"
    and run: "update_domain c fs e key st = (Done None, st')"
  shows "down (rs_Definitions st) \<subseteq> down (rs_Definitions st') \<and> wf (rs_Definitions st')
    \<and> (\<forall>gvr d. served_def st' key gvr = Some d \<longrightarrow> origin (rs_Definitions st) d = None \<longrightarrow>
         d \<notin> down (rs_Definitions st'))
    \<and> (\<forall>gvr d. served_def st' key gvr = Some d \<longrightarrow> origin (rs_Definitions st) d \<noteq> None \<longrightarrow>
         served_def st key gvr = Some d)"
proof -
  let ?old = "go_map (rs_apiSets st key)" and ?rt = "rs_Definitions st"
  obtain pl an newSet rt rt' where build: "build_set c fs e pl ?old ?rt = (Inr newSet, rt)"
    and clean: "cleanup c ?old newSet (al_DefRange (rc_lib c) 0 ?old) rt = (True, rt')"
    and st': "st' = st\<lparr>rs_apiSets := (rs_apiSets st)(key \<mapsto> newSet), rs_Annotations := an,
      rs_Definitions := rt'\<rparr>"
    using run by (rule update_domain_success)
  have b: "build_inv fs e pl ?old ?rt newSet rt"
    using build_set_inv [OF wf known build] by simp
  then have set: "set_inv (rc_lib c) fs e pl ?old (origin ?rt) (origin rt) newSet"
    and rt: "wf rt" "down rt = down ?rt"
    unfolding build_inv_def by auto
  have le: "origin ?rt \<subseteq>\<^sub>m origin rt" using set unfolding set_inv_def by blast
  have "old_known (origin rt) ?old"
    using known le unfolding old_known_def map_le_def by (metis domIff)
  from cleanup_down [OF rt(1) this clean]
  have cl: "wf rt'" "down rt \<subseteq> down rt'"
      "\<forall>d \<in> down rt'. d \<in> down rt \<or> (\<exists>gvr. drops ?old newSet gvr d)" by simp_all
  have new: "d \<notin> down rt'" if "origin ?rt d = None" for d
  proof
    assume "d \<in> down rt'"
    then consider "d \<in> down ?rt" | g where "drops ?old newSet g d" using cl(3) rt(2) by blast
    then show False
    proof cases
      case 1
      then show ?thesis using down_known [OF wf] that by blast
    next
      case 2
      then show ?thesis using known that unfolding drops_def old_known_def by blast
    qed
  qed
  have old: "served_def st key gvr = Some d"
    if s: "served_def st' key gvr = Some d" "origin ?rt d \<noteq> None" for gvr d
  proof -
    obtain en where en: "newSet gvr = Some en" "de_Definition en = Some d"
      using s(1) st' by (auto simp: served_def_def split: option.splits)
    have "\<not> fresh_entry (origin ?rt) en" using en(2) s(2) by (simp add: fresh_entry_def)
    then have "?old gvr = Some en" using set_inv_entry [OF set en(1)] by (simp add: kept_entry_def)
    then show ?thesis using en(2) by (simp add: served_go_map)
  qed
  show ?thesis using cl(1,2) rt(2) new old by (simp add: st')
qed

end


text \<open>
  In the example the context is done before the first item is taken: the definition the worker
  then serves for the widgets is never torn down, and its context never cancelled.
\<close>

lemma w_stop_init:
  "start_step w_be w_lib sel (Running, reconciler_init an) (TornDown, reconciler_init an)"
  using start_step.tear_down [of w_be w_lib w_view "reconciler_init an" "[]" "rs_Definitions (reconciler_init an)" sel]
  by (simp add: reconciler_init_def)


end
