(* ===== verification/Served_Objects.thy ===== *)
theory Served_Objects
  imports Api_Served Selector_Admission
begin

text \<open>
  Reading and writing through one workspace: which objects the storage of a served definition
  delivers, and whether an object that the validating admission let through can be read back.
  The storages of \<open>registry.NewStorage\<close> and \<open>labels.Requirement.Matches\<close> are parameters,
  with what kcp and apimachinery document as laws.
\<close>

record 'req registry_api =
  rg_Satisfies :: "'req \<Rightarrow> label_set \<Rightarrow> bool"                      \<comment> \<open>\<open>Requirement.Matches\<close>\<close>
  rg_Delivers :: "'req rest_storage \<Rightarrow> storage_func \<Rightarrow> label_set \<Rightarrow> bool"
    \<comment> \<open>whether a function of the storage hands out an object with these labels\<close>

definition storage_requirements :: "'req rest_storage \<Rightarrow> 'req list" where
  "storage_requirements st = (case st_Wrapper st of None \<Rightarrow> [] | Some rs \<Rightarrow> rs)"

definition read_functions :: "storage_func list" where
  "read_functions = [GetterFunc, ListerFunc, WatcherFunc]"

text \<open>
  A function that is not exposed delivers nothing; get, list and watch of the main storage
  deliver what satisfies all requirements of the label selector wrapper, if there is one.
\<close>

definition registry_law :: "'req registry_api \<Rightarrow> bool" where
  "registry_law R \<longleftrightarrow>
     (\<forall>st f l. (f \<notin> set (st_Funcs st) \<longrightarrow> \<not> rg_Delivers R st f l)
        \<and> (f \<in> set (st_Funcs st) \<and> f \<in> set read_functions \<and> \<not> st_IsStatus st \<longrightarrow>
             rg_Delivers R st f l
               = list_all (\<lambda>r. rg_Satisfies R r l) (storage_requirements st)))"

text \<open>
  \<open>labels.Selector.Requirements\<close>: when the selector is selectable, its requirements say
  exactly what it matches.
\<close>

definition requirements_law ::
    "('sel, 'req) labels_api \<Rightarrow> ('req \<Rightarrow> label_set \<Rightarrow> bool) \<Rightarrow> label_selector \<Rightarrow> bool" where
  "requirements_law L sat ls \<longleftrightarrow>
     (\<forall>s reqs. LabelSelectorAsSelector L ls = Inr s \<longrightarrow> Requirements L s = (reqs, True) \<longrightarrow>
        (\<forall>l. Matches L s l \<longleftrightarrow> list_all (\<lambda>r. sat r l) reqs))"

lemma slice_requirements_match:
  assumes "slice_requirements L ls = Inr reqs" "requirements_law L sat ls"
  obtains s where "LabelSelectorAsSelector L ls = Inr s"
    "\<And>l. Matches L s l \<longleftrightarrow> list_all (\<lambda>r. sat r l) reqs"
  using assms by (auto simp: slice_requirements_def requirements_law_def split: sum.splits prod.splits if_splits)

text \<open>The storages behind a forwarding definition; a read-only one has a storage of kcp's.\<close>

definition definition_storages ::
    "'req defs_state \<Rightarrow> string set \<Rightarrow> nat \<Rightarrow> ('req rest_storage \<times> (string \<rightharpoonup> 'req rest_storage)) option" where
  "definition_storages st subresources d =
     (case ds_Defs st d of
        None \<Rightarrow> None
      | Some a \<Rightarrow>
          (case ad_Provider a of
             Delegating ctx i w \<Rightarrow> Some (provideDelegatingRestStorage ctx i w subresources)
           | ReadOnly _ \<Rightarrow> None))"

lemma definition_storages_main:
  assumes "definition_storages st subresources d = Some (storage, subs)"
  obtains a ctx i w where "ds_Defs st d = Some a" "ad_Provider a = Delegating ctx i w"
    "st_Wrapper storage = w" "\<not> st_IsStatus storage" "set read_functions \<subseteq> set (st_Funcs storage)"
  using assms
  by (auto simp: definition_storages_def provideDelegatingRestStorage_def Let_def read_functions_def
      split: option.splits provider.splits)

text \<open>
  What get, list and watch of a served forwarding definition deliver: the requirements of the
  slice's selector come first, whatever follows is what the permission claim added.
\<close>

lemma served_storage_delivers:
  assumes reach: "(reconcile_step be lib sel)\<^sup>*\<^sup>* (reconciler_init an) st"
    and served: "served_def st key gvr = Some d"
    and storage: "definition_storages (rs_Definitions st) subresources d = Some (storage, subs)"
    and registry: "registry_law R"
    and reqs: "requirements_law (al_Labels lib) (rg_Satisfies R) (sel key)"
  obtains s reqs where "LabelSelectorAsSelector (al_Labels lib) (sel key) = Inr s"
    "slice_requirements (al_Labels lib) (sel key) = Inr reqs"
    "\<And>f l. f \<in> set read_functions \<Longrightarrow>
       rg_Delivers R storage f l \<longleftrightarrow> Matches (al_Labels lib) s l
         \<and> list_all (\<lambda>r. rg_Satisfies R r l) (drop (length reqs) (storage_requirements storage))"
proof -
  obtain a ctx i w where a: "ds_Defs (rs_Definitions st) d = Some a" "ad_Provider a = Delegating ctx i w"
    and st: "st_Wrapper storage = w" "\<not> st_IsStatus storage" "set read_functions \<subseteq> set (st_Funcs storage)"
    using storage by (rule definition_storages_main)
  have "filtered_origin (al_Labels lib) (sel key) gvr (serves (rs_Definitions st) d)"
    using vw_inv_reachable [OF reach] served unfolding world_inv_def by blast
  then obtain reqs where r: "slice_requirements (al_Labels lib) (sel key) = Inr reqs"
      "prefix reqs (case w of None \<Rightarrow> [] | Some r \<Rightarrow> r)"
    by (cases rule: filtered_provider) (use a in auto)
  then obtain extra where extra: "storage_requirements storage = reqs @ extra"
    by (auto simp: prefix_def storage_requirements_def st(1))
  obtain s where s: "LabelSelectorAsSelector (al_Labels lib) (sel key) = Inr s"
      "\<And>l. Matches (al_Labels lib) s l \<longleftrightarrow> list_all (\<lambda>r. rg_Satisfies R r l) reqs"
    using r(1) reqs by (rule slice_requirements_match) blast
  have "rg_Delivers R storage f l = list_all (\<lambda>r. rg_Satisfies R r l) (reqs @ extra)"
    if "f \<in> set read_functions" for f l
    using registry that st extra unfolding registry_law_def by auto
  with s r(1) extra show thesis by (intro that [of s reqs]) simp_all
qed


text \<open>The example registry: \<open>ref_labels\<close> has \<open>In\<close> requirements only.\<close>

definition w_registry :: "(string \<times> string list) registry_api" where [world]:
  "w_registry =
     \<lparr>rg_Satisfies = (\<lambda>r l. \<exists>v \<in> set (snd r). l (fst r) = Some v),
      rg_Delivers = (\<lambda>st f l. f \<in> set (st_Funcs st)
        \<and> list_all (\<lambda>r. \<exists>v \<in> set (snd r). l (fst r) = Some v) (storage_requirements st))\<rparr>"

lemma w_registry_law: "registry_law w_registry"
  by (simp add: registry_law_def w_registry_def)

lemma w_requirements_law: "requirements_law (al_Labels w_lib) (rg_Satisfies w_registry) w_selector"
  by (auto simp: requirements_law_def w_lib_def ref_labels_def w_registry_def w_selector_def w_labels_def)

lemma w_rt_widgets_provider:
  "\<exists>a. ds_Defs w_rt (Suc 0) = Some a
     \<and> ad_Provider a = Delegating (Suc 0) ''id'' (Some [(''env'', [''prod''])])"
  unfolding w_rt_built by (simp add: w_built_def w_eval)

definition w_storage :: "(string \<times> string list) rest_storage" where
  "w_storage = fst (provideDelegatingRestStorage 1 ''id'' (Some [(''env'', [''prod''])]) {''status''})"

lemma w_storages:
  "definition_storages (rs_Definitions w_st) {''status''} 1
     = Some (w_storage, snd (provideDelegatingRestStorage 1 ''id'' (Some [(''env'', [''prod''])]) {''status''}))"
  using w_rt_widgets_provider by (auto simp: definition_storages_def w_storage_def w_st_def)

lemma w_storage_requirements: "storage_requirements w_storage = [(''env'', [''prod''])]"
  by (simp add: storage_requirements_def w_storage_def provideDelegatingRestStorage_def)

lemma w_delivers:
  "rg_Delivers w_registry w_storage ListerFunc l \<longleftrightarrow> l ''env'' = Some ''prod''"
  by (simp add: w_registry_def w_storage_requirements) (simp add: w_storage_def provideDelegatingRestStorage_def)



text \<open>
  In the example nothing follows the requirements of the slice: the config map that passes
  validation is listed.
\<close>

lemma w_es_selector: "ObjectSelector (Spec w_slice) = w_selector"
  by (simp add: w_slice_def)


end
