(* ===== verification/Crd_Schema.thy ===== *)
theory Crd_Schema
  imports Schemas
begin

text \<open>
  The document \<open>configFile\<close> of \<open>schemas/file.go\<close>: the CustomResourceDefinition of the endpoint
  slices, descriptions left out, and how its OpenAPI schema relates to the Go types of
  \<open>sdk/apis/filteredvw/v1alpha1\<close> and to their validation. The keywords of the schema have the
  meaning Kubernetes documents; matching a string against a pattern and its formats are
  parameters.
\<close>

section \<open>The document\<close>

datatype string_keyword = Pattern string | Format string | MinLength nat

datatype list_keyword = ListType string | ListMapKeys "string list"

datatype object_keyword = MapType string | Validation string string   \<comment> \<open>message, rule\<close>

datatype crd_schema =
    StringSchema "string_keyword list"
  | ArraySchema "list_keyword list" crd_schema
  | ObjectSchema "(string \<times> crd_schema) list" "string list" "object_keyword list"
      \<comment> \<open>properties, the required ones, extensions\<close>
  | MapSchema crd_schema                  \<comment> \<open>\<open>additionalProperties\<close>\<close>

abbreviation plain_string :: crd_schema where
  "plain_string \<equiv> StringSchema []"

definition cluster_path_pattern :: string where
  "cluster_path_pattern = ''^[a-z0-9]([-a-z0-9]*[a-z0-9])?(:[a-z0-9]([-a-z0-9]*[a-z0-9])?)*$''"

definition export_schema :: crd_schema where
  "export_schema = ObjectSchema
     [(''name'', plain_string), (''path'', StringSchema [Pattern cluster_path_pattern])]
     [''name'', ''path'']
     [Validation ''APIExport reference must not be changed'' ''self == oldSelf'']"

definition match_expression_schema :: crd_schema where
  "match_expression_schema = ObjectSchema
     [(''key'', plain_string), (''operator'', plain_string),
      (''values'', ArraySchema [ListType ''atomic''] plain_string)]
     [''key'', ''operator''] []"

definition objectSelector_schema :: crd_schema where
  "objectSelector_schema = ObjectSchema
     [(''matchExpressions'', ArraySchema [ListType ''atomic''] match_expression_schema),
      (''matchLabels'', MapSchema plain_string)]
     []
     [MapType ''atomic'', Validation ''objectSelector must not be changed'' ''self == oldSelf'']"

definition spec_schema :: crd_schema where
  "spec_schema = ObjectSchema
     [(''export'', export_schema), (''objectSelector'', objectSelector_schema)]
     [''export'', ''objectSelector''] []"

definition condition_schema :: crd_schema where
  "condition_schema = ObjectSchema
     [(''lastTransitionTime'', StringSchema [Format ''date-time'']), (''message'', plain_string),
      (''reason'', plain_string), (''severity'', plain_string), (''status'', plain_string),
      (''type'', plain_string)]
     [''lastTransitionTime'', ''status'', ''type''] []"

definition status_schema :: crd_schema where
  "status_schema = ObjectSchema
     [(''conditions'', ArraySchema [] condition_schema),
      (''endpoints'', ArraySchema [ListMapKeys [''url''], ListType ''map'']
          (ObjectSchema [(''url'', StringSchema [MinLength 1])] [''url''] []))]
     [] []"

definition openAPIV3Schema :: crd_schema where
  "openAPIV3Schema = ObjectSchema
     [(''apiVersion'', plain_string), (''kind'', plain_string), (''metadata'', ObjectSchema [] [] []),
      (''spec'', spec_schema), (''status'', status_schema)]
     [] []"

record printer_column =
  pcol_JSONPath :: string
  pcol_Name :: string
  pcol_Type :: string

record crd_version =
  cv_PrinterColumns :: "printer_column list"
  cv_Name :: string
  cv_Schema :: crd_schema
  cv_Served :: bool
  cv_Storage :: bool
  cv_StatusSubresource :: bool

record crd_document =
  doc_Name :: string
  doc_Group :: string
  doc_Categories :: "string list"
  doc_Kind :: string
  doc_ListKind :: string
  doc_Plural :: string
  doc_Singular :: string
  doc_Scope :: string
  doc_Versions :: "crd_version list"

definition configFile :: crd_document where
  "configFile = \<lparr>
     doc_Name = ''filteredapiexportendpointslices.filteredapiexport.kcp.io'',
     doc_Group = ''filteredapiexport.kcp.io'',
     doc_Categories = [''kcp''],
     doc_Kind = ''FilteredAPIExportEndpointSlice'',
     doc_ListKind = ''FilteredAPIExportEndpointSliceList'',
     doc_Plural = ''filteredapiexportendpointslices'',
     doc_Singular = ''filteredapiexportendpointslice'',
     doc_Scope = ''Cluster'',
     doc_Versions = [\<lparr>
       cv_PrinterColumns =
         [\<lparr>pcol_JSONPath = ''.spec.export.name'', pcol_Name = ''Export'', pcol_Type = ''string''\<rparr>,
          \<lparr>pcol_JSONPath = ''.metadata.creationTimestamp'', pcol_Name = ''Age'', pcol_Type = ''date''\<rparr>],
       cv_Name = ''v1alpha1'',
       cv_Schema = openAPIV3Schema,
       cv_Served = True,
       cv_Storage = True,
       cv_StatusSubresource = True\<rparr>]\<rparr>"

text \<open>What \<open>init\<close> of \<open>apis.go\<close> reads of it is \<open>configFile_crd\<close>.\<close>

definition crd_of :: "crd_document \<Rightarrow> crd" where
  "crd_of d = \<lparr>crd_Group = doc_Group d, crd_Plural = doc_Plural d,
     crd_Versions = map (\<lambda>v. (cv_Name v, cv_Served v)) (doc_Versions d)\<rparr>"

lemma configFile_read: "crd_of configFile = configFile_crd"
  by (simp add: crd_of_def configFile_def configFile_crd_def)

text \<open>Names of the document: \<open>metadata.name\<close> is plural and group, as the API server demands.\<close>

lemma configFile_name: "doc_Name configFile = doc_Plural configFile @ ''.'' @ doc_Group configFile"
  by (simp add: configFile_def)

section \<open>What the schema says of an object\<close>

datatype json = JString string | JArray "json list" | JObject "string \<Rightarrow> json option"

fun keyword_ok :: "(string \<Rightarrow> string \<Rightarrow> bool) \<Rightarrow> string \<Rightarrow> string_keyword \<Rightarrow> bool" where
  "keyword_ok R s (Pattern p) = R p s"
| "keyword_ok R s (Format f) = R f s"
| "keyword_ok R s (MinLength n) = (n \<le> length s)"

fun conforms :: "(string \<Rightarrow> string \<Rightarrow> bool) \<Rightarrow> crd_schema \<Rightarrow> json \<Rightarrow> bool"
  and conforms_fields :: "(string \<Rightarrow> string \<Rightarrow> bool) \<Rightarrow> (string \<times> crd_schema) list \<Rightarrow> (string \<Rightarrow> json option) \<Rightarrow> bool"
  where
  "conforms R (StringSchema ks) j = (case j of JString s \<Rightarrow> list_all (keyword_ok R s) ks | _ \<Rightarrow> False)"
| "conforms R (ArraySchema ks item) j = (case j of JArray xs \<Rightarrow> (\<forall>x \<in> set xs. conforms R item x) | _ \<Rightarrow> False)"
| "conforms R (ObjectSchema props req ks) j =
     (case j of JObject m \<Rightarrow> list_all (\<lambda>k. m k \<noteq> None) req \<and> conforms_fields R props m | _ \<Rightarrow> False)"
| "conforms R (MapSchema item) j = (case j of JObject m \<Rightarrow> (\<forall>x \<in> ran m. conforms R item x) | _ \<Rightarrow> False)"
| "conforms_fields R [] m = True"
| "conforms_fields R ((k, s) # props) m =
     ((case m k of None \<Rightarrow> True | Some j \<Rightarrow> conforms R s j) \<and> conforms_fields R props m)"

text \<open>
  Fields the schema does not declare are pruned; an object without declared properties, such as
  the metadata, is kept.
\<close>

fun pruned :: "crd_schema \<Rightarrow> json \<Rightarrow> json"
  and pruned_field :: "(string \<times> crd_schema) list \<Rightarrow> string \<Rightarrow> json option \<Rightarrow> json option" where
  "pruned (StringSchema ks) j = j"
| "pruned (ArraySchema ks item) j = (case j of JArray xs \<Rightarrow> JArray (map (\<lambda>x. pruned item x) xs) | _ \<Rightarrow> j)"
| "pruned (ObjectSchema props req ks) j =
     (case j of JObject m \<Rightarrow> if props = [] then j else JObject (\<lambda>k. pruned_field props k (m k)) | _ \<Rightarrow> j)"
| "pruned (MapSchema item) j =
     (case j of JObject m \<Rightarrow> JObject (\<lambda>k. map_option (\<lambda>x. pruned item x) (m k)) | _ \<Rightarrow> j)"
| "pruned_field [] k j = None"
| "pruned_field ((k', s) # props) k j =
     (if k' = k then (case j of None \<Rightarrow> None | Some x \<Rightarrow> Some (pruned s x)) else pruned_field props k j)"

text \<open>
  The transition rules \<open>self == oldSelf\<close> of an update, wherever both objects have the field.
\<close>

fun keyword_unchanged :: "json \<Rightarrow> json \<Rightarrow> object_keyword \<Rightarrow> bool" where
  "keyword_unchanged old new (Validation m rule) = (rule = ''self == oldSelf'' \<longrightarrow> new = old)"
| "keyword_unchanged old new (MapType t) = True"

fun transitions_ok :: "crd_schema \<Rightarrow> json \<Rightarrow> json \<Rightarrow> bool"
  and transition_fields :: "(string \<times> crd_schema) list \<Rightarrow> (string \<Rightarrow> json option) \<Rightarrow> (string \<Rightarrow> json option) \<Rightarrow> bool"
  where
  "transitions_ok (ObjectSchema props req ks) old new =
     (list_all (keyword_unchanged old new) ks
      \<and> (case (old, new) of (JObject m, JObject m') \<Rightarrow> transition_fields props m m' | _ \<Rightarrow> True))"
| "transitions_ok (StringSchema ks) old new = True"
| "transitions_ok (ArraySchema ks item) old new = True"
| "transitions_ok (MapSchema item) old new = True"
| "transition_fields [] m m' = True"
| "transition_fields ((k, s) # props) m m' =
     ((case (m k, m' k) of (Some j, Some j') \<Rightarrow> transitions_ok s j j' | _ \<Rightarrow> True)
      \<and> transition_fields props m m')"

section \<open>The JSON of the Go types\<close>

text \<open>\<open>omitempty\<close>: an empty string, map or slice is left out.\<close>

definition field_at :: "(string \<times> json option) list \<Rightarrow> string \<Rightarrow> json option" where
  "field_at fs k = (case map_of fs k of None \<Rightarrow> None | Some j \<Rightarrow> j)"

definition json_fields :: "(string \<times> json option) list \<Rightarrow> json" where
  "json_fields fs = JObject (field_at fs)"

definition omit_empty :: "'a list \<Rightarrow> json \<Rightarrow> json option" where
  "omit_empty xs j = (if xs = [] then None else Some j)"

definition export_json :: "ExportBindingReference \<Rightarrow> json" where
  "export_json r = json_fields
     [(''path'', omit_empty (ref_Path r) (JString (ref_Path r))), (''name'', Some (JString (ref_Name r)))]"

definition match_expression_json :: "match_expression \<Rightarrow> json" where
  "match_expression_json e = json_fields
     [(''key'', Some (JString (me_Key e))), (''operator'', Some (JString (me_Operator e))),
      (''values'', omit_empty (me_Values e) (JArray (map JString (me_Values e))))]"

definition selector_json :: "label_selector \<Rightarrow> json" where
  "selector_json s = json_fields
     [(''matchLabels'', if go_map (MatchLabels s) = Map.empty then None
         else Some (JObject (\<lambda>k. map_option JString (go_map (MatchLabels s) k)))),
      (''matchExpressions'', case MatchExpressions s of None \<Rightarrow> None
         | Some es \<Rightarrow> omit_empty es (JArray (map match_expression_json es)))]"

text \<open>\<open>omitempty\<close> does nothing for a struct: \<open>objectSelector\<close> is always there.\<close>

definition spec_json :: "FilteredAPIExportEndpointSliceSpec \<Rightarrow> json" where
  "spec_json s = json_fields
     [(''export'', Some (export_json (APIExport s))),
      (''objectSelector'', Some (selector_json (ObjectSelector s)))]"

section \<open>The schema and the Go types\<close>

lemma field_at_simps [simp]:
  "field_at [] k = None" "field_at ((k', j) # fs) k = (if k = k' then j else field_at fs k)"
  by (simp_all add: field_at_def)

lemma pruned_field_map_of:
  "pruned_field props k j = (case map_of props k of None \<Rightarrow> None | Some s \<Rightarrow> map_option (pruned s) j)"
  by (induction props) (auto split: option.splits)

lemma conforms_fields_iff:
  "conforms_fields R props m \<longleftrightarrow> (\<forall>(k, s) \<in> set props. \<forall>j. m k = Some j \<longrightarrow> conforms R s j)"
  by (induction props) (auto split: option.splits)

text \<open>Pruning keeps an object whose fields are declared and kept.\<close>

lemma pruned_fields_kept:
  assumes "props \<noteq> []"
    and "\<And>k j. field_at fs k = Some j \<Longrightarrow> \<exists>s. map_of props k = Some s \<and> pruned s j = j"
  shows "pruned (ObjectSchema props req ks) (json_fields fs) = json_fields fs"
proof -
  have "pruned_field props k (field_at fs k) = field_at fs k" for k
    using assms(2) [of k] by (cases "field_at fs k") (auto simp: pruned_field_map_of split: option.splits)
  then show ?thesis using assms(1) by (simp add: json_fields_def)
qed

lemma match_expression_kept:
  "pruned match_expression_schema (match_expression_json e) = match_expression_json e"
  unfolding match_expression_schema_def match_expression_json_def
  by (rule pruned_fields_kept) (auto simp: omit_empty_def comp_def split: if_splits)

lemma selector_kept: "pruned objectSelector_schema (selector_json s) = selector_json s"
  unfolding objectSelector_schema_def selector_json_def
proof (rule pruned_fields_kept)
  have m: "map_option (pruned plain_string) (map_option JString x) = map_option JString x" for x
    by (cases x) simp_all
  show "\<exists>sch. map_of [(''matchExpressions'', ArraySchema [ListType ''atomic''] match_expression_schema),
        (''matchLabels'', MapSchema plain_string)] k = Some sch \<and> pruned sch j = j"
    if "field_at [(''matchLabels'', if go_map (MatchLabels s) = Map.empty then None
         else Some (JObject (\<lambda>k. map_option JString (go_map (MatchLabels s) k)))),
      (''matchExpressions'', case MatchExpressions s of None \<Rightarrow> None
         | Some es \<Rightarrow> omit_empty es (JArray (map match_expression_json es)))] k = Some j" for k j
    using that by (auto simp: m omit_empty_def comp_def match_expression_kept simp del: option.map_comp
        split: if_splits option.splits)
qed simp

lemma export_kept: "pruned export_schema (export_json r) = export_json r"
  unfolding export_schema_def export_json_def
  by (rule pruned_fields_kept) (auto simp: omit_empty_def split: if_splits)

text \<open>Every field of the Go type is declared: nothing of a spec the program writes is pruned.\<close>

lemma spec_kept: "pruned spec_schema (spec_json s) = spec_json s"
  unfolding spec_schema_def spec_json_def
  by (rule pruned_fields_kept) (auto simp: export_kept selector_kept split: if_splits)

text \<open>The document declares a field of the status that the Go type does not have.\<close>

lemma endpoints_declared_only:
  "\<exists>props req ks. status_schema = ObjectSchema props req ks \<and> map fst props = [''conditions'', ''endpoints'']"
  by (simp add: status_schema_def)

text \<open>What the JSON of a spec conforms to, part by part.\<close>

lemma export_conforms:
  "conforms R export_schema (export_json r) \<longleftrightarrow> ref_Path r \<noteq> '''' \<and> R cluster_path_pattern (ref_Path r)"
  by (simp add: export_schema_def export_json_def json_fields_def omit_empty_def)

lemma match_expression_conforms: "conforms R match_expression_schema (match_expression_json e)"
  by (simp add: match_expression_schema_def match_expression_json_def json_fields_def omit_empty_def)

lemma selector_conforms: "conforms R objectSelector_schema (selector_json s)"
  by (auto simp: objectSelector_schema_def selector_json_def json_fields_def omit_empty_def
      match_expression_conforms ran_def split: option.splits)

lemma spec_conforms:
  "conforms R spec_schema (spec_json s) \<longleftrightarrow>
     ref_Path (APIExport s) \<noteq> '''' \<and> R cluster_path_pattern (ref_Path (APIExport s))"
  by (simp add: spec_schema_def spec_json_def json_fields_def selector_conforms export_conforms)

text \<open>The encodings are injective, on selectors as they are decoded: no empty map or slice.\<close>

definition decoded :: "label_selector \<Rightarrow> bool" where
  "decoded s \<longleftrightarrow> MatchLabels s \<noteq> Some Map.empty \<and> MatchExpressions s \<noteq> Some []"

lemma json_fields_eqD: "json_fields fs = json_fields fs' \<Longrightarrow> field_at fs k = field_at fs' k"
  by (simp add: json_fields_def)

lemma export_json_inj: "export_json r = export_json r' \<longleftrightarrow> r = r'"
proof
  assume eq: "export_json r = export_json r'"
  note f = json_fields_eqD [OF eq [unfolded export_json_def]]
  show "r = r'"
    using f [of "''path''"] f [of "''name''"] by (cases r; cases r') (auto simp: omit_empty_def split: if_splits)
qed simp

lemma match_expression_json_inj: "match_expression_json e = match_expression_json e' \<longleftrightarrow> e = e'"
proof
  assume eq: "match_expression_json e = match_expression_json e'"
  note f = json_fields_eqD [OF eq [unfolded match_expression_json_def]]
  have "map JString xs = map JString ys \<longleftrightarrow> xs = ys" for xs ys
    by (rule inj_map_eq_map) (simp add: inj_def)
  then show "e = e'"
    using f [of "''key''"] f [of "''operator''"] f [of "''values''"]
    by (cases e; cases e') (auto simp: omit_empty_def split: if_splits)
qed simp

lemma selector_json_inj:
  assumes "decoded s" "decoded s'"
  shows "selector_json s = selector_json s' \<longleftrightarrow> s = s'"
proof
  assume eq: "selector_json s = selector_json s'"
  note f = json_fields_eqD [OF eq [unfolded selector_json_def]]
  have es: "map match_expression_json xs = map match_expression_json ys \<longleftrightarrow> xs = ys" for xs ys
    by (rule inj_map_eq_map) (simp add: inj_def match_expression_json_inj)
  have "MatchExpressions s = MatchExpressions s'"
    using f [of "''matchExpressions''"] assms
    by (auto simp: omit_empty_def decoded_def es split: option.splits if_splits)
  moreover have "go_map (MatchLabels s) = go_map (MatchLabels s')"
  proof -
    have inj: "m = m'" if "(\<lambda>k. map_option JString (m k)) = (\<lambda>k. map_option JString (m' k))" for m m'
    proof
      fix k
      have "map_option JString (m k) = map_option JString (m' k)" using that by (rule fun_cong)
      then show "m k = m' k" by (cases "m k"; cases "m' k") auto
    qed
    show ?thesis using f [of "''matchLabels''"] inj by (auto split: if_splits)
  qed
  then have "MatchLabels s = MatchLabels s'"
    using assms by (cases "MatchLabels s"; cases "MatchLabels s'") (auto simp: decoded_def)
  ultimately show "s = s'" by (cases s; cases s') simp
qed simp

lemma spec_transitions:
  "transitions_ok spec_schema (spec_json old) (spec_json new) \<longleftrightarrow>
     export_json (APIExport new) = export_json (APIExport old)
     \<and> selector_json (ObjectSelector new) = selector_json (ObjectSelector old)"
proof -
  have "transitions_ok export_schema j j' \<longleftrightarrow> j' = j" if "j = export_json r" "j' = export_json r'" for j j' r r'
    using that by (auto simp: export_schema_def export_json_def json_fields_def split: option.splits)
  moreover have "transitions_ok objectSelector_schema j j' \<longleftrightarrow> j' = j"
    if "j = selector_json r" "j' = selector_json r'" for j j' r r'
    using that by (auto simp: objectSelector_schema_def selector_json_def json_fields_def split: option.splits)
  ultimately show ?thesis by (simp add: spec_schema_def spec_json_def json_fields_def)
qed


text \<open>An example: the Go validation accepts a slice that moves to another export, the CRD does not.\<close>

definition w_crd_slice :: "string \<Rightarrow> slice" where
  "w_crd_slice n = \<lparr>sl_Name = ''es'', sl_Cluster = ''prov'',
     Spec = \<lparr>APIExport = \<lparr>ref_Path = ''root:prov'', ref_Name = n\<rparr>,
             ObjectSelector = \<lparr>MatchLabels = Some [''env'' \<mapsto> ''prod''], MatchExpressions = None\<rparr>\<rparr>,
     Status = \<lparr>Conditions = []\<rparr>\<rparr>"


text \<open>
  Nor does the schema demand a non-empty export name, which the Go validation does.
\<close>

lemma empty_name_conforms:
  assumes "R cluster_path_pattern p" "p \<noteq> ''''" "APIExport s = \<lparr>ref_Path = p, ref_Name = ''''\<rparr>"
  shows "conforms R spec_schema (spec_json s)"
  using assms by (simp add: spec_conforms)

end
