(* ===== verification/Worker_Pool.thy ===== *)
theory Worker_Pool
  imports Work_Queue
begin

text \<open>
  Several workers on one queue: what \<open>Start\<close> of a controller sets up. Each worker is a
  goroutine running \<open>wait.UntilWithContext(ctx, startWorker, time.Second)\<close>: it runs
  \<open>startWorker\<close> again and again until the context is done. \<open>Start\<close> itself waits for the
  context and shuts the queue down when it returns.

  The queue is client-go's; \<open>queue_law\<close> is its documented behaviour (package \<open>workqueue\<close>:
  fair, stingy, multiple consumers and producers, shutdown notifications), told by four views
  of a queue: the keys that are to be processed, the keys handed out and not yet done, the
  keys that wait for the rate limiter, and whether it is shut down.
\<close>

section \<open>The queue\<close>

record 'q queue_api =
  wq_New :: 'q
  wq_Add :: "string \<Rightarrow> 'q \<Rightarrow> 'q"
  wq_AddRateLimited :: "string \<Rightarrow> 'q \<Rightarrow> 'q"
  wq_Forget :: "string \<Rightarrow> 'q \<Rightarrow> 'q"
  wq_Done :: "string \<Rightarrow> 'q \<Rightarrow> 'q"
  wq_ShutDown :: "'q \<Rightarrow> 'q"
  wq_Get :: "'q \<Rightarrow> (string option \<times> 'q) option"   \<comment> \<open>\<open>None\<close>: blocks; no key: shut down\<close>
  wq_Elapsed :: "string \<Rightarrow> 'q \<Rightarrow> 'q"              \<comment> \<open>the rate limiter lets a key through\<close>
  wq_Pending :: "'q \<Rightarrow> string set"
  wq_Processing :: "'q \<Rightarrow> string set"
  wq_Waiting :: "'q \<Rightarrow> string set"
  wq_Closed :: "'q \<Rightarrow> bool"

definition views :: "'q queue_api \<Rightarrow> 'q \<Rightarrow> string set \<times> string set \<times> string set \<times> bool" where
  "views Q q = (wq_Pending Q q, wq_Processing Q q, wq_Waiting Q q, wq_Closed Q q)"

definition queue_law :: "'q queue_api \<Rightarrow> bool" where
  "queue_law Q \<longleftrightarrow>
     views Q (wq_New Q) = ({}, {}, {}, False)
     \<and> (\<forall>q k P B W c. views Q q = (P, B, W, c) \<longrightarrow>
          finite P
          \<and> views Q (wq_Add Q k q) = (if c then P else insert k P, B, W, c)
          \<and> views Q (wq_AddRateLimited Q k q) = (P, B, if c then W else insert k W, c)
          \<and> views Q (wq_Forget Q k q) = (P, B, W, c)
          \<and> views Q (wq_Done Q k q) = (P, B - {k}, W, c)
          \<and> views Q (wq_ShutDown Q q) = (P, B, W, True)
          \<and> (k \<in> W \<longrightarrow> views Q (wq_Elapsed Q k q) = (if c then P else insert k P, B, W - {k}, c))
          \<and> (case wq_Get Q q of
               None \<Rightarrow> P \<subseteq> B \<and> \<not> c
             | Some (None, q') \<Rightarrow> P \<subseteq> B \<and> c \<and> views Q q' = (P, B, W, c)
             | Some (Some k', q') \<Rightarrow> k' \<in> P \<and> k' \<notin> B \<and> views Q q' = (P - {k'}, insert k' B, W, c)))"

fun queue_do :: "'q queue_api \<Rightarrow> queue_op \<Rightarrow> 'q \<Rightarrow> 'q" where
  "queue_do Q (QAdd k) q = wq_Add Q k q"
| "queue_do Q (QAddRateLimited k) q = wq_AddRateLimited Q k q"
| "queue_do Q (QForget k) q = wq_Forget Q k q"
| "queue_do Q (QDone k) q = wq_Done Q k q"
| "queue_do Q QShutDown q = wq_ShutDown Q q"

lemma queue_lawD:
  assumes "queue_law Q" "views Q q = (P, B, W, c)"
  shows "finite P"
    and "views Q (queue_do Q (QAdd k) q) = (if c then P else insert k P, B, W, c)"
    and "views Q (queue_do Q (QAddRateLimited k) q) = (P, B, if c then W else insert k W, c)"
    and "views Q (queue_do Q (QForget k) q) = (P, B, W, c)"
    and "views Q (queue_do Q (QDone k) q) = (P, B - {k}, W, c)"
    and "views Q (queue_do Q QShutDown q) = (P, B, W, True)"
    and "k \<in> W \<Longrightarrow> views Q (wq_Elapsed Q k q) = (if c then P else insert k P, B, W - {k}, c)"
    and "wq_Get Q q = Some (Some k, q') \<Longrightarrow> k \<in> P \<and> k \<notin> B \<and> views Q q' = (P - {k}, insert k B, W, c)"
    and "wq_Get Q q = Some (None, q') \<Longrightarrow> P \<subseteq> B \<and> c \<and> views Q q' = (P, B, W, c)"
    and "wq_Get Q q = None \<Longrightarrow> P \<subseteq> B \<and> \<not> c"
  using assms unfolding queue_law_def by force+

section \<open>The workers\<close>

datatype worker_state =
    Between          \<comment> \<open>between two runs of \<open>startWorker\<close>, where the context is looked at\<close>
  | Ready            \<comment> \<open>in \<open>startWorker\<close>, before \<open>Get\<close>\<close>
  | Busy string      \<comment> \<open>in \<open>processNextWorkItem\<close> with this key\<close>
  | Finished

record ('q, 's) pool =
  po_Queue :: 'q
  po_State :: 's
  po_Workers :: "worker_state list"
  po_CtxDone :: bool
  po_Returned :: bool

datatype pool_label =
    Event string
  | Elapsed string
  | Loop nat
  | Got nat string
  | Quit nat
  | Handled nat string "queue_op list"
  | Exit nat
  | Cancel
  | Return

type_synonym 's next_item = "string option \<Rightarrow> 's \<Rightarrow> bool option \<times> queue_op list \<times> 's"

definition pool_init :: "'q queue_api \<Rightarrow> nat \<Rightarrow> 's \<Rightarrow> ('q, 's) pool" where
  "pool_init Q numThreads s =
     \<lparr>po_Queue = wq_New Q, po_State = s, po_Workers = replicate numThreads Between,
      po_CtxDone = False, po_Returned = False\<rparr>"

abbreviation set_worker :: "('q, 's) pool \<Rightarrow> nat \<Rightarrow> worker_state \<Rightarrow> ('q, 's) pool" where
  "set_worker st i w \<equiv> st\<lparr>po_Workers := (po_Workers st)[i := w]\<rparr>"

abbreviation is_at :: "('q, 's) pool \<Rightarrow> nat \<Rightarrow> worker_state \<Rightarrow> bool" where
  "is_at st i w \<equiv> i < length (po_Workers st) \<and> po_Workers st ! i = w"

text \<open>
  One step of the pool. \<open>items\<close> holds \<open>processNextWorkItem\<close> for every state of the rest of
  the world; the step \<open>handled\<close> is the moment a key has been processed, with the calls on the
  queue made after it. A panic ends the program and has no step.
\<close>

inductive pool_step ::
    "'q queue_api \<Rightarrow> 's next_item set \<Rightarrow> ('q, 's) pool \<Rightarrow> pool_label \<Rightarrow> ('q, 's) pool \<Rightarrow> bool"
  for Q items where
  event: "pool_step Q items st (Event k) (st\<lparr>po_Queue := queue_do Q (QAdd k) (po_Queue st)\<rparr>)"
| elapsed: "k \<in> wq_Waiting Q (po_Queue st) \<Longrightarrow>
     pool_step Q items st (Elapsed k) (st\<lparr>po_Queue := wq_Elapsed Q k (po_Queue st)\<rparr>)"
| loop: "is_at st i Between \<Longrightarrow> \<not> po_CtxDone st \<Longrightarrow>
     pool_step Q items st (Loop i) (set_worker st i Ready)"
| exit: "is_at st i Between \<Longrightarrow> po_CtxDone st \<Longrightarrow>
     pool_step Q items st (Exit i) (set_worker st i Finished)"
| got: "is_at st i Ready \<Longrightarrow> wq_Get Q (po_Queue st) = Some (Some k, q) \<Longrightarrow>
     pool_step Q items st (Got i k) (set_worker st i (Busy k)\<lparr>po_Queue := q\<rparr>)"
| quit: "is_at st i Ready \<Longrightarrow> wq_Get Q (po_Queue st) = Some (None, q) \<Longrightarrow>
     next_item \<in> items \<Longrightarrow> next_item None (po_State st) = (Some False, ops, s) \<Longrightarrow>
     pool_step Q items st (Quit i)
       (set_worker st i Between\<lparr>po_Queue := fold (queue_do Q) ops q, po_State := s\<rparr>)"
| handled: "is_at st i (Busy k) \<Longrightarrow> next_item \<in> items \<Longrightarrow>
     next_item (Some k) (po_State st) = (Some True, ops, s) \<Longrightarrow>
     pool_step Q items st (Handled i k ops)
       (set_worker st i Ready\<lparr>po_Queue := fold (queue_do Q) ops (po_Queue st), po_State := s\<rparr>)"
| cancel: "pool_step Q items st Cancel (st\<lparr>po_CtxDone := True\<rparr>)"
| returns: "po_CtxDone st \<Longrightarrow> \<not> po_Returned st \<Longrightarrow>
     pool_step Q items st Return
       (st\<lparr>po_Returned := True, po_Queue := queue_do Q QShutDown (po_Queue st)\<rparr>)"

text \<open>A run with its history, the newest label first.\<close>

inductive pool_run ::
    "'q queue_api \<Rightarrow> 's next_item set \<Rightarrow> ('q, 's) pool \<Rightarrow> pool_label list \<Rightarrow> ('q, 's) pool \<Rightarrow> bool"
  for Q items st0 where
  start: "pool_run Q items st0 [] st0"
| step: "pool_run Q items st0 ls st \<Longrightarrow> pool_step Q items st l st' \<Longrightarrow> pool_run Q items st0 (l # ls) st'"

text \<open>
  The keys that are owed a \<open>Get\<close>: an event was seen for them, or processing them failed, and
  they have not been handed out since.
\<close>

fun owed :: "pool_label list \<Rightarrow> string set" where
  "owed [] = {}"
| "owed (l # ls) =
     (case l of
        Event k \<Rightarrow> insert k (owed ls)
      | Got i k \<Rightarrow> owed ls - {k}
      | Handled i k ops \<Rightarrow> (if QAddRateLimited k \<in> set ops then insert k (owed ls) else owed ls)
      | _ \<Rightarrow> owed ls)"

section \<open>Invariants\<close>

definition busy_keys :: "('q, 's) pool \<Rightarrow> string set" where
  "busy_keys st = {k. Busy k \<in> set (po_Workers st)}"

lemma busy_keys_iff: "k \<in> busy_keys st \<longleftrightarrow> (\<exists>i. is_at st i (Busy k))"
  unfolding busy_keys_def in_set_conv_nth mem_Collect_eq by blast

lemma card_busy_keys: "card (busy_keys st) \<le> length (po_Workers st)"
proof -
  have "card (busy_keys st) = card (Busy ` busy_keys st)" by (simp add: card_image inj_on_def)
  also have "\<dots> \<le> card (set (po_Workers st))" by (rule card_mono) (auto simp: busy_keys_def)
  also have "\<dots> \<le> length (po_Workers st)" by (rule card_length)
  finally show ?thesis .
qed

definition alone :: "('q, 's) pool \<Rightarrow> bool" where
  "alone st \<longleftrightarrow> (\<forall>i j k. is_at st i (Busy k) \<longrightarrow> is_at st j (Busy k) \<longrightarrow> i = j)"

lemma is_at_upd:
  "is_at st i w \<Longrightarrow> is_at (set_worker st i w') j v \<longleftrightarrow> (if j = i then w' = v else is_at st j v)"
  by (auto simp: nth_list_update)

lemma busy_keys_upd:
  assumes "is_at st i w" "alone st"
  shows "busy_keys (set_worker st i w') = (busy_keys st - {k. w = Busy k}) \<union> {k. w' = Busy k}"
proof (rule set_eqI)
  fix k
  have "(\<exists>j. j \<noteq> i \<and> is_at st j (Busy k)) \<longleftrightarrow> (\<exists>j. is_at st j (Busy k)) \<and> w \<noteq> Busy k"
    using assms unfolding alone_def by metis
  moreover have "k \<in> busy_keys (set_worker st i w') \<longleftrightarrow> w' = Busy k \<or> (\<exists>j. j \<noteq> i \<and> is_at st j (Busy k))"
    unfolding busy_keys_iff is_at_upd [OF assms(1)] by (metis (full_types))
  ultimately show "k \<in> busy_keys (set_worker st i w')
      \<longleftrightarrow> k \<in> (busy_keys st - {k. w = Busy k}) \<union> {k. w' = Busy k}"
    by (simp add: busy_keys_iff) blast
qed

lemma alone_upd:
  assumes "is_at st i w" "alone st" "\<And>k. w' = Busy k \<Longrightarrow> k \<notin> busy_keys st"
  shows "alone (set_worker st i w')"
  using assms unfolding alone_def busy_keys_iff
  by (auto simp: nth_list_update split: if_splits)

definition pool_inv :: "'q queue_api \<Rightarrow> nat \<Rightarrow> pool_label list \<Rightarrow> ('q, 's) pool \<Rightarrow> bool" where
  "pool_inv Q n ls st \<longleftrightarrow>
     length (po_Workers st) = n
     \<and> alone st
     \<and> wq_Processing Q (po_Queue st) = busy_keys st
     \<and> wq_Closed Q (po_Queue st) = po_Returned st
     \<and> (po_Returned st \<longrightarrow> po_CtxDone st)
     \<and> (Finished \<in> set (po_Workers st) \<longrightarrow> po_CtxDone st)
     \<and> (po_Returned st \<or> owed ls \<subseteq> wq_Pending Q (po_Queue st) \<union> wq_Waiting Q (po_Queue st))"

locale worker_pool =
  fixes items :: "'s next_item set"
  assumes workers: "f \<in> items \<Longrightarrow> \<exists>process. worker process f"
begin

lemma item_ops:
  assumes "f \<in> items" "f (Some k) s = (Some True, ops, s')"
  shows "ops = [QForget k, QDone k] \<or> ops = [QAddRateLimited k, QDone k]"
proof -
  from workers [OF assms(1)] obtain process where "worker process f" ..
  from assms(2) show ?thesis
    by (cases rule: worker.item_cases [OF \<open>worker process f\<close>, of k s]) auto
qed

lemma pool_inv_step:
  assumes law: "queue_law Q" and inv: "pool_inv Q n ls st" and step: "pool_step Q items st l st'"
  shows "pool_inv Q n (l # ls) st'"
proof -
  obtain P B W c where v: "views Q (po_Queue st) = (P, B, W, c)" by (cases "views Q (po_Queue st)")
  note D = queue_lawD [OF law v]
  have PBW: "P = wq_Pending Q (po_Queue st)" "B = wq_Processing Q (po_Queue st)"
      "W = wq_Waiting Q (po_Queue st)" "c = wq_Closed Q (po_Queue st)"
    using v by (simp_all add: views_def)
  have I: "length (po_Workers st) = n" "alone st" "B = busy_keys st" "c = po_Returned st"
      "po_Returned st \<Longrightarrow> po_CtxDone st" "Finished \<in> set (po_Workers st) \<Longrightarrow> po_CtxDone st"
      "po_Returned st \<or> owed ls \<subseteq> P \<union> W"
    using inv unfolding pool_inv_def PBW by blast+
  have queue: "pool_inv Q n (l # ls) st'"
    if "views Q (po_Queue st') = (P', B', W', c')" "length (po_Workers st') = n" "alone st'"
      "B' = busy_keys st'" "c' = po_Returned st'" "po_Returned st' \<Longrightarrow> po_CtxDone st'"
      "Finished \<in> set (po_Workers st') \<Longrightarrow> po_CtxDone st'"
      "po_Returned st' \<or> owed (l # ls) \<subseteq> P' \<union> W'" for P' B' W' c'
    using that unfolding pool_inv_def views_def by simp
  have move: "pool_inv Q n (l # ls) st'"
    if "st' = (set_worker st i w')\<lparr>po_Queue := q, po_State := s\<rparr>" and w: "is_at st i w"
      and "views Q q = (P', (B - {k. w = Busy k}) \<union> {k. w' = Busy k}, W', c)"
      and fresh: "\<And>k. w' = Busy k \<Longrightarrow> k \<notin> B" and "w' = Finished \<Longrightarrow> po_CtxDone st"
      and "po_Returned st \<or> owed (l # ls) \<subseteq> P' \<union> W'" for i w w' q s P' W'
  proof (rule queue)
    have same: "busy_keys st' = busy_keys (set_worker st i w')" "alone st' = alone (set_worker st i w')"
      using that(1) by (simp_all add: busy_keys_def alone_def)
    show "alone st'" unfolding same using alone_upd [OF w I(2)] fresh I(3) by simp
    show "(B - {k. w = Busy k}) \<union> {k. w' = Busy k} = busy_keys st'"
      unfolding same busy_keys_upd [OF w I(2)] I(3) ..
    show "Finished \<in> set (po_Workers st') \<Longrightarrow> po_CtxDone st'"
      using that(1,5) I(6) set_update_subset_insert [of "po_Workers st" i w'] by auto
  qed (use that I in simp_all)
  from step show ?thesis
  proof (cases rule: pool_step.cases)
    case (event k)
    show ?thesis
      by (rule queue) (use event I D(2) [of k] in \<open>auto simp: busy_keys_def alone_def\<close>)
  next
    case (elapsed k)
    then have "k \<in> W" using PBW by simp
    then have "views Q (po_Queue st') = (if c then P else insert k P, B, W - {k}, c)"
      using elapsed D(7) by simp
    then show ?thesis
      by (rule queue) (use elapsed I in \<open>auto simp: busy_keys_def alone_def\<close>)
  next
    case (loop i)
    show ?thesis by (rule move [where i = i and w' = Ready and q = "po_Queue st"
          and s = "po_State st" and w = Between and P' = P and W' = W]) (use loop I v in auto)
  next
    case (exit i)
    show ?thesis by (rule move [where i = i and w' = Finished and q = "po_Queue st"
          and s = "po_State st" and w = Between and P' = P and W' = W]) (use exit I v in auto)
  next
    case (got i k q)
    then have g: "k \<in> P" "k \<notin> B" "views Q q = (P - {k}, insert k B, W, c)" using D(8) by blast+
    show ?thesis
      by (rule move [where i = i and w' = "Busy k" and q = q
          and s = "po_State st" and w = Ready and P' = "P - {k}" and W' = W]) (use got g I in auto)
  next
    case (quit i q f ops s)
    from workers [OF quit(5)] obtain process where "worker process f" ..
    then have "f None (po_State st) = (Some False, [], po_State st)" by (rule worker.quit)
    then have "ops = []" "s = po_State st" using quit(6) by simp_all
    moreover have "views Q q = (P, B, W, c)" using D(9) quit(4) by blast
    ultimately show ?thesis
      by (intro move [where i = i and w' = Between and q = q
          and s = "po_State st" and w = Ready and P' = P and W' = W]) (use quit I in auto)
  next
    case (handled i k f ops s)
    let ?q = "fold (queue_do Q) ops (po_Queue st)"
    from item_ops [OF handled(4,5)] consider "ops = [QForget k, QDone k]" | "ops = [QAddRateLimited k, QDone k]"
      by blast
    then show ?thesis
    proof cases
      case 1
      then have "views Q ?q = (P, B - {k}, W, c)"
        using queue_lawD(5) [OF law D(4) [of k], of k] by simp
      then show ?thesis by (intro move [where i = i and w' = Ready and q = ?q
          and s = s and w = "Busy k" and P' = P and W' = W]) (use handled I 1 in auto)
    next
      case 2
      then have "views Q ?q = (P, B - {k}, if c then W else insert k W, c)"
        using queue_lawD(5) [OF law D(3) [of k], of k] by simp
      then show ?thesis
        by (intro move [where i = i and w' = Ready and q = ?q
          and s = s and w = "Busy k" and P' = P and W' = "if c then W else insert k W"]) (use handled I 2 in auto)
    qed
  next
    case cancel
    show ?thesis
      by (rule queue) (use cancel I v in \<open>auto simp: busy_keys_def alone_def\<close>)
  next
    case returns
    show ?thesis
      by (rule queue) (use returns I D(6) in \<open>auto simp: busy_keys_def alone_def\<close>)
  qed
qed

lemma pool_inv_init: "queue_law Q \<Longrightarrow> pool_inv Q n [] (pool_init Q n s)"
  unfolding queue_law_def pool_inv_def pool_init_def views_def alone_def busy_keys_def by auto

lemma pool_inv_run:
  assumes "queue_law Q" "pool_run Q items (pool_init Q n s) ls st"
  shows "pool_inv Q n ls st"
  using assms(2)
proof (induction rule: pool_run.induct)
  case start
  show ?case by (rule pool_inv_init [OF assms(1)])
next
  case (step ls st l st')
  then show ?case using pool_inv_step [OF assms(1)] by blast
qed

section \<open>Progress\<close>

text \<open>Steps of the workers and of the rate limiter, without new events and without the end of the context.\<close>

definition own_step :: "'q queue_api \<Rightarrow> ('q, 's) pool \<Rightarrow> ('q, 's) pool \<Rightarrow> bool" where
  "own_step Q st st' \<longleftrightarrow>
     (\<exists>l. l \<notin> range Event \<union> {Cancel, Return} \<and> pool_step Q items st l st')"

lemma own_steps_run:
  assumes "(own_step Q)\<^sup>*\<^sup>* st st'" "pool_run Q items st0 ls st"
  shows "\<exists>ls'. set ls' \<inter> (range Event \<union> {Cancel, Return}) = {} \<and> pool_run Q items st0 (ls' @ ls) st'"
  using assms(1)
proof (induction rule: rtranclp_induct)
  case base
  then show ?case using assms(2) by (intro exI [of _ "[]"]) simp
next
  case (step st1 st2)
  then obtain ls' l where "set ls' \<inter> (range Event \<union> {Cancel, Return}) = {}" "pool_run Q items st0 (ls' @ ls) st1"
    "l \<notin> range Event \<union> {Cancel, Return}" "pool_step Q items st1 l st2"
    unfolding own_step_def by blast
  then show ?case by (intro exI [of _ "l # ls'"]) (auto intro: pool_run.step)
qed

text \<open>What progress needs of a state: the invariant, a context that is not done, and some worker.\<close>

definition active :: "'q queue_api \<Rightarrow> ('q, 's) pool \<Rightarrow> bool" where
  "active Q st \<longleftrightarrow> pool_inv Q (length (po_Workers st)) [] st \<and> \<not> po_CtxDone st \<and> po_Workers st \<noteq> []"

lemma own_step_active:
  assumes law: "queue_law Q" and "active Q st" "own_step Q st st'"
  shows "active Q st'"
proof -
  obtain l where l: "l \<notin> range Event \<union> {Cancel, Return}" "pool_step Q items st l st'"
    using assms(3) unfolding own_step_def by blast
  have "pool_inv Q (length (po_Workers st)) [l] st'"
    by (rule pool_inv_step [OF law _ l(2)]) (use assms(2) in \<open>simp add: active_def\<close>)
  then have inv: "pool_inv Q (length (po_Workers st)) [] st'"
    unfolding pool_inv_def by simp
  have "\<not> po_CtxDone st'" using l(2,1) assms(2) unfolding active_def by (cases rule: pool_step.cases) auto
  with inv assms(2) show ?thesis unfolding active_def pool_inv_def by force
qed

definition can_go_on :: bool where
  "can_go_on \<longleftrightarrow> (\<exists>f \<in> items. \<forall>k s. fst (f (Some k) s) = Some True)"

text \<open>Every busy worker can finish its key, which leaves what is pending and no worker busy.\<close>

lemma handle_one:
  assumes law: "queue_law Q" and "can_go_on" and act: "active Q st" and i: "is_at st i (Busy k)"
  obtains st' where "own_step Q st st'" "wq_Pending Q (po_Queue st') = wq_Pending Q (po_Queue st)"
    "po_Workers st' = (po_Workers st)[i := Ready]"
proof -
  obtain f where f: "f \<in> items" "fst (f (Some k) (po_State st)) = Some True"
    using assms(2) unfolding can_go_on_def by blast
  obtain ops s where eq: "f (Some k) (po_State st) = (Some True, ops, s)"
    using f(2) by (cases "f (Some k) (po_State st)") auto
  let ?st = "set_worker st i Ready\<lparr>po_Queue := fold (queue_do Q) ops (po_Queue st), po_State := s\<rparr>"
  obtain P B W c where v: "views Q (po_Queue st) = (P, B, W, c)" by (cases "views Q (po_Queue st)")
  have "\<exists>B' W'. views Q (po_Queue ?st) = (P, B', W', c)"
    using item_ops [OF f(1) eq] queue_lawD(5) [OF law queue_lawD(4) [OF law v, of k], of k]
      queue_lawD(5) [OF law queue_lawD(3) [OF law v, of k], of k] by auto
  then have "wq_Pending Q (po_Queue ?st) = wq_Pending Q (po_Queue st)" using v by (auto simp: views_def)
  moreover have "own_step Q st ?st"
    using pool_step.handled [OF i f(1) eq, of Q] unfolding own_step_def by blast
  ultimately show thesis using that by simp
qed

lemma filter_update_less:
  "i < length xs \<Longrightarrow> P (xs ! i) \<Longrightarrow> \<not> P x \<Longrightarrow> length (filter P (xs[i := x])) < length (filter P xs)"
proof (induction xs arbitrary: i)
  case (Cons y ys)
  then show ?case by (cases i) auto
qed simp

lemma all_idle:
  assumes law: "queue_law Q" and go: "can_go_on" and act: "active Q st"
  shows "\<exists>st'. (own_step Q)\<^sup>*\<^sup>* st st' \<and> active Q st' \<and> busy_keys st' = {}
    \<and> wq_Pending Q (po_Queue st') = wq_Pending Q (po_Queue st)"
  using act
proof (induction "length (filter (\<lambda>w. w \<noteq> Ready) (po_Workers st))" arbitrary: st rule: less_induct)
  case less
  show ?case
  proof (cases "busy_keys st = {}")
    case True
    then show ?thesis using less.prems by blast
  next
    case False
    then obtain i k where i: "is_at st i (Busy k)" using busy_keys_iff [of _ st] by blast
    obtain st1 where st1: "own_step Q st st1" "wq_Pending Q (po_Queue st1) = wq_Pending Q (po_Queue st)"
      "po_Workers st1 = (po_Workers st)[i := Ready]"
      by (rule handle_one [OF law go less.prems i])
    have "length (filter (\<lambda>w. w \<noteq> Ready) (po_Workers st1)) < length (filter (\<lambda>w. w \<noteq> Ready) (po_Workers st))"
      unfolding st1(3) by (rule filter_update_less) (use i in simp_all)
    from less.hyps [OF this own_step_active [OF law less.prems st1(1)]] obtain st' where
      "(own_step Q)\<^sup>*\<^sup>* st1 st'" "active Q st'" "busy_keys st' = {}"
      "wq_Pending Q (po_Queue st') = wq_Pending Q (po_Queue st1)" by blast
    then show ?thesis using st1(1,2) converse_rtranclp_into_rtranclp [of "own_step Q" st st1 st'] by metis
  qed
qed

text \<open>With no worker busy, one worker after the other key reaches the key it waits for.\<close>

lemma drain:
  assumes law: "queue_law Q" and go: "can_go_on"
  shows "active Q st \<Longrightarrow> busy_keys st = {} \<Longrightarrow> is_at st i Ready \<Longrightarrow> k \<in> wq_Pending Q (po_Queue st) \<Longrightarrow>
    \<exists>st1 st'. (own_step Q)\<^sup>*\<^sup>* st st1 \<and> pool_step Q items st1 (Got i k) st'"
proof (induction "card (wq_Pending Q (po_Queue st))" arbitrary: st rule: less_induct)
  case less
  let ?q = "po_Queue st"
  obtain P B W c where v: "views Q ?q = (P, B, W, c)" by (cases "views Q ?q")
  note D = queue_lawD [OF law v]
  have P: "P = wq_Pending Q ?q" and "B = wq_Processing Q ?q" using v by (simp_all add: views_def)
  then have B: "B = {}" using less.prems(1,2) unfolding active_def pool_inv_def by simp
  then have "\<not> P \<subseteq> B" using less.prems(4) P by blast
  then obtain k' q where get: "wq_Get Q ?q = Some (Some k', q)"
    using D(9,10) by (cases "wq_Get Q ?q") (auto, metis option.exhaust)
  note got = pool_step.got [OF less.prems(3) get, of items]
  let ?st1 = "set_worker st i (Busy k')\<lparr>po_Queue := q\<rparr>"
  show ?case
  proof (cases "k' = k")
    case True
    then show ?thesis using got by blast
  next
    case False
    have q: "k' \<in> P" "views Q q = (P - {k'}, insert k' B, W, c)" using D(8) [OF get] by blast+
    have own: "own_step Q st ?st1" using got unfolding own_step_def by blast
    have at: "is_at ?st1 i (Busy k')" using less.prems(3) by simp
    have act1: "active Q ?st1" by (rule own_step_active [OF law less.prems(1) own])
    obtain st2 where st2: "own_step Q ?st1 st2" "wq_Pending Q (po_Queue st2) = wq_Pending Q (po_Queue ?st1)"
      "po_Workers st2 = (po_Workers ?st1)[i := Ready]"
      by (rule handle_one [OF law go act1 at])
    have act2: "active Q st2" by (rule own_step_active [OF law act1 st2(1)])
    have pend: "wq_Pending Q (po_Queue st2) = P - {k'}" using st2(2) q(2) by (simp add: views_def)
    have "po_Workers st2 = po_Workers st"
      using st2(3) less.prems(3) list_update_id [of "po_Workers st" i] by simp
    then have idle: "busy_keys st2 = {}" "is_at st2 i Ready" using less.prems(2,3) by (simp_all add: busy_keys_def)
    have "card (wq_Pending Q (po_Queue st2)) < card (wq_Pending Q ?q)"
      unfolding pend P [symmetric] by (rule card_Diff1_less [OF D(1) q(1)])
    from less.hyps [OF this act2 idle] obtain st3 st' where
      "(own_step Q)\<^sup>*\<^sup>* st2 st3" "pool_step Q items st3 (Got i k) st'"
      using pend less.prems(4) P False by blast
    moreover have "(own_step Q)\<^sup>*\<^sup>* st st2" using own st2(1) by (meson r_into_rtranclp rtranclp.rtrancl_into_rtrancl)
    ultimately show ?thesis by (meson rtranclp_trans)
  qed
qed

lemma owed_key_reachable:
  assumes law: "queue_law Q" and go: "can_go_on" and run: "pool_run Q items (pool_init Q n s) ls st"
    and n: "n \<noteq> 0" and ctx: "\<not> po_CtxDone st" and k: "k \<in> owed ls"
  shows "\<exists>ls' i st'. set ls' \<inter> (range Event \<union> {Cancel, Return}) = {}
    \<and> pool_run Q items (pool_init Q n s) (Got i k # ls' @ ls) st'"
proof -
  have inv: "pool_inv Q n ls st" by (rule pool_inv_run [OF law run])
  then have act: "active Q st" using n ctx unfolding active_def pool_inv_def by auto
  have open': "\<not> wq_Closed Q (po_Queue st)" and "k \<in> wq_Pending Q (po_Queue st) \<union> wq_Waiting Q (po_Queue st)"
    using inv ctx k unfolding pool_inv_def by auto
  then obtain st1 where st1: "(own_step Q)\<^sup>*\<^sup>* st st1" "active Q st1" "k \<in> wq_Pending Q (po_Queue st1)"
  proof (cases "k \<in> wq_Pending Q (po_Queue st)")
    case True
    then show thesis using that act by blast
  next
    case False
    let ?st = "st\<lparr>po_Queue := wq_Elapsed Q k (po_Queue st)\<rparr>"
    from False have W: "k \<in> wq_Waiting Q (po_Queue st)" using \<open>k \<in> _ \<union> _\<close> by blast
    obtain P B W c where v: "views Q (po_Queue st) = (P, B, W, c)" by (cases "views Q (po_Queue st)")
    have own: "own_step Q st ?st" using pool_step.elapsed [OF W] unfolding own_step_def by blast
    moreover have "k \<in> wq_Pending Q (po_Queue ?st)"
      using queue_lawD(7) [OF law v, of k] v W open' by (simp add: views_def)
    ultimately show thesis using that own_step_active [OF law act own] by blast
  qed
  obtain st2 where st2: "(own_step Q)\<^sup>*\<^sup>* st1 st2" "active Q st2" "busy_keys st2 = {}"
    "k \<in> wq_Pending Q (po_Queue st2)"
    using all_idle [OF law go st1(2)] st1(3) by blast
  obtain st3 i where st3: "(own_step Q)\<^sup>*\<^sup>* st2 st3" "active Q st3" "busy_keys st3 = {}" "is_at st3 i Ready"
    "k \<in> wq_Pending Q (po_Queue st3)"
  proof (cases "po_Workers st2 ! 0")
    case Between
    have at: "is_at st2 0 Between" using Between st2(2) unfolding active_def by simp
    have own: "own_step Q st2 (set_worker st2 0 Ready)"
      using pool_step.loop [OF at] st2(2) unfolding own_step_def active_def by blast
    have alone: "alone st2" using st2(2) unfolding active_def pool_inv_def by blast
    show thesis
      by (rule that [OF r_into_rtranclp [of "own_step Q"], OF own own_step_active [OF law st2(2) own], of 0])
        (use at st2(3,4) busy_keys_upd [OF at alone, of Ready] in simp_all)
  next
    case Ready
    then show thesis using that [of st2 0] st2 unfolding active_def by simp
  next
    case (Busy k')
    then have "is_at st2 0 (Busy k')" using st2(2) unfolding active_def by simp
    then show thesis using st2(3) busy_keys_iff [of k' st2] by blast
  next
    case Finished
    then have "Finished \<in> set (po_Workers st2)" using st2(2) nth_mem [of 0 "po_Workers st2"]
      unfolding active_def by auto
    then show thesis using st2(2) unfolding active_def pool_inv_def by blast
  qed
  obtain st4 st' where "(own_step Q)\<^sup>*\<^sup>* st3 st4" "pool_step Q items st4 (Got i k) st'"
    using drain [OF law go st3(2,3,4,5)] by blast
  moreover have "(own_step Q)\<^sup>*\<^sup>* st st3" using st1(1) st2(1) st3(1) by simp
  ultimately have "(own_step Q)\<^sup>*\<^sup>* st st4" by simp
  then show ?thesis using own_steps_run [OF _ run] pool_run.step [OF _ \<open>pool_step Q items st4 (Got i k) st'\<close>]
    by blast
qed

end
end
