(* ===== verification/Slice_Workers.thy ===== *)
theory Slice_Workers
  imports Worker_Pool Endpoint_Slice
begin

text \<open>
  \<open>Start\<close> of the endpoint slice controller, which the registry runs with two workers: the pool of
  \<open>Worker_Pool\<close> with the controller's own \<open>processNextWorkItem\<close>. The informers and the commits
  of other components change while the workers run, so every item may see another environment.
\<close>

definition es_items :: "commits next_item set" where
  "es_items = range es_processNextWorkItem"

definition es_Start ::
    "'q queue_api \<Rightarrow> nat \<Rightarrow> commits \<Rightarrow> pool_label list \<Rightarrow> ('q, commits) pool \<Rightarrow> bool" where
  "es_Start Q numThreads st0 = pool_run Q es_items (pool_init Q numThreads st0)"

text \<open>The \<open>Runner\<close> that the registry stores for the controller.\<close>

definition slice_Runner ::
    "'q queue_api \<Rightarrow> commits \<Rightarrow> pool_label list \<Rightarrow> ('q, commits) pool \<Rightarrow> bool" where
  "slice_Runner Q = es_Start Q 2"

interpretation slice_pool: worker_pool es_items
proof unfold_locales
  show "\<exists>process. worker process f" if "f \<in> es_items" for f
    using that es_worker.worker_axioms unfolding es_items_def by blast
qed

lemma es_items_go_on: "slice_pool.can_go_on"
proof -
  have "fst (es_processNextWorkItem env (Some k) s) = Some True" for env k s
    using es_process_no_panic es_worker.goes_on_iff by blast
  then show ?thesis unfolding slice_pool.can_go_on_def unfolding es_items_def by blast
qed

section \<open>A queue\<close>

text \<open>A queue of lists that keeps the law.\<close>

record list_queue =
  lq_Pending :: "string list"
  lq_Processing :: "string list"
  lq_Waiting :: "string list"
  lq_Closed :: bool

definition lq_Add :: "string \<Rightarrow> list_queue \<Rightarrow> list_queue" where
  "lq_Add k q = (if lq_Closed q \<or> k \<in> set (lq_Pending q) then q else q\<lparr>lq_Pending := lq_Pending q @ [k]\<rparr>)"

definition lq_Get :: "list_queue \<Rightarrow> (string option \<times> list_queue) option" where
  "lq_Get q =
     (case find (\<lambda>k. k \<notin> set (lq_Processing q)) (lq_Pending q) of
        None \<Rightarrow> if lq_Closed q then Some (None, q) else None
      | Some k \<Rightarrow> Some (Some k, q\<lparr>lq_Pending := removeAll k (lq_Pending q),
                                lq_Processing := k # lq_Processing q\<rparr>))"

definition list_queue_api :: "list_queue queue_api" where
  "list_queue_api =
     \<lparr>wq_New = \<lparr>lq_Pending = [], lq_Processing = [], lq_Waiting = [], lq_Closed = False\<rparr>,
      wq_Add = lq_Add,
      wq_AddRateLimited = (\<lambda>k q. if lq_Closed q then q else q\<lparr>lq_Waiting := k # lq_Waiting q\<rparr>),
      wq_Forget = (\<lambda>k q. q),
      wq_Done = (\<lambda>k q. q\<lparr>lq_Processing := removeAll k (lq_Processing q)\<rparr>),
      wq_ShutDown = (\<lambda>q. q\<lparr>lq_Closed := True\<rparr>),
      wq_Get = lq_Get,
      wq_Elapsed = (\<lambda>k q. lq_Add k (q\<lparr>lq_Waiting := removeAll k (lq_Waiting q)\<rparr>)),
      wq_Pending = (\<lambda>q. set (lq_Pending q)),
      wq_Processing = (\<lambda>q. set (lq_Processing q)),
      wq_Waiting = (\<lambda>q. set (lq_Waiting q)),
      wq_Closed = lq_Closed\<rparr>"

lemma list_views:
  "views list_queue_api q = (set (lq_Pending q), set (lq_Processing q), set (lq_Waiting q), lq_Closed q)"
  by (simp add: views_def list_queue_api_def)

lemma list_queue_get:
  "case wq_Get list_queue_api q of
     None \<Rightarrow> set (lq_Pending q) \<subseteq> set (lq_Processing q) \<and> \<not> lq_Closed q
   | Some (None, q') \<Rightarrow> set (lq_Pending q) \<subseteq> set (lq_Processing q) \<and> lq_Closed q \<and> q' = q
   | Some (Some k', q') \<Rightarrow> k' \<in> set (lq_Pending q) \<and> k' \<notin> set (lq_Processing q)
       \<and> views list_queue_api q' = (set (lq_Pending q) - {k'}, insert k' (set (lq_Processing q)),
           set (lq_Waiting q), lq_Closed q)"
proof -
  have found: "find P xs = Some x \<Longrightarrow> x \<in> set xs \<and> P x" for P and x :: string and xs
    by (auto simp: find_Some_iff)
  show ?thesis
    unfolding list_views
    by (auto simp: list_queue_api_def lq_Get_def find_None_iff dest!: found split: option.split)
qed

lemma lq_Add_views [simp]:
  "set (lq_Pending (lq_Add k q)) = (if lq_Closed q then set (lq_Pending q) else insert k (set (lq_Pending q)))"
  "lq_Processing (lq_Add k q) = lq_Processing q" "lq_Waiting (lq_Add k q) = lq_Waiting q"
  "lq_Closed (lq_Add k q) = lq_Closed q"
  by (auto simp: lq_Add_def)

lemma list_queue_law: "queue_law list_queue_api"
proof -
  have get: "case wq_Get list_queue_api q of
      None \<Rightarrow> P \<subseteq> B \<and> \<not> c
    | Some (None, q') \<Rightarrow> P \<subseteq> B \<and> c \<and> views list_queue_api q' = (P, B, W, c)
    | Some (Some k', q') \<Rightarrow> k' \<in> P \<and> k' \<notin> B \<and> views list_queue_api q' = (P - {k'}, insert k' B, W, c)"
    if "views list_queue_api q = (P, B, W, c)" for q P B W c
    using list_queue_get [of q] that by (auto simp: list_views split: option.splits)
  show ?thesis
    unfolding queue_law_def
    by (intro conjI allI impI; (rule get, assumption)?)
      (auto simp: list_views, auto simp: list_queue_api_def)
qed

section \<open>Properties\<close>

text \<open>One event and the first worker taking its key, as an instance.\<close>

definition w_pool :: "(list_queue, commits) pool" where
  "w_pool = pool_init list_queue_api 2 []"

lemma w_event: "es_Start list_queue_api 2 [] [Event ''a''] (w_pool\<lparr>po_Queue := lq_Add ''a'' (wq_New list_queue_api)\<rparr>)"
  using pool_run.step [OF pool_run.start pool_step.event, of list_queue_api es_items w_pool "''a''"]
  by (simp add: es_Start_def w_pool_def pool_init_def list_queue_api_def)

lemma w_got:
  "\<exists>st. es_Start list_queue_api 2 [] [Got 0 ''a'', Loop 0, Event ''a''] st \<and> is_at st 0 (Busy ''a'')"
proof -
  let ?st1 = "w_pool\<lparr>po_Queue := lq_Add ''a'' (wq_New list_queue_api)\<rparr>"
  have at: "is_at ?st1 0 Between" "\<not> po_CtxDone ?st1" by (simp_all add: w_pool_def pool_init_def)
  let ?st2 = "set_worker ?st1 0 Ready"
  have ready: "is_at ?st2 0 Ready" using at(1) by simp
  have "wq_Get list_queue_api (po_Queue ?st2) = Some (Some ''a'',
      \<lparr>lq_Pending = [], lq_Processing = [''a''], lq_Waiting = [], lq_Closed = False\<rparr>)"
    by (simp add: list_queue_api_def lq_Get_def lq_Add_def)
  note got = pool_step.got [OF ready this, of es_items]
  have "es_Start list_queue_api 2 [] [Got 0 ''a'', Loop 0, Event ''a'']
      (set_worker ?st2 0 (Busy ''a'')\<lparr>po_Queue :=
        \<lparr>lq_Pending = [], lq_Processing = [''a''], lq_Waiting = [], lq_Closed = False\<rparr>\<rparr>)"
    unfolding es_Start_def
    by (rule pool_run.step [OF pool_run.step [OF w_event [unfolded es_Start_def] pool_step.loop [OF at]] got])
  moreover have "is_at (set_worker ?st2 0 (Busy ''a'')\<lparr>po_Queue :=
        \<lparr>lq_Pending = [], lq_Processing = [''a''], lq_Waiting = [], lq_Closed = False\<rparr>\<rparr>) 0 (Busy ''a'')"
    using at(1) by simp
  ultimately show ?thesis by blast
qed

text \<open>
  C30: However events, delays and the workers of the endpoint slice controller interleave, no
  two workers process the same key at a time, and the keys the queue counts as being processed
  are exactly those the workers hold, never more than there are workers.
\<close>

theorem slice_processed_once_at_a_time:
  assumes law: "queue_law Q" and run: "es_Start Q numThreads st0 ls st"
    and busy: "is_at st i (Busy k)" "is_at st j (Busy k)"
  shows "i = j \<and> wq_Processing Q (po_Queue st) = busy_keys st \<and> card (busy_keys st) \<le> numThreads"
proof -
  have inv: "pool_inv Q numThreads ls st"
    using slice_pool.pool_inv_run [OF law] run unfolding es_Start_def by blast
  have "card (busy_keys st) \<le> length (po_Workers st)" by (rule card_busy_keys)
  then show ?thesis using inv busy unfolding pool_inv_def alone_def by blast
qed

theorem slice_processed_once_at_a_time_witness:
  "\<exists>st. es_Start list_queue_api 2 [] [Got 0 ''a'', Loop 0, Event ''a''] st \<and> is_at st 0 (Busy ''a'')
    \<and> wq_Processing list_queue_api (po_Queue st) = busy_keys st"
proof -
  obtain st where st: "es_Start list_queue_api 2 [] [Got 0 ''a'', Loop 0, Event ''a''] st" "is_at st 0 (Busy ''a'')"
    using w_got by blast
  then show ?thesis using slice_processed_once_at_a_time [OF list_queue_law st(1) st(2) st(2)] by blast
qed

text \<open>
  C29: No event of a slice is lost: from any state of the two workers, the queue and the rest
  of the world that a run can reach while the context is not done, a key for which an event
  was seen, or whose processing failed, since it was last handed out, can be handed to a
  worker by steps of the workers and of the rate limiter alone.
\<close>

theorem slice_event_reaches_worker:
  assumes law: "queue_law Q" and run: "es_Start Q numThreads st0 ls st"
    and n: "numThreads \<noteq> 0" and ctx: "\<not> po_CtxDone st" and k: "k \<in> owed ls"
  shows "\<exists>ls' i st'. set ls' \<inter> (range Event \<union> {Cancel, Return}) = {}
    \<and> es_Start Q numThreads st0 (Got i k # ls' @ ls) st'"
  using slice_pool.owed_key_reachable [OF law es_items_go_on run [unfolded es_Start_def] n ctx k]
  unfolding es_Start_def .

theorem slice_event_reaches_worker_witness:
  "\<exists>ls' i st'. es_Start list_queue_api 2 [] (Got i ''a'' # ls' @ [Event ''a'']) st'"
proof -
  have "\<not> po_CtxDone (w_pool\<lparr>po_Queue := lq_Add ''a'' (wq_New list_queue_api)\<rparr>)"
    by (simp add: w_pool_def pool_init_def)
  from slice_event_reaches_worker [OF list_queue_law w_event _ this, of "''a''"] show ?thesis by auto
qed

end
