(* ===== verification/Apply_Configuration.thy ===== *)
theory Apply_Configuration
  imports Api_Types
begin

text \<open>
  The apply configurations of \<open>sdk/client/applyconfiguration\<close>: builders whose \<open>With\<close> functions
  set fields of the receiver and return it. A pointer to a scalar is an option; pointers to other
  builders (\<open>WithSpec\<close>, \<open>WithStatus\<close>, \<open>WithAPIExport\<close>, \<open>WithObjectSelector\<close> keep the pointer they
  are given) are addresses. A nil map is \<open>None\<close>; a nil slice and an empty
  one are both \<open>[]\<close>. Owner references and timestamps are values that are only stored: type
  parameters. A \<open>With\<close> function that panics leaves the
  receiver as far as it got. Ranging over the entries of a map is in any order.
\<close>

section \<open>The builders\<close>

record type_meta =
  tm_Kind :: "string option"
  tm_APIVersion :: "string option"

record ('o, 't) ObjectMetaApplyConfiguration =
  am_Name :: "string option"
  am_GenerateName :: "string option"
  am_Namespace :: "string option"
  am_UID :: "string option"
  am_ResourceVersion :: "string option"
  am_Generation :: "int option"
  am_CreationTimestamp :: "'t option"
  am_DeletionTimestamp :: "'t option"
  am_DeletionGracePeriodSeconds :: "int option"
  am_Labels :: "(string \<rightharpoonup> string) option"
  am_Annotations :: "(string \<rightharpoonup> string) option"
  am_OwnerReferences :: "'o list"
  am_Finalizers :: "string list"

definition no_meta :: "('o, 't) ObjectMetaApplyConfiguration" where
  "no_meta = \<lparr>am_Name = None, am_GenerateName = None, am_Namespace = None, am_UID = None,
     am_ResourceVersion = None, am_Generation = None, am_CreationTimestamp = None,
     am_DeletionTimestamp = None, am_DeletionGracePeriodSeconds = None, am_Labels = None,
     am_Annotations = None, am_OwnerReferences = [], am_Finalizers = []\<rparr>"

record ('o, 't) SliceApplyConfiguration =
  ac_TypeMeta :: type_meta
  ac_ObjectMeta :: "('o, 't) ObjectMetaApplyConfiguration option"
  ac_Spec :: "nat option"
  ac_Status :: "nat option"

definition new_configuration :: "('o, 't) SliceApplyConfiguration" where
  "new_configuration = \<lparr>ac_TypeMeta = \<lparr>tm_Kind = None, tm_APIVersion = None\<rparr>, ac_ObjectMeta = None,
     ac_Spec = None, ac_Status = None\<rparr>"

definition WithKind :: "string \<Rightarrow> ('o, 't) SliceApplyConfiguration \<Rightarrow> ('o, 't) SliceApplyConfiguration" where
  "WithKind v b = b\<lparr>ac_TypeMeta := (ac_TypeMeta b)\<lparr>tm_Kind := Some v\<rparr>\<rparr>"

definition WithAPIVersion :: "string \<Rightarrow> ('o, 't) SliceApplyConfiguration \<Rightarrow> ('o, 't) SliceApplyConfiguration" where
  "WithAPIVersion v b = b\<lparr>ac_TypeMeta := (ac_TypeMeta b)\<lparr>tm_APIVersion := Some v\<rparr>\<rparr>"

definition ensureObjectMetaApplyConfigurationExists :: "('o, 't) SliceApplyConfiguration \<Rightarrow> ('o, 't) SliceApplyConfiguration" where
  "ensureObjectMetaApplyConfigurationExists b =
     (if ac_ObjectMeta b = None then b\<lparr>ac_ObjectMeta := Some no_meta\<rparr> else b)"

text \<open>A write through the pointer to the embedded metadata, once it exists.\<close>

definition on_meta ::
    "(('o, 't) ObjectMetaApplyConfiguration \<Rightarrow> ('o, 't) ObjectMetaApplyConfiguration) \<Rightarrow> ('o, 't) SliceApplyConfiguration
      \<Rightarrow> ('o, 't) SliceApplyConfiguration" where
  "on_meta f b =
     (let b' = ensureObjectMetaApplyConfigurationExists b
      in b'\<lparr>ac_ObjectMeta := map_option f (ac_ObjectMeta b')\<rparr>)"

definition WithName :: "string \<Rightarrow> ('o, 't) SliceApplyConfiguration \<Rightarrow> ('o, 't) SliceApplyConfiguration" where
  "WithName v = on_meta (\<lambda>m. m\<lparr>am_Name := Some v\<rparr>)"

definition WithGenerateName :: "string \<Rightarrow> ('o, 't) SliceApplyConfiguration \<Rightarrow> ('o, 't) SliceApplyConfiguration" where
  "WithGenerateName v = on_meta (\<lambda>m. m\<lparr>am_GenerateName := Some v\<rparr>)"

definition apply_WithNamespace :: "string \<Rightarrow> ('o, 't) SliceApplyConfiguration \<Rightarrow> ('o, 't) SliceApplyConfiguration" where
  "apply_WithNamespace v = on_meta (\<lambda>m. m\<lparr>am_Namespace := Some v\<rparr>)"

definition WithUID :: "string \<Rightarrow> ('o, 't) SliceApplyConfiguration \<Rightarrow> ('o, 't) SliceApplyConfiguration" where
  "WithUID v = on_meta (\<lambda>m. m\<lparr>am_UID := Some v\<rparr>)"

definition WithResourceVersion :: "string \<Rightarrow> ('o, 't) SliceApplyConfiguration \<Rightarrow> ('o, 't) SliceApplyConfiguration" where
  "WithResourceVersion v = on_meta (\<lambda>m. m\<lparr>am_ResourceVersion := Some v\<rparr>)"

definition WithGeneration :: "int \<Rightarrow> ('o, 't) SliceApplyConfiguration \<Rightarrow> ('o, 't) SliceApplyConfiguration" where
  "WithGeneration v = on_meta (\<lambda>m. m\<lparr>am_Generation := Some v\<rparr>)"

definition WithCreationTimestamp :: "'t \<Rightarrow> ('o, 't) SliceApplyConfiguration \<Rightarrow> ('o, 't) SliceApplyConfiguration" where
  "WithCreationTimestamp v = on_meta (\<lambda>m. m\<lparr>am_CreationTimestamp := Some v\<rparr>)"

definition WithDeletionTimestamp :: "'t \<Rightarrow> ('o, 't) SliceApplyConfiguration \<Rightarrow> ('o, 't) SliceApplyConfiguration" where
  "WithDeletionTimestamp v = on_meta (\<lambda>m. m\<lparr>am_DeletionTimestamp := Some v\<rparr>)"

definition WithDeletionGracePeriodSeconds :: "int \<Rightarrow> ('o, 't) SliceApplyConfiguration \<Rightarrow> ('o, 't) SliceApplyConfiguration" where
  "WithDeletionGracePeriodSeconds v = on_meta (\<lambda>m. m\<lparr>am_DeletionGracePeriodSeconds := Some v\<rparr>)"

text \<open>
  Putting the entries of a map into another one, which is made when it is nil and there is an
  entry to put; \<open>None\<close> is the panic of a write to a nil map.
\<close>

fun put_entries ::
    "(string \<rightharpoonup> string) \<Rightarrow> string list \<Rightarrow> (string \<rightharpoonup> string) option \<Rightarrow> (string \<rightharpoonup> string) option option" where
  "put_entries entries [] m = Some m"
| "put_entries entries (k # ks) m =
     (case entries k of
        None \<Rightarrow> put_entries entries ks m
      | Some v \<Rightarrow> (case m of None \<Rightarrow> None | Some m' \<Rightarrow> put_entries entries ks (Some (m'(k \<mapsto> v)))))"

definition add_entries ::
    "(string \<rightharpoonup> string) \<Rightarrow> string list \<Rightarrow> (string \<rightharpoonup> string) option \<Rightarrow> (string \<rightharpoonup> string) option option" where
  "add_entries entries ks m =
     (let m' = (if m = None \<and> length ks > 0 then Some Map.empty else m) in put_entries entries ks m')"

definition WithLabels ::
    "(string \<rightharpoonup> string) \<Rightarrow> string list \<Rightarrow> ('o, 't) SliceApplyConfiguration \<Rightarrow> ('o, 't) SliceApplyConfiguration option" where
  "WithLabels entries ks b =
     (let b' = ensureObjectMetaApplyConfigurationExists b in
      case add_entries entries ks (am_Labels (the (ac_ObjectMeta b'))) of
        None \<Rightarrow> None
      | Some ls \<Rightarrow> Some (b'\<lparr>ac_ObjectMeta := map_option (\<lambda>m. m\<lparr>am_Labels := ls\<rparr>) (ac_ObjectMeta b')\<rparr>))"

definition WithAnnotations ::
    "(string \<rightharpoonup> string) \<Rightarrow> string list \<Rightarrow> ('o, 't) SliceApplyConfiguration \<Rightarrow> ('o, 't) SliceApplyConfiguration option" where
  "WithAnnotations entries ks b =
     (let b' = ensureObjectMetaApplyConfigurationExists b in
      case add_entries entries ks (am_Annotations (the (ac_ObjectMeta b'))) of
        None \<Rightarrow> None
      | Some as \<Rightarrow> Some (b'\<lparr>ac_ObjectMeta := map_option (\<lambda>m. m\<lparr>am_Annotations := as\<rparr>) (ac_ObjectMeta b')\<rparr>))"

text \<open>Appending dereferenced values: \<open>False\<close> is the panic on the first nil pointer.\<close>

fun append_values :: "'a option list \<Rightarrow> 'a list \<Rightarrow> bool \<times> 'a list" where
  "append_values [] acc = (True, acc)"
| "append_values (None # vs) acc = (False, acc)"
| "append_values (Some v # vs) acc = append_values vs (acc @ [v])"

definition WithOwnerReferences ::
    "'o option list \<Rightarrow> ('o, 't) SliceApplyConfiguration \<Rightarrow> bool \<times> ('o, 't) SliceApplyConfiguration" where
  "WithOwnerReferences vs b =
     (let b' = ensureObjectMetaApplyConfigurationExists b in
      case append_values vs (am_OwnerReferences (the (ac_ObjectMeta b'))) of
        (ok, refs) \<Rightarrow>
          (ok, b'\<lparr>ac_ObjectMeta := map_option (\<lambda>m. m\<lparr>am_OwnerReferences := refs\<rparr>) (ac_ObjectMeta b')\<rparr>))"

definition WithFinalizers :: "string list \<Rightarrow> ('o, 't) SliceApplyConfiguration \<Rightarrow> ('o, 't) SliceApplyConfiguration" where
  "WithFinalizers vs = on_meta (\<lambda>m. foldl (\<lambda>m v. m\<lparr>am_Finalizers := am_Finalizers m @ [v]\<rparr>) m vs)"

definition WithSpec :: "nat option \<Rightarrow> ('o, 't) SliceApplyConfiguration \<Rightarrow> ('o, 't) SliceApplyConfiguration" where
  "WithSpec value b = b\<lparr>ac_Spec := value\<rparr>"

definition WithStatus :: "nat option \<Rightarrow> ('o, 't) SliceApplyConfiguration \<Rightarrow> ('o, 't) SliceApplyConfiguration" where
  "WithStatus value b = b\<lparr>ac_Status := value\<rparr>"

definition GetKind :: "('o, 't) SliceApplyConfiguration \<Rightarrow> string option" where
  "GetKind b = tm_Kind (ac_TypeMeta b)"

definition GetAPIVersion :: "('o, 't) SliceApplyConfiguration \<Rightarrow> string option" where
  "GetAPIVersion b = tm_APIVersion (ac_TypeMeta b)"

text \<open>These two create the metadata of the receiver when it has none.\<close>

definition GetName :: "('o, 't) SliceApplyConfiguration \<Rightarrow> string option \<times> ('o, 't) SliceApplyConfiguration" where
  "GetName b = (let b' = ensureObjectMetaApplyConfigurationExists b in (am_Name (the (ac_ObjectMeta b')), b'))"

definition GetNamespace :: "('o, 't) SliceApplyConfiguration \<Rightarrow> string option \<times> ('o, 't) SliceApplyConfiguration" where
  "GetNamespace b =
     (let b' = ensureObjectMetaApplyConfigurationExists b in (am_Namespace (the (ac_ObjectMeta b')), b'))"

definition apply_FilteredAPIExportEndpointSlice :: "string \<Rightarrow> ('o, 't) SliceApplyConfiguration" where
  "apply_FilteredAPIExportEndpointSlice name =
     (let b = WithName name new_configuration;
          b = WithKind ''FilteredAPIExportEndpointSlice'' b
      in WithAPIVersion ''filteredvw.kcp.io/v1alpha1'' b)"

section \<open>The parts of a slice\<close>

record ReferenceApplyConfiguration =
  ar_Path :: "string option"
  ar_Name :: "string option"

definition apply_ExportBindingReference :: ReferenceApplyConfiguration where
  "apply_ExportBindingReference = \<lparr>ar_Path = None, ar_Name = None\<rparr>"

definition reference_WithPath :: "string \<Rightarrow> ReferenceApplyConfiguration \<Rightarrow> ReferenceApplyConfiguration" where
  "reference_WithPath v b = b\<lparr>ar_Path := Some v\<rparr>"

definition reference_WithName :: "string \<Rightarrow> ReferenceApplyConfiguration \<Rightarrow> ReferenceApplyConfiguration" where
  "reference_WithName v b = b\<lparr>ar_Name := Some v\<rparr>"

record SpecApplyConfiguration =
  ap_APIExport :: "nat option"
  ap_ObjectSelector :: "nat option"

definition apply_FilteredAPIExportEndpointSliceSpec :: SpecApplyConfiguration where
  "apply_FilteredAPIExportEndpointSliceSpec = \<lparr>ap_APIExport = None, ap_ObjectSelector = None\<rparr>"

definition WithAPIExport :: "nat option \<Rightarrow> SpecApplyConfiguration \<Rightarrow> SpecApplyConfiguration" where
  "WithAPIExport value b = b\<lparr>ap_APIExport := value\<rparr>"

definition WithObjectSelector :: "nat option \<Rightarrow> SpecApplyConfiguration \<Rightarrow> SpecApplyConfiguration" where
  "WithObjectSelector value b = b\<lparr>ap_ObjectSelector := value\<rparr>"

record StatusApplyConfiguration =
  at_Conditions :: "condition list option"

definition apply_FilteredAPIExportEndpointSliceStatus :: StatusApplyConfiguration where
  "apply_FilteredAPIExportEndpointSliceStatus = \<lparr>at_Conditions = None\<rparr>"

definition WithConditions :: "condition list \<Rightarrow> StatusApplyConfiguration \<Rightarrow> StatusApplyConfiguration" where
  "WithConditions value b = b\<lparr>at_Conditions := Some value\<rparr>"

record 'e SelectorApplyConfiguration =
  as_MatchLabels :: "(string \<rightharpoonup> string) option"
  as_MatchExpressions :: "'e list"

definition apply_FilteredAPIExportObjectSelector :: "'e SelectorApplyConfiguration" where
  "apply_FilteredAPIExportObjectSelector = \<lparr>as_MatchLabels = None, as_MatchExpressions = []\<rparr>"

definition WithMatchLabels ::
    "(string \<rightharpoonup> string) \<Rightarrow> string list \<Rightarrow> 'e SelectorApplyConfiguration \<Rightarrow> 'e SelectorApplyConfiguration option"
  where
  "WithMatchLabels entries ks b =
     (case add_entries entries ks (as_MatchLabels b) of
        None \<Rightarrow> None
      | Some ls \<Rightarrow> Some (b\<lparr>as_MatchLabels := ls\<rparr>))"

definition WithMatchExpressions ::
    "'e option list \<Rightarrow> 'e SelectorApplyConfiguration \<Rightarrow> bool \<times> 'e SelectorApplyConfiguration" where
  "WithMatchExpressions vs b =
     (case append_values vs (as_MatchExpressions b) of (ok, es) \<Rightarrow> (ok, b\<lparr>as_MatchExpressions := es\<rparr>))"

section \<open>The table of kinds and the parser\<close>

datatype apply_type =
    Apply_ExportBindingReference
  | Apply_FilteredAPIExportEndpointSlice
  | Apply_FilteredAPIExportEndpointSliceSpec
  | Apply_FilteredAPIExportEndpointSliceStatus
  | Apply_FilteredAPIExportObjectSelector

record group_version_kind =
  gvk_Group :: string
  gvk_Version :: string
  gvk_Kind :: string

definition WithKind_gv :: "string \<Rightarrow> group_version_kind" where
  "WithKind_gv kind = \<lparr>gvk_Group = GroupName, gvk_Version = GroupVersion, gvk_Kind = kind\<rparr>"

definition ForKind :: "group_version_kind \<Rightarrow> apply_type option" where
  "ForKind kind =
     (if kind = WithKind_gv ''ExportBindingReference'' then Some Apply_ExportBindingReference
      else if kind = WithKind_gv ''FilteredAPIExportEndpointSlice''
      then Some Apply_FilteredAPIExportEndpointSlice
      else if kind = WithKind_gv ''FilteredAPIExportEndpointSliceSpec''
      then Some Apply_FilteredAPIExportEndpointSliceSpec
      else if kind = WithKind_gv ''FilteredAPIExportEndpointSliceStatus''
      then Some Apply_FilteredAPIExportEndpointSliceStatus
      else if kind = WithKind_gv ''FilteredAPIExportObjectSelector''
      then Some Apply_FilteredAPIExportObjectSelector
      else None)"

text \<open>
  \<open>Parser\<close>: the first call parses the schema; \<open>sync.Once\<close> counts a call that panicked as done.
  The outer option of the result is \<open>None\<close> for a panic, the inner one is the parser pointer.
\<close>

record 'p parser_state =
  ps_Done :: bool
  ps_Parser :: "'p option"

definition Parser :: "go_error + 'p \<Rightarrow> 'p parser_state \<Rightarrow> 'p option option \<times> 'p parser_state" where
  "Parser newParser st =
     (if ps_Done st then (Some (ps_Parser st), st)
      else (case newParser of
              Inl err \<Rightarrow> (None, st\<lparr>ps_Done := True\<rparr>)
            | Inr p \<Rightarrow> (Some (Some p), st\<lparr>ps_Done := True, ps_Parser := Some p\<rparr>)))"

section \<open>What the builders build\<close>

named_theorems builder

lemmas [builder] = WithKind_def WithAPIVersion_def WithName_def WithGenerateName_def apply_WithNamespace_def
  WithUID_def WithResourceVersion_def WithGeneration_def WithCreationTimestamp_def WithDeletionTimestamp_def
  WithDeletionGracePeriodSeconds_def WithSpec_def WithStatus_def GetKind_def GetAPIVersion_def GetName_def
  GetNamespace_def on_meta_def ensureObjectMetaApplyConfigurationExists_def

lemma put_entries_Some: "put_entries entries ks (Some m) = Some (Some (m ++ (entries |` set ks)))"
proof (induction ks arbitrary: m)
  case Nil
  then show ?case by simp
next
  case (Cons k ks)
  show ?case
  proof (cases "entries k")
    case None
    then have "entries |` set (k # ks) = entries |` set ks" by (auto simp: restrict_map_def fun_eq_iff)
    then show ?thesis using Cons None by simp
  next
    case (Some v)
    then have "m(k \<mapsto> v) ++ (entries |` set ks) = m ++ (entries |` set (k # ks))"
      by (auto simp: restrict_map_def map_add_def fun_eq_iff split: option.splits)
    then show ?thesis using Cons Some by (simp add: fun_upd_def)
  qed
qed

text \<open>
  Putting the entries of a map never writes to a nil map, and gives the old entries overwritten by
  the new ones, whatever the order; without any entry a nil map stays nil.
\<close>

lemma add_entries_merge:
  assumes "is_range ks entries"
  shows "add_entries entries ks m
    = Some (if m = None \<and> entries = Map.empty then None else Some (go_map m ++ entries))"
proof -
  have ks: "ks = [] \<longleftrightarrow> entries = Map.empty" "entries |` set ks = entries"
    using assms unfolding is_range_def
    by (metis dom_eq_empty_conv set_empty, auto simp: restrict_map_def fun_eq_iff domIff split: if_splits)
  show ?thesis
    by (cases m; cases ks) (use ks in \<open>auto simp: add_entries_def put_entries_Some simp del: put_entries.simps(2)\<close>)
qed

lemma WithLabels_merge:
  assumes "is_range ks entries"
  shows "\<exists>b'. WithLabels entries ks b = Some b' \<and> ac_Spec b' = ac_Spec b \<and> ac_Status b' = ac_Status b
    \<and> ac_TypeMeta b' = ac_TypeMeta b
    \<and> go_map (am_Labels (the (ac_ObjectMeta b')))
        = go_map (Option.bind (ac_ObjectMeta b) am_Labels) ++ entries"
  by (cases "ac_ObjectMeta b")
    (simp_all add: WithLabels_def add_entries_merge [OF assms] builder no_meta_def)

lemma WithMatchLabels_merge:
  assumes "is_range ks entries"
  shows "\<exists>b'. WithMatchLabels entries ks b = Some b'
    \<and> go_map (as_MatchLabels b') = go_map (as_MatchLabels b) ++ entries
    \<and> as_MatchExpressions b' = as_MatchExpressions b"
  by (simp add: WithMatchLabels_def add_entries_merge [OF assms])

text \<open>A nil value panics, after the values before it were appended.\<close>

lemma append_values_eq:
  "append_values vs acc = (None \<notin> set vs, acc @ map the (takeWhile (\<lambda>v. v \<noteq> None) vs))"
  by (induction vs acc rule: append_values.induct) auto

lemma WithFinalizers_appends:
  "foldl (\<lambda>m v. m\<lparr>am_Finalizers := am_Finalizers m @ [v]\<rparr>) m vs = m\<lparr>am_Finalizers := am_Finalizers m @ vs\<rparr>"
  by (induction vs arbitrary: m) simp_all

text \<open>The constructor names what it builds, and the other setters leave the name.\<close>

lemma constructed:
  "GetKind (apply_FilteredAPIExportEndpointSlice n) = Some ''FilteredAPIExportEndpointSlice''"
  "GetAPIVersion (apply_FilteredAPIExportEndpointSlice n) = Some (GroupName @ ''/'' @ GroupVersion)"
  "fst (GetName (apply_FilteredAPIExportEndpointSlice n)) = Some n"
  "fst (GetNamespace (apply_FilteredAPIExportEndpointSlice n)) = None"
  by (simp_all add: apply_FilteredAPIExportEndpointSlice_def new_configuration_def builder no_meta_def
      GroupName_def GroupVersion_def)

lemma name_kept:
  "fst (GetName (WithName v b)) = Some v" "fst (GetName (WithKind v b)) = fst (GetName b)"
  "fst (GetName (apply_WithNamespace v b)) = fst (GetName b)" "fst (GetName (WithUID v b)) = fst (GetName b)"
  "fst (GetName (WithGeneration g b)) = fst (GetName b)" "fst (GetName (WithSpec s b)) = fst (GetName b)"
  "snd (GetName (snd (GetName b))) = snd (GetName b)"
  by (cases "ac_ObjectMeta b"; simp add: builder)+

lemma ForKind_known:
  "ForKind k \<noteq> None \<longleftrightarrow> gvk_Group k = GroupName \<and> gvk_Version k = GroupVersion
     \<and> gvk_Kind k \<in> {''ExportBindingReference'', ''FilteredAPIExportEndpointSlice'',
         ''FilteredAPIExportEndpointSliceSpec'', ''FilteredAPIExportEndpointSliceStatus'',
         ''FilteredAPIExportObjectSelector''}"
  by (cases k) (auto simp: ForKind_def WithKind_gv_def)

text \<open>After a first call that panicked every later one returns a nil parser.\<close>

lemma Parser_after_panic:
  assumes "\<not> ps_Done st" "ps_Parser st = None" "Parser (Inl err) st = (r, st')"
  shows "r = None \<and> Parser np st' = (Some None, st')"
  using assms by (auto simp: Parser_def)

lemma Parser_once:
  assumes "Parser (Inr p) \<lparr>ps_Done = False, ps_Parser = None\<rparr> = (r, st')"
  shows "r = Some (Some p) \<and> Parser np st' = (Some (Some p), st')"
  using assms by (auto simp: Parser_def)

end
