(* ===== verification/Fake_Clients.thy ===== *)
theory Fake_Clients
  imports Apply_Configuration Labels
begin

text \<open>
  The generated fakes of \<open>sdk/client/clientset/versioned/cluster/typed/filteredvw/v1alpha1/fake\<close>
  and \<open>cluster/fake/clientset.go\<close>, which tests use in place of a server. All clients of a
  clientset share one \<open>kcptesting.Fake\<close>, which records the actions it is given and asks the
  registered reactors for an answer: it is a parameter with a state of type \<open>'w\<close>
  (\<open>fake_api\<close>), and so are JSON encoding and the selector in list options. Objects are of type
  \<open>'s\<close>, options of type \<open>'o\<close>. A method returns an object and an error, or panics.
\<close>

datatype cluster_path = Wildcard | ClusterPath string

datatype 's fake_object =
    SliceObject 's
  | SliceList string "'s list"           \<comment> \<open>its \<open>ListMeta\<close>, which is only copied, and its items\<close>
  | OtherFakeObject string

datatype 'a answer = Answer "'a option" "go_error option" | Panicked string

datatype ('s, 'o) fake_action =
    ListAction group_version_resource group_version_kind cluster_path 'o
  | WatchAction group_version_resource cluster_path 'o
  | CreateAction group_version_resource cluster_path 's
  | UpdateAction group_version_resource cluster_path string 's
      \<comment> \<open>the subresource, empty for the object itself\<close>
  | DeleteAction group_version_resource cluster_path string 'o
  | DeleteCollectionAction group_version_resource cluster_path 'o
  | GetAction group_version_resource cluster_path string
  | PatchAction group_version_resource cluster_path string string string "string list"
      \<comment> \<open>name, patch type, data, subresources\<close>

fun action_path :: "('s, 'o) fake_action \<Rightarrow> cluster_path" where
  "action_path (ListAction _ _ p _) = p"
| "action_path (WatchAction _ p _) = p"
| "action_path (CreateAction _ p _) = p"
| "action_path (UpdateAction _ p _ _) = p"
| "action_path (DeleteAction _ p _ _) = p"
| "action_path (DeleteCollectionAction _ p _) = p"
| "action_path (GetAction _ p _) = p"
| "action_path (PatchAction _ p _ _ _ _) = p"

record ('s, 'o, 'w) fake_api =
  fk_Invokes :: "('s, 'o) fake_action \<Rightarrow> 's fake_object \<Rightarrow> 'w
      \<Rightarrow> ('s fake_object option \<times> go_error option) \<times> 'w"
  fk_InvokesWatch :: "('s, 'o) fake_action \<Rightarrow> 'w \<Rightarrow> (nat option \<times> go_error option) \<times> 'w"
  fk_Actions :: "'w \<Rightarrow> ('s, 'o) fake_action list"
  fk_Selector :: "'o \<Rightarrow> (label_set \<Rightarrow> bool) option"   \<comment> \<open>\<open>testing.ExtractFromListOptions\<close>\<close>
  fk_Labels :: "'s \<Rightarrow> label_set option"
  fk_Zero :: 's                                           \<comment> \<open>\<open>FilteredAPIExportEndpointSlice{}\<close>\<close>

text \<open>\<open>Fake\<close> records every action before a reactor answers it.\<close>

definition records_law :: "('s, 'o, 'w) fake_api \<Rightarrow> bool" where
  "records_law F \<longleftrightarrow>
     (\<forall>a d w. fk_Actions F (snd (fk_Invokes F a d w)) = fk_Actions F w @ [a])
     \<and> (\<forall>a w. fk_Actions F (snd (fk_InvokesWatch F a w)) = fk_Actions F w @ [a])"

definition filteredAPIExportEndpointSlicesResource :: group_version_resource where
  "filteredAPIExportEndpointSlicesResource = \<lparr>gvr_Group = ''filteredvw.kcp.io'',
     gvr_Version = ''v1alpha1'', gvr_Resource = ''filteredapiexportendpointslices''\<rparr>"

definition filteredAPIExportEndpointSlicesKind :: group_version_kind where
  "filteredAPIExportEndpointSlicesKind = \<lparr>gvk_Group = ''filteredvw.kcp.io'',
     gvk_Version = ''v1alpha1'', gvk_Kind = ''FilteredAPIExportEndpointSlice''\<rparr>"

section \<open>The methods\<close>

text \<open>
  \<open>obj == nil\<close> returns the error alone; otherwise the type assertion of the object, which
  panics on another type.
\<close>

definition slice_answer ::
    "'s fake_object option \<times> go_error option \<Rightarrow> 's answer" where
  "slice_answer r =
     (case r of
        (None, err) \<Rightarrow> Answer None err
      | (Some (SliceObject s), err) \<Rightarrow> Answer (Some s) err
      | _ \<Rightarrow> Panicked ''interface conversion'')"

text \<open>The loop over the items of the list.\<close>

fun matching_items :: "('s, 'o, 'w) fake_api \<Rightarrow> (label_set \<Rightarrow> bool) \<Rightarrow> 's list \<Rightarrow> 's list" where
  "matching_items F label [] = []"
| "matching_items F label (item # items) =
     (if label (go_map (fk_Labels F item)) then item # matching_items F label items
      else matching_items F label items)"

definition list_answer ::
    "('s, 'o, 'w) fake_api \<Rightarrow> 'o \<Rightarrow> 's fake_object option \<times> go_error option
      \<Rightarrow> (string \<times> 's list) answer" where
  "list_answer F opts r =
     (case r of
        (None, err) \<Rightarrow> Answer None err
      | (Some (SliceList m items), err) \<Rightarrow>
          let label = (case fk_Selector F opts of None \<Rightarrow> (\<lambda>_. True) | Some sel \<Rightarrow> sel)
          in Answer (Some (m, matching_items F label items)) err
      | _ \<Rightarrow> Panicked ''interface conversion'')"

definition fake_List ::
    "('s, 'o, 'w) fake_api \<Rightarrow> cluster_path \<Rightarrow> 'o \<Rightarrow> 'w \<Rightarrow> (string \<times> 's list) answer \<times> 'w" where
  "fake_List F path opts w =
     (case fk_Invokes F (ListAction filteredAPIExportEndpointSlicesResource
              filteredAPIExportEndpointSlicesKind path opts) (SliceList '''' []) w of
        (r, w') \<Rightarrow> (list_answer F opts r, w'))"

definition fake_Watch ::
    "('s, 'o, 'w) fake_api \<Rightarrow> cluster_path \<Rightarrow> 'o \<Rightarrow> 'w \<Rightarrow> nat answer \<times> 'w" where
  "fake_Watch F path opts w =
     (case fk_InvokesWatch F (WatchAction filteredAPIExportEndpointSlicesResource path opts) w of
        ((h, err), w') \<Rightarrow> (Answer h err, w'))"

text \<open>The cluster-wide client: \<open>Cluster\<close>, \<open>List\<close> and \<open>Watch\<close>.\<close>

definition fake_Cluster :: "cluster_path \<Rightarrow> cluster_path answer" where
  "fake_Cluster clusterPath =
     (if clusterPath = Wildcard
      then Panicked ''A specific cluster must be provided when scoping, not the wildcard.''
      else Answer (Some clusterPath) None)"

definition fake_cluster_List ::
    "('s, 'o, 'w) fake_api \<Rightarrow> 'o \<Rightarrow> 'w \<Rightarrow> (string \<times> 's list) answer \<times> 'w" where
  "fake_cluster_List F opts w =
     (case fk_Invokes F (ListAction filteredAPIExportEndpointSlicesResource
              filteredAPIExportEndpointSlicesKind Wildcard opts) (SliceList '''' []) w of
        (r, w') \<Rightarrow> (list_answer F opts r, w'))"

definition fake_cluster_Watch ::
    "('s, 'o, 'w) fake_api \<Rightarrow> 'o \<Rightarrow> 'w \<Rightarrow> nat answer \<times> 'w" where
  "fake_cluster_Watch F opts w =
     (case fk_InvokesWatch F (WatchAction filteredAPIExportEndpointSlicesResource Wildcard opts) w of
        ((h, err), w') \<Rightarrow> (Answer h err, w'))"

text \<open>The client of one cluster. Most methods invoke one action and convert its object.\<close>

definition invoke_slice ::
    "('s, 'o, 'w) fake_api \<Rightarrow> ('s, 'o) fake_action \<Rightarrow> 'w \<Rightarrow> 's answer \<times> 'w" where
  "invoke_slice F a w =
     (case fk_Invokes F a (SliceObject (fk_Zero F)) w of (r, w') \<Rightarrow> (slice_answer r, w'))"

definition fake_Create where
  "fake_Create F path obj (opts :: 'o) w =
     invoke_slice F (CreateAction filteredAPIExportEndpointSlicesResource path obj) w"

definition fake_Update where
  "fake_Update F path obj (opts :: 'o) w =
     invoke_slice F (UpdateAction filteredAPIExportEndpointSlicesResource path '''' obj) w"

definition fake_UpdateStatus where
  "fake_UpdateStatus F path obj (opts :: 'o) w =
     invoke_slice F (UpdateAction filteredAPIExportEndpointSlicesResource path ''status'' obj) w"

definition fake_Delete ::
    "('s, 'o, 'w) fake_api \<Rightarrow> cluster_path \<Rightarrow> string \<Rightarrow> 'o \<Rightarrow> 'w \<Rightarrow> unit answer \<times> 'w" where
  "fake_Delete F path name opts w =
     (case fk_Invokes F (DeleteAction filteredAPIExportEndpointSlicesResource path name opts)
              (SliceObject (fk_Zero F)) w of
        ((_, err), w') \<Rightarrow> (Answer None err, w'))"

definition fake_DeleteCollection ::
    "('s, 'o, 'w) fake_api \<Rightarrow> cluster_path \<Rightarrow> 'o \<Rightarrow> 'o \<Rightarrow> 'w \<Rightarrow> unit answer \<times> 'w" where
  "fake_DeleteCollection F path opts listOpts w =
     (let action = DeleteCollectionAction filteredAPIExportEndpointSlicesResource path listOpts
      in case fk_Invokes F action (SliceList '''' []) w of ((_, err), w') \<Rightarrow> (Answer None err, w'))"

definition fake_Get where
  "fake_Get F path name (opts :: 'o) w =
     invoke_slice F (GetAction filteredAPIExportEndpointSlicesResource path name) w"

definition fake_Patch where
  "fake_Patch F path name pt data (opts :: 'o) subresources w =
     invoke_slice F (PatchAction filteredAPIExportEndpointSlicesResource path name pt data subresources) w"

text \<open>
  \<open>Apply\<close> and \<open>ApplyStatus\<close>, which differ in the subresource only. The name is read through
  the pointer to the embedded metadata, which panics when it is nil.
\<close>

definition apply_patch ::
    "('s, 'o, 'w) fake_api \<Rightarrow> (('p, 't) SliceApplyConfiguration \<Rightarrow> go_error + string) \<Rightarrow> string list
      \<Rightarrow> cluster_path \<Rightarrow> ('p, 't) SliceApplyConfiguration option \<Rightarrow> 'w \<Rightarrow> 's answer \<times> 'w" where
  "apply_patch F marshal subresources path applyConfiguration w =
     (case applyConfiguration of
        None \<Rightarrow> (Answer None (Some (Errorf ''applyConfiguration provided to Apply must not be nil'' [])), w)
      | Some b \<Rightarrow>
          (case marshal b of
             Inl err \<Rightarrow> (Answer None (Some err), w)
           | Inr data \<Rightarrow>
               (case ac_ObjectMeta b of
                  None \<Rightarrow> (Panicked ''invalid memory address or nil pointer dereference'', w)
                | Some m \<Rightarrow>
                    (case am_Name m of
                       None \<Rightarrow> (Answer None (Some (Errorf ''applyConfiguration.Name must be provided to Apply'' [])), w)
                     | Some name \<Rightarrow>
                         invoke_slice F (PatchAction filteredAPIExportEndpointSlicesResource path name
                           ''application/apply-patch+yaml'' data subresources) w))))"

definition fake_Apply where
  "fake_Apply F marshal path applyConfiguration (opts :: 'o) w =
     apply_patch F marshal [] path applyConfiguration w"

definition fake_ApplyStatus where
  "fake_ApplyStatus F marshal path applyConfiguration (opts :: 'o) w =
     apply_patch F marshal [''status''] path applyConfiguration w"


section \<open>The clientsets\<close>

text \<open>
  \<open>cluster/fake/clientset.go\<close> and \<open>fake/filteredvw_client.go\<close>: the typed clients are given by
  their cluster path, they share the \<open>Fake\<close>. Scoping an object tracker is a parameter.
\<close>

record 't fake_ClusterClientset =
  fcc_Discovery :: cluster_path          \<comment> \<open>the path the fake discovery client is for\<close>
  fcc_Tracker :: 't

record 't fake_Clientset =
  fcs_Discovery :: cluster_path
  fcs_Tracker :: 't
  fcs_clusterPath :: cluster_path

text \<open>
  \<open>NewSimpleClientset\<close>: what \<open>AddAll\<close> makes of the empty tracker. The reactors registered
  after it answer from this tracker.
\<close>

definition fake_NewSimpleClientset :: "('s list \<Rightarrow> 't \<Rightarrow> 't) \<Rightarrow> 't \<Rightarrow> 's list \<Rightarrow> 't fake_ClusterClientset" where
  "fake_NewSimpleClientset addAll tracker objects =
     \<lparr>fcc_Discovery = Wildcard, fcc_Tracker = addAll objects tracker\<rparr>"

definition fake_clientset_Cluster ::
    "(cluster_path \<Rightarrow> 't \<Rightarrow> 't1) \<Rightarrow> cluster_path \<Rightarrow> 't fake_ClusterClientset \<Rightarrow> 't1 fake_Clientset answer" where
  "fake_clientset_Cluster scope clusterPath c =
     (if clusterPath = Wildcard
      then Panicked ''A specific cluster must be provided when scoping, not the wildcard.''
      else Answer (Some \<lparr>fcs_Discovery = clusterPath, fcs_Tracker = scope clusterPath (fcc_Tracker c),
                        fcs_clusterPath = clusterPath\<rparr>) None)"

text \<open>\<open>FilteredvwV1alpha1Client{Fake, ClusterPath}\<close> and its \<open>FilteredAPIExportEndpointSlices\<close>.\<close>

definition fake_FilteredvwV1alpha1 :: "'t fake_Clientset \<Rightarrow> cluster_path" where
  "fake_FilteredvwV1alpha1 c = fcs_clusterPath c"

definition fake_group_Cluster :: "cluster_path \<Rightarrow> cluster_path answer" where
  "fake_group_Cluster clusterPath =
     (if clusterPath = Wildcard
      then Panicked ''A specific cluster must be provided when scoping, not the wildcard.''
      else Answer (Some clusterPath) None)"

definition fake_FilteredAPIExportEndpointSlices :: "cluster_path \<Rightarrow> cluster_path" where
  "fake_FilteredAPIExportEndpointSlices path = path"

text \<open>The three ways to the slices of one cluster give the same client.\<close>

lemma fake_routes_agree:
  assumes "fake_clientset_Cluster scope path c = Answer (Some cs) err"
  shows "fake_Cluster path = Answer (Some (fake_FilteredAPIExportEndpointSlices (fake_FilteredvwV1alpha1 cs))) None
    \<and> fake_group_Cluster path = Answer (Some (fake_FilteredvwV1alpha1 cs)) None"
  using assms
  by (auto simp: fake_clientset_Cluster_def fake_Cluster_def fake_group_Cluster_def
      fake_FilteredvwV1alpha1_def fake_FilteredAPIExportEndpointSlices_def split: if_splits)

text \<open>
  \<open>versioned/fake/clientset_generated.go\<close>, the clientset without clusters: the constructors
  add the objects one by one and panic on the first error, and the watch reactor passes on the
  options of a watch action.
\<close>

fun add_objects :: "('s \<Rightarrow> 't \<Rightarrow> go_error option \<times> 't) \<Rightarrow> 's list \<Rightarrow> 't \<Rightarrow> go_error + 't" where
  "add_objects add [] o1 = Inr o1"
| "add_objects add (obj # objs) o1 =
     (case add obj o1 of
        (Some err, o2) \<Rightarrow> Inl err
      | (None, o2) \<Rightarrow> add_objects add objs o2)"

record 'o watch_action =
  wa_Resource :: group_version_resource
  wa_Namespace :: string
  wa_Options :: "'o option"              \<comment> \<open>if the action is a \<open>WatchActionImpl\<close>\<close>

definition watch_reaction ::
    "(group_version_resource \<Rightarrow> string \<Rightarrow> 'o \<Rightarrow> go_error + nat) \<Rightarrow> 'o \<Rightarrow> 'o watch_action
      \<Rightarrow> bool \<times> nat option \<times> go_error option" where
  "watch_reaction watch zero action =
     (let opts = (case wa_Options action of None \<Rightarrow> zero | Some o1 \<Rightarrow> o1)
      in case watch (wa_Resource action) (wa_Namespace action) opts of
           Inl err \<Rightarrow> (False, None, Some err)
         | Inr w \<Rightarrow> (True, Some w, None))"

text \<open>The constructor panics exactly when an object is refused, and otherwise adds all, in order.\<close>

lemma add_objects_append:
  "add_objects add (xs @ ys) t
     = (case add_objects add xs t of Inl e \<Rightarrow> Inl e | Inr t' \<Rightarrow> add_objects add ys t')"
  by (induction add xs t rule: add_objects.induct) (auto split: prod.splits option.splits)

section \<open>Properties\<close>

lemma matching_items_filter:
  "matching_items F label items = filter (\<lambda>i. label (go_map (fk_Labels F i))) items"
  by (induction items) simp_all

text \<open>A listing never has an item the selector of its options does not match.\<close>

lemma fake_List_matches:
  assumes "fake_List F path opts w = (Answer (Some (m, items)) err, w')" "fk_Selector F opts = Some label"
  shows "\<forall>i \<in> set items. label (go_map (fk_Labels F i))"
  using assms
  by (auto simp: fake_List_def list_answer_def matching_items_filter Let_def
      split: prod.splits option.splits fake_object.splits)

text \<open>What tests call on the client of one cluster.\<close>

datatype ('s, 'o, 'p, 't) scoped_call =
    CallCreate 's 'o | CallUpdate 's 'o | CallUpdateStatus 's 'o
  | CallDelete string 'o | CallDeleteCollection 'o 'o
  | CallGet string 'o | CallList 'o | CallWatch 'o
  | CallPatch string string string 'o "string list"
  | CallApply "('p, 't) SliceApplyConfiguration option" 'o
  | CallApplyStatus "('p, 't) SliceApplyConfiguration option" 'o

fun run_call where
  "run_call F marshal p (CallCreate s opts) w = snd (fake_Create F p s opts w)"
| "run_call F marshal p (CallUpdate s opts) w = snd (fake_Update F p s opts w)"
| "run_call F marshal p (CallUpdateStatus s opts) w = snd (fake_UpdateStatus F p s opts w)"
| "run_call F marshal p (CallDelete n opts) w = snd (fake_Delete F p n opts w)"
| "run_call F marshal p (CallDeleteCollection opts lopts) w = snd (fake_DeleteCollection F p opts lopts w)"
| "run_call F marshal p (CallGet n opts) w = snd (fake_Get F p n opts w)"
| "run_call F marshal p (CallList opts) w = snd (fake_List F p opts w)"
| "run_call F marshal p (CallWatch opts) w = snd (fake_Watch F p opts w)"
| "run_call F marshal p (CallPatch n pt data opts subs) w = snd (fake_Patch F p n pt data opts subs w)"
| "run_call F marshal p (CallApply b opts) w = snd (fake_Apply F marshal p b opts w)"
| "run_call F marshal p (CallApplyStatus b opts) w = snd (fake_ApplyStatus F marshal p b opts w)"

lemmas fake_methods = fake_Create_def fake_Update_def fake_UpdateStatus_def fake_Delete_def
  fake_DeleteCollection_def fake_Get_def fake_List_def fake_Watch_def fake_Patch_def fake_Apply_def
  fake_ApplyStatus_def apply_patch_def invoke_slice_def Let_def

lemma invokes_recorded:
  "records_law F \<Longrightarrow> fk_Invokes F a d w = (r, w') \<Longrightarrow> fk_Actions F w' = fk_Actions F w @ [a]"
  "records_law F \<Longrightarrow> fk_InvokesWatch F a w = (r', w') \<Longrightarrow> fk_Actions F w' = fk_Actions F w @ [a]"
  unfolding records_law_def by (metis snd_conv)+

text \<open>A call records at most one action, for the cluster of the client.\<close>

lemma run_call_recorded:
  assumes "records_law F"
  shows "\<exists>new. fk_Actions F (run_call F marshal p call w) = fk_Actions F w @ new
    \<and> length new \<le> 1 \<and> (\<forall>a \<in> set new. action_path a = p)"
proof -
  have keep: "\<exists>new. fk_Actions F w = fk_Actions F w @ new \<and> length new \<le> 1 \<and> (\<forall>a \<in> set new. action_path a = p)"
    by (rule exI [of _ "[]"]) simp
  have one: "\<exists>new. fk_Actions F w' = fk_Actions F w @ new \<and> length new \<le> 1 \<and> (\<forall>a \<in> set new. action_path a = p)"
    if "fk_Actions F w' = fk_Actions F w @ [a]" "action_path a = p" for a w'
    using that by (intro exI [of _ "[a]"]) simp
  note rec = invokes_recorded [OF assms]
  show ?thesis
    by (cases call)
      (auto simp only: run_call.simps fake_methods split_beta snd_conv split: sum.splits option.splits
        intro!: keep one rec [OF prod.collapse [symmetric]] simp: action_path.simps)
qed


text \<open>
  A client obtained by Cluster is never for the wildcard, and whatever sequence of its methods
  a test calls, every action the shared fake records is for the cluster of the client, at most
  one per call.
\<close>

theorem scoped_fake_stays_in_cluster:
  assumes law: "records_law F" and scoped: "fake_Cluster cp = Answer (Some p) err"
  shows "cp \<noteq> Wildcard
    \<and> (\<exists>new. fk_Actions F (foldl (\<lambda>w call. run_call F marshal p call w) w calls) = fk_Actions F w @ new
         \<and> length new \<le> length calls \<and> (\<forall>a \<in> set new. action_path a = cp))"
proof -
  have p: "p = cp" "cp \<noteq> Wildcard" using scoped by (auto simp: fake_Cluster_def split: if_splits)
  have "\<exists>new. fk_Actions F (foldl (\<lambda>w call. run_call F marshal p call w) w calls) = fk_Actions F w @ new
      \<and> length new \<le> length calls \<and> (\<forall>a \<in> set new. action_path a = p)"
  proof (induction calls arbitrary: w)
    case (Cons call calls)
    obtain n1 where n1: "fk_Actions F (run_call F marshal p call w) = fk_Actions F w @ n1"
        "length n1 \<le> 1" "\<forall>a \<in> set n1. action_path a = p"
      using run_call_recorded [OF law] by blast
    obtain n2 where "fk_Actions F (foldl (\<lambda>w call. run_call F marshal p call w) (run_call F marshal p call w) calls)
        = fk_Actions F (run_call F marshal p call w) @ n2"
        "length n2 \<le> length calls" "\<forall>a \<in> set n2. action_path a = p"
      using Cons.IH by blast
    with n1 show ?case by (intro exI [of _ "n1 @ n2"]) auto
  qed simp
  with p show ?thesis by simp
qed

text \<open>The example fake only records: every action is answered with nothing.\<close>

definition w_fake :: "(string, string, (string, string) fake_action list) fake_api" where
  "w_fake = \<lparr>fk_Invokes = (\<lambda>a d w. ((None, None), w @ [a])), fk_InvokesWatch = (\<lambda>a w. ((None, None), w @ [a])),
     fk_Actions = (\<lambda>w. w), fk_Selector = (\<lambda>_. None), fk_Labels = (\<lambda>_. None), fk_Zero = ''''\<rparr>"

lemma w_fake_law: "records_law w_fake"
  by (simp add: records_law_def w_fake_def)

definition w_fake_calls :: "(string, string, unit, unit) scoped_call list" where
  "w_fake_calls = [CallGet ''es'' '''', CallApply None '''', CallDelete ''es'' '''']"

theorem scoped_fake_stays_in_cluster_witness:
  "\<exists>new. foldl (\<lambda>w call. run_call w_fake (\<lambda>_. Inr '''') (ClusterPath ''root:a'') call w) [] w_fake_calls = new
    \<and> new \<noteq> [] \<and> length new \<le> 3 \<and> (\<forall>a \<in> set new. action_path a = ClusterPath ''root:a'')"
proof -
  have s: "fake_Cluster (ClusterPath ''root:a'') = Answer (Some (ClusterPath ''root:a'')) None"
    by (simp add: fake_Cluster_def)
  have acts: "fk_Actions w_fake w = w" for w by (simp add: w_fake_def)
  have "foldl (\<lambda>w call. run_call w_fake (\<lambda>_. Inr '''') (ClusterPath ''root:a'') call w) [] w_fake_calls \<noteq> []"
    by (simp add: w_fake_calls_def fake_methods w_fake_def)
  with scoped_fake_stays_in_cluster [OF w_fake_law s, of "\<lambda>_. Inr ''''" "[]" w_fake_calls] acts
  show ?thesis by (simp add: w_fake_calls_def)
qed

text \<open>
  Apply and ApplyStatus of the fake client panic on an unnamed configuration exactly when it
  has no metadata at all; once its metadata exists, as after calling GetName, the same
  configuration is refused with the documented error and nothing is invoked.
\<close>

theorem apply_without_metadata_panics:
  assumes unnamed: "fst (GetName b) = None"
    and encoded: "marshal b = Inr data" "marshal (snd (GetName b)) = Inr data'"
  shows "(fst (fake_Apply F marshal path (Some b) opts w)
            = Panicked ''invalid memory address or nil pointer dereference'' \<longleftrightarrow> ac_ObjectMeta b = None)
    \<and> fake_Apply F marshal path (Some (snd (GetName b))) opts w
        = (Answer None (Some (Errorf ''applyConfiguration.Name must be provided to Apply'' [])), w)
    \<and> fake_ApplyStatus F marshal path (Some b) opts w = fake_Apply F marshal path (Some b) opts w"
  using assms
  by (cases "ac_ObjectMeta b") (simp_all add: fake_Apply_def fake_ApplyStatus_def apply_patch_def builder no_meta_def)

theorem apply_without_metadata_panics_witness:
  "fst (fake_Apply w_fake (\<lambda>_. Inr ''{}'') (ClusterPath ''root:a'')
      (Some (WithKind ''FilteredAPIExportEndpointSlice'' (new_configuration :: (unit, unit) SliceApplyConfiguration)))
      ([] :: string) [])
   = Panicked ''invalid memory address or nil pointer dereference''"
proof -
  let ?b = "WithKind ''FilteredAPIExportEndpointSlice'' (new_configuration :: (unit, unit) SliceApplyConfiguration)"
  have "fst (GetName ?b) = None" "ac_ObjectMeta ?b = None"
    by (simp_all add: builder no_meta_def new_configuration_def)
  with apply_without_metadata_panics [of ?b "\<lambda>_. Inr ''{}''" "''{}''" "''{}''" w_fake "ClusterPath ''root:a''"
      "[] :: string" "[]"]
  show ?thesis by simp
qed

text \<open>A configuration made by the constructor is sent as an apply patch of that name.\<close>

lemma apply_constructed:
  assumes "records_law F" "marshal b = Inr data" "fst (GetName b) = Some n" "ac_ObjectMeta b \<noteq> None"
  shows "fk_Actions F (snd (fake_Apply F marshal path (Some b) opts w)) = fk_Actions F w
     @ [PatchAction filteredAPIExportEndpointSlicesResource path n ''application/apply-patch+yaml'' data []]"
  using assms
  by (auto simp: fake_Apply_def apply_patch_def builder invoke_slice_def split: prod.splits
      dest: invokes_recorded(1))

end
