(* ===== verification/Clientsets.thy ===== *)
theory Clientsets
  imports Complex_Main Fake_Clients
begin

text \<open>
  The generated clientsets: \<open>sdk/client/clientset/versioned/clientset.go\<close> (one cluster),
  \<open>versioned/cluster/clientset.go\<close> (all clusters), and the typed clients below them. What a
  client of the REST library is made from is its value: a configuration and an HTTP client. Rate
  limiters have an identity, their number in the list of limiters made so far, because clients
  that share one share its budget. Parameters: the REST library (\<open>rest_api\<close>) and kcp's cache of
  clients (\<open>client_cache_api\<close>).
\<close>

record rest_config =
  rf_Host :: string
  rf_APIPath :: string
  rf_GroupVersion :: "(string \<times> string) option"
  rf_NegotiatedSerializer :: "nat option"
  rf_UserAgent :: string
  rf_QPS :: rat
  rf_Burst :: int
  rf_RateLimiter :: "nat option"

type_synonym limiters = "(rat \<times> int) list"

record rest_client =
  cl_Config :: rest_config
  cl_HTTP :: nat

record rest_api =
  ra_DefaultKubernetesUserAgent :: string
  ra_HTTPClientFor :: "rest_config \<Rightarrow> go_error + nat"
  ra_RESTClientForConfigAndClient :: "rest_config \<Rightarrow> nat \<Rightarrow> go_error option"
  ra_NewDiscoveryClient :: "rest_config \<Rightarrow> nat \<Rightarrow> go_error option"
  ra_Codecs :: nat

section \<open>The typed client\<close>

definition setConfigDefaults :: "rest_api \<Rightarrow> rest_config \<Rightarrow> rest_config" where
  "setConfigDefaults ra config =
     (let config = config\<lparr>rf_GroupVersion := Some (GroupName, GroupVersion), rf_APIPath := ''/apis'',
                          rf_NegotiatedSerializer := Some (ra_Codecs ra)\<rparr>
      in if rf_UserAgent config = ''''
         then config\<lparr>rf_UserAgent := ra_DefaultKubernetesUserAgent ra\<rparr> else config)"

definition typed_NewForConfigAndClient :: "rest_api \<Rightarrow> rest_config \<Rightarrow> nat \<Rightarrow> go_error + rest_client" where
  "typed_NewForConfigAndClient ra c h =
     (let config = setConfigDefaults ra c
      in case ra_RESTClientForConfigAndClient ra config h of
           Some err \<Rightarrow> Inl err
         | None \<Rightarrow> Inr \<lparr>cl_Config = config, cl_HTTP = h\<rparr>)"

definition typed_NewForConfig :: "rest_api \<Rightarrow> rest_config \<Rightarrow> go_error + rest_client" where
  "typed_NewForConfig ra c =
     (let config = setConfigDefaults ra c
      in case ra_HTTPClientFor ra config of
           Inl err \<Rightarrow> Inl err
         | Inr httpClient \<Rightarrow> typed_NewForConfigAndClient ra config httpClient)"

text \<open>A call of an \<open>OrDie\<close> constructor: it panics with the error.\<close>

definition or_die :: "go_error + 'c \<Rightarrow> 'c option" where
  "or_die r = (case r of Inl err \<Rightarrow> None | Inr client \<Rightarrow> Some client)"

definition typed_NewForConfigOrDie :: "rest_api \<Rightarrow> rest_config \<Rightarrow> rest_client option" where
  "typed_NewForConfigOrDie ra c = or_die (typed_NewForConfig ra c)"

definition RESTClient :: "rest_client option \<Rightarrow> rest_client option" where
  "RESTClient c = (case c of None \<Rightarrow> None | Some restClient \<Rightarrow> Some restClient)"

text \<open>\<open>newFilteredAPIExportEndpointSlices\<close>: what the generic client is given.\<close>

record slices_rest_client =
  sr_Resource :: string
  sr_Client :: "rest_client option"
  sr_Namespace :: string

definition newFilteredAPIExportEndpointSlices :: "rest_client option \<Rightarrow> slices_rest_client" where
  "newFilteredAPIExportEndpointSlices c =
     \<lparr>sr_Resource = ''filteredapiexportendpointslices'', sr_Client = RESTClient c, sr_Namespace = ''''\<rparr>"

section \<open>The clientset of one cluster\<close>

record Clientset =
  cs_DiscoveryClient :: rest_client
  cs_filteredvwV1alpha1 :: rest_client

text \<open>The limiter of the shallow copy of the configuration.\<close>

definition with_rate_limiter :: "rest_config \<Rightarrow> limiters \<Rightarrow> (go_error + rest_config) \<times> limiters" where
  "with_rate_limiter c lims =
     (if rf_RateLimiter c = None \<and> rf_QPS c > 0 then
        (if rf_Burst c \<le> 0 then
           (Inl (Errorf ''burst is required to be greater than 0 when RateLimiter is not set and QPS is set to greater than 0'' []),
            lims)
         else (Inr (c\<lparr>rf_RateLimiter := Some (length lims)\<rparr>), lims @ [(rf_QPS c, rf_Burst c)]))
      else (Inr c, lims))"

definition NewForConfigAndClient ::
    "rest_api \<Rightarrow> rest_config \<Rightarrow> nat \<Rightarrow> limiters \<Rightarrow> (go_error + Clientset) \<times> limiters" where
  "NewForConfigAndClient ra c httpClient lims =
     (case with_rate_limiter c lims of
        (Inl err, lims1) \<Rightarrow> (Inl err, lims1)
      | (Inr configShallowCopy, lims1) \<Rightarrow>
          (case typed_NewForConfigAndClient ra configShallowCopy httpClient of
             Inl err \<Rightarrow> (Inl err, lims1)
           | Inr typed \<Rightarrow>
               (case ra_NewDiscoveryClient ra configShallowCopy httpClient of
                  Some err \<Rightarrow> (Inl err, lims1)
                | None \<Rightarrow>
                    (Inr \<lparr>cs_DiscoveryClient = \<lparr>cl_Config = configShallowCopy, cl_HTTP = httpClient\<rparr>,
                          cs_filteredvwV1alpha1 = typed\<rparr>, lims1))))"

definition with_user_agent :: "rest_api \<Rightarrow> rest_config \<Rightarrow> rest_config" where
  "with_user_agent ra c =
     (if rf_UserAgent c = '''' then c\<lparr>rf_UserAgent := ra_DefaultKubernetesUserAgent ra\<rparr> else c)"

definition NewForConfig ::
    "rest_api \<Rightarrow> rest_config \<Rightarrow> limiters \<Rightarrow> (go_error + Clientset) \<times> limiters" where
  "NewForConfig ra c lims =
     (let configShallowCopy = with_user_agent ra c
      in case ra_HTTPClientFor ra configShallowCopy of
           Inl err \<Rightarrow> (Inl err, lims)
         | Inr httpClient \<Rightarrow> NewForConfigAndClient ra configShallowCopy httpClient lims)"

definition NewForConfigOrDie ::
    "rest_api \<Rightarrow> rest_config \<Rightarrow> limiters \<Rightarrow> Clientset option \<times> limiters" where
  "NewForConfigOrDie ra c lims = (case NewForConfig ra c lims of (r, lims1) \<Rightarrow> (or_die r, lims1))"

definition clientset_New :: "rest_client \<Rightarrow> Clientset" where
  "clientset_New c = \<lparr>cs_DiscoveryClient = c, cs_filteredvwV1alpha1 = c\<rparr>"

text \<open>\<open>Discovery\<close> is nil for a nil clientset.\<close>

definition Discovery :: "Clientset option \<Rightarrow> rest_client option" where
  "Discovery c = (case c of None \<Rightarrow> None | Some cs \<Rightarrow> Some (cs_DiscoveryClient cs))"

section \<open>The clients of all clusters\<close>

text \<open>
  \<open>kcpclient.Cache\<close>: a configuration, an HTTP client and the clients made so far. Looking up a
  cluster is a parameter, with what kcp documents as \<open>cache_law\<close>: a client is made once per
  cluster, by the constructor, from the configuration scoped to the cluster (\<open>scope\<close>, which
  changes the host only).
\<close>

record 'c client_cache =
  ca_Config :: rest_config
  ca_Client :: nat
  ca_Clients :: "cluster_path \<rightharpoonup> 'c"

type_synonym 'c constructor = "rest_config \<Rightarrow> nat \<Rightarrow> limiters \<Rightarrow> (go_error + 'c) \<times> limiters"

type_synonym 'c cache_lookup =
  "cluster_path \<Rightarrow> 'c constructor \<Rightarrow> 'c client_cache \<Rightarrow> limiters \<Rightarrow> (go_error + 'c) \<times> 'c client_cache \<times> limiters"

definition NewCache :: "rest_config \<Rightarrow> nat \<Rightarrow> 'c client_cache" where
  "NewCache c h = \<lparr>ca_Config = c, ca_Client = h, ca_Clients = Map.empty\<rparr>"

definition cache_law :: "(cluster_path \<Rightarrow> string \<Rightarrow> string) \<Rightarrow> 'c cache_lookup \<Rightarrow> bool" where
  "cache_law scope look \<longleftrightarrow>
     (\<forall>path constr ca lims.
        look path constr ca lims =
          (case ca_Clients ca path of
             Some client \<Rightarrow> (Inr client, ca, lims)
           | None \<Rightarrow>
               (case constr ((ca_Config ca)\<lparr>rf_Host := scope path (rf_Host (ca_Config ca))\<rparr>) (ca_Client ca) lims of
                  (Inl err, lims1) \<Rightarrow> (Inl err, ca, lims1)
                | (Inr client, lims1) \<Rightarrow>
                    (Inr client, ca\<lparr>ca_Clients := (ca_Clients ca)(path \<mapsto> client)\<rparr>, lims1))))"

record client_cache_api =
  cc_Clientsets :: "Clientset cache_lookup"
  cc_Typed :: "rest_client cache_lookup"

text \<open>\<open>cluster/typed/filteredvw/v1alpha1\<close>: a client is its cache.\<close>

definition typed_constructor :: "rest_api \<Rightarrow> rest_client constructor" where
  "typed_constructor ra c h lims = (typed_NewForConfigAndClient ra c h, lims)"

definition cluster_typed_NewForConfigAndClient ::
    "rest_api \<Rightarrow> client_cache_api \<Rightarrow> rest_config \<Rightarrow> nat \<Rightarrow> limiters
      \<Rightarrow> (go_error + rest_client client_cache) \<times> limiters" where
  "cluster_typed_NewForConfigAndClient ra K c h lims =
     (case cc_Typed K (ClusterPath ''root'') (typed_constructor ra) (NewCache c h) lims of
        (Inl err, _, lims1) \<Rightarrow> (Inl err, lims1)
      | (Inr _, ca, lims1) \<Rightarrow> (Inr ca, lims1))"

definition cluster_typed_NewForConfig ::
    "rest_api \<Rightarrow> client_cache_api \<Rightarrow> rest_config \<Rightarrow> limiters
      \<Rightarrow> (go_error + rest_client client_cache) \<times> limiters" where
  "cluster_typed_NewForConfig ra K c lims =
     (case ra_HTTPClientFor ra c of
        Inl err \<Rightarrow> (Inl err, lims)
      | Inr client \<Rightarrow> cluster_typed_NewForConfigAndClient ra K c client lims)"

text \<open>\<open>ClusterOrDie\<close> panics when the client cannot be made.\<close>

definition ClusterOrDie ::
    "'c cache_lookup \<Rightarrow> 'c constructor \<Rightarrow> cluster_path \<Rightarrow> 'c client_cache \<Rightarrow> limiters
      \<Rightarrow> 'c answer \<times> 'c client_cache \<times> limiters" where
  "ClusterOrDie look constr path ca lims =
     (case look path constr ca lims of
        (Inl err, ca1, lims1) \<Rightarrow> (Panicked ''cannot make a client'', ca1, lims1)
      | (Inr client, ca1, lims1) \<Rightarrow> (Answer (Some client) None, ca1, lims1))"

definition cluster_typed_Cluster ::
    "rest_api \<Rightarrow> client_cache_api \<Rightarrow> cluster_path \<Rightarrow> rest_client client_cache \<Rightarrow> limiters
      \<Rightarrow> rest_client answer \<times> rest_client client_cache \<times> limiters" where
  "cluster_typed_Cluster ra K clusterPath c lims =
     (if clusterPath = Wildcard
      then (Panicked ''A specific cluster must be provided when scoping, not the wildcard.'', c, lims)
      else ClusterOrDie (cc_Typed K) (typed_constructor ra) clusterPath c lims)"

text \<open>The slices of one cluster, and the client \<open>List\<close> and \<open>Watch\<close> of all clusters use.\<close>

definition slices_of :: "rest_client answer \<Rightarrow> slices_rest_client answer" where
  "slices_of a =
     (case a of
        Answer (Some c) err \<Rightarrow> Answer (Some (newFilteredAPIExportEndpointSlices (Some c))) err
      | Answer None err \<Rightarrow> Answer None err
      | Panicked m \<Rightarrow> Panicked m)"

definition slices_cluster_Cluster ::
    "rest_api \<Rightarrow> client_cache_api \<Rightarrow> cluster_path \<Rightarrow> rest_client client_cache \<Rightarrow> limiters
      \<Rightarrow> slices_rest_client answer \<times> rest_client client_cache \<times> limiters" where
  "slices_cluster_Cluster ra K clusterPath c lims =
     (if clusterPath = Wildcard
      then (Panicked ''A specific cluster must be provided when scoping, not the wildcard.'', c, lims)
      else case ClusterOrDie (cc_Typed K) (typed_constructor ra) clusterPath c lims of
             (a, c1, lims1) \<Rightarrow> (slices_of a, c1, lims1))"

definition slices_cluster_all ::
    "rest_api \<Rightarrow> client_cache_api \<Rightarrow> rest_client client_cache \<Rightarrow> limiters
      \<Rightarrow> slices_rest_client answer \<times> rest_client client_cache \<times> limiters" where
  "slices_cluster_all ra K c lims =
     (case ClusterOrDie (cc_Typed K) (typed_constructor ra) Wildcard c lims of
        (a, c1, lims1) \<Rightarrow> (slices_of a, c1, lims1))"

record ClusterClientset =
  ccs_DiscoveryClient :: rest_client
  ccs_clientCache :: "Clientset client_cache"
  ccs_filteredvwV1alpha1 :: "rest_client client_cache"

text \<open>
  \<open>NewForConfigAndClient\<close>: the shallow copy gets the limiter, the cache of clientsets is made
  with the configuration \<open>c\<close> of the caller.
\<close>

definition cluster_NewForConfigAndClient ::
    "rest_api \<Rightarrow> client_cache_api \<Rightarrow> rest_config \<Rightarrow> nat \<Rightarrow> limiters
      \<Rightarrow> (go_error + ClusterClientset) \<times> limiters" where
  "cluster_NewForConfigAndClient ra K c httpClient lims =
     (case with_rate_limiter c lims of
        (Inl err, lims1) \<Rightarrow> (Inl err, lims1)
      | (Inr configShallowCopy, lims1) \<Rightarrow>
     (case cc_Clientsets K (ClusterPath ''root'') (NewForConfigAndClient ra) (NewCache c httpClient) lims1 of
        (Inl err, _, lims2) \<Rightarrow> (Inl err, lims2)
      | (Inr _, cache, lims2) \<Rightarrow>
     (case cluster_typed_NewForConfigAndClient ra K configShallowCopy httpClient lims2 of
        (Inl err, lims3) \<Rightarrow> (Inl err, lims3)
      | (Inr typed, lims3) \<Rightarrow>
     (case ra_NewDiscoveryClient ra configShallowCopy httpClient of
        Some err \<Rightarrow> (Inl err, lims3)
      | None \<Rightarrow>
          (Inr \<lparr>ccs_DiscoveryClient = \<lparr>cl_Config = configShallowCopy, cl_HTTP = httpClient\<rparr>,
                ccs_clientCache = cache, ccs_filteredvwV1alpha1 = typed\<rparr>, lims3)))))"

definition cluster_NewForConfig ::
    "rest_api \<Rightarrow> client_cache_api \<Rightarrow> rest_config \<Rightarrow> limiters
      \<Rightarrow> (go_error + ClusterClientset) \<times> limiters" where
  "cluster_NewForConfig ra K c lims =
     (let configShallowCopy = with_user_agent ra c
      in case ra_HTTPClientFor ra configShallowCopy of
           Inl err \<Rightarrow> (Inl err, lims)
         | Inr httpClient \<Rightarrow> cluster_NewForConfigAndClient ra K configShallowCopy httpClient lims)"

definition cluster_NewForConfigOrDie ::
    "rest_api \<Rightarrow> client_cache_api \<Rightarrow> rest_config \<Rightarrow> limiters \<Rightarrow> ClusterClientset option \<times> limiters" where
  "cluster_NewForConfigOrDie ra K c lims =
     (case cluster_NewForConfig ra K c lims of (r, lims1) \<Rightarrow> (or_die r, lims1))"

definition clientset_Cluster ::
    "rest_api \<Rightarrow> client_cache_api \<Rightarrow> cluster_path \<Rightarrow> ClusterClientset \<Rightarrow> limiters
      \<Rightarrow> Clientset answer \<times> ClusterClientset \<times> limiters" where
  "clientset_Cluster ra K clusterPath c lims =
     (if clusterPath = Wildcard
      then (Panicked ''A specific cluster must be provided when scoping, not the wildcard.'', c, lims)
      else case ClusterOrDie (cc_Clientsets K) (NewForConfigAndClient ra) clusterPath (ccs_clientCache c) lims of
             (a, ca, lims1) \<Rightarrow> (a, c\<lparr>ccs_clientCache := ca\<rparr>, lims1))"


section \<open>Every sequence of uses\<close>

text \<open>What callers do with a clientset: scope it, or scope its typed client, or list everywhere.\<close>

datatype clientset_use = UseClientset cluster_path | UseTyped cluster_path | UseSlices cluster_path | UseAll

fun use_clientset ::
    "rest_api \<Rightarrow> client_cache_api \<Rightarrow> ClusterClientset \<times> limiters \<Rightarrow> clientset_use \<Rightarrow> ClusterClientset \<times> limiters"
  where
  "use_clientset ra K (cs, lims) (UseClientset p) = snd (clientset_Cluster ra K p cs lims)"
| "use_clientset ra K (cs, lims) (UseTyped p) =
     (case cluster_typed_Cluster ra K p (ccs_filteredvwV1alpha1 cs) lims of
        (_, ca, lims1) \<Rightarrow> (cs\<lparr>ccs_filteredvwV1alpha1 := ca\<rparr>, lims1))"
| "use_clientset ra K (cs, lims) (UseSlices p) =
     (case slices_cluster_Cluster ra K p (ccs_filteredvwV1alpha1 cs) lims of
        (_, ca, lims1) \<Rightarrow> (cs\<lparr>ccs_filteredvwV1alpha1 := ca\<rparr>, lims1))"
| "use_clientset ra K (cs, lims) UseAll =
     (case slices_cluster_all ra K (ccs_filteredvwV1alpha1 cs) lims of
        (_, ca, lims1) \<Rightarrow> (cs\<lparr>ccs_filteredvwV1alpha1 := ca\<rparr>, lims1))"

definition scoped :: "(cluster_path \<Rightarrow> string \<Rightarrow> string) \<Rightarrow> cluster_path \<Rightarrow> rest_config \<Rightarrow> rest_config" where
  "scoped scope p c = c\<lparr>rf_Host := scope p (rf_Host c)\<rparr>"

lemma scoped_simps [simp]:
  "rf_RateLimiter (scoped scope p c) = rf_RateLimiter c" "rf_QPS (scoped scope p c) = rf_QPS c"
  "rf_Burst (scoped scope p c) = rf_Burst c" "rf_Host (scoped scope p c) = scope p (rf_Host c)"
  by (simp_all add: scoped_def)

text \<open>
  The clients a cache holds: each has a property \<open>I\<close> for its cluster and the limiters made so
  far, and any two of different clusters are related by \<open>J\<close>. The contract is what the
  constructor establishes; both caches of a clientset are instances.
\<close>

locale cached_clients =
  fixes constr :: "'c constructor" and scope :: "cluster_path \<Rightarrow> string \<Rightarrow> string"
    and c :: rest_config and h :: nat and lims0 :: limiters
    and I :: "cluster_path \<Rightarrow> 'c \<Rightarrow> limiters \<Rightarrow> bool" and J :: "'c \<Rightarrow> 'c \<Rightarrow> bool"
  assumes made: "prefix lims0 lims \<Longrightarrow> constr (scoped scope p c) h lims = (Inr client, lims1) \<Longrightarrow>
      I p client lims1 \<and> (\<forall>q other. I q other lims \<longrightarrow> J client other \<and> J other client)"
    and grows: "constr (scoped scope p c) h lims = (r, lims1) \<Longrightarrow> prefix lims lims1"
    and mono: "prefix lims lims1 \<Longrightarrow> I p client lims \<Longrightarrow> I p client lims1"
begin

definition cache_inv :: "'c client_cache \<Rightarrow> limiters \<Rightarrow> bool" where
  "cache_inv ca lims \<longleftrightarrow> ca_Config ca = c \<and> ca_Client ca = h \<and> prefix lims0 lims
     \<and> (\<forall>p client. ca_Clients ca p = Some client \<longrightarrow> I p client lims)
     \<and> (\<forall>p q x y. p \<noteq> q \<longrightarrow> ca_Clients ca p = Some x \<longrightarrow> ca_Clients ca q = Some y \<longrightarrow> J x y)"

lemma cache_inv_new: "prefix lims0 lims \<Longrightarrow> cache_inv (NewCache c h) lims"
  by (simp add: cache_inv_def NewCache_def)

lemma cache_inv_grow: "cache_inv ca lims \<Longrightarrow> prefix lims lims1 \<Longrightarrow> cache_inv ca lims1"
  using mono [of lims lims1] prefix_order.trans [of lims0 lims lims1] by (simp add: cache_inv_def)

lemma cache_inv_hit:
  "cache_inv ca lims \<Longrightarrow> ca_Clients ca p = Some client \<Longrightarrow> I p client lims"
  by (simp add: cache_inv_def)

lemma cache_inv_add:
  assumes inv: "cache_inv ca lims" and miss: "ca_Clients ca p = None"
    and run: "constr (scoped scope p c) h lims = (Inr client, lims1)"
  shows "cache_inv (ca\<lparr>ca_Clients := (ca_Clients ca)(p \<mapsto> client)\<rparr>) lims1"
proof -
  have pre: "prefix lims0 lims" using inv by (simp add: cache_inv_def)
  note new = made [OF pre run]
  have "cache_inv ca lims1" using inv grows [OF run] by (rule cache_inv_grow)
  moreover have "J client y \<and> J y client" if "ca_Clients ca q = Some y" for q y
    using new cache_inv_hit [OF inv that] by blast
  ultimately show ?thesis using new by (auto simp: cache_inv_def)
qed

text \<open>Looking a cluster up keeps the invariant, and returns what the cache then holds.\<close>

lemma look_inv:
  assumes law: "cache_law scope look" and inv: "cache_inv ca lims"
    and run: "look p constr ca lims = (r, ca1, lims1)"
  shows "cache_inv ca1 lims1 \<and> prefix lims lims1
    \<and> (\<forall>client. r = Inr client \<longrightarrow> ca_Clients ca1 p = Some client)"
proof -
  have config: "(ca_Config ca)\<lparr>rf_Host := scope p (rf_Host (ca_Config ca))\<rparr> = scoped scope p c" "ca_Client ca = h"
    using inv by (simp_all add: cache_inv_def scoped_def)
  have look: "look p constr ca lims =
      (case ca_Clients ca p of
         Some client \<Rightarrow> (Inr client, ca, lims)
       | None \<Rightarrow>
           (case constr (scoped scope p c) h lims of
              (Inl err, lims1) \<Rightarrow> (Inl err, ca, lims1)
            | (Inr client, lims1) \<Rightarrow>
                (Inr client, ca\<lparr>ca_Clients := (ca_Clients ca)(p \<mapsto> client)\<rparr>, lims1)))"
    using law unfolding cache_law_def config [symmetric] by blast
  show ?thesis
  proof (cases "ca_Clients ca p")
    case (Some client)
    then show ?thesis using run look inv by auto
  next
    case None
    obtain r' l' where made: "constr (scoped scope p c) h lims = (r', l')" by force
    then show ?thesis
      using run look None grows [OF made] cache_inv_grow [OF inv, of l'] cache_inv_add [OF inv None, of _ l']
      by (cases r') auto
  qed
qed

lemma ClusterOrDie_inv:
  assumes "cache_law scope look" and "cache_inv ca lims"
    and "ClusterOrDie look constr p ca lims = (a, ca1, lims1)"
  shows "cache_inv ca1 lims1 \<and> prefix lims lims1
    \<and> (\<forall>client err. a = Answer (Some client) err \<longrightarrow> ca_Clients ca1 p = Some client)"
proof -
  obtain r ca' l' where run: "look p constr ca lims = (r, ca', l')" by (metis prod_cases3)
  note inv = look_inv [OF assms(1,2) run]
  show ?thesis using assms(3) inv by (cases r) (auto simp: ClusterOrDie_def run)
qed

end

text \<open>The configuration a client of a cluster is made from, but for the limiter.\<close>

definition own_limiter :: "rest_config \<Rightarrow> bool" where
  "own_limiter c \<longleftrightarrow> rf_RateLimiter c = None \<and> rf_QPS c > 0"

definition limiter_of :: "Clientset \<Rightarrow> nat option" where
  "limiter_of cs = rf_RateLimiter (cl_Config (cs_filteredvwV1alpha1 cs))"

definition clientset_for ::
    "rest_api \<Rightarrow> (cluster_path \<Rightarrow> string \<Rightarrow> string) \<Rightarrow> rest_config \<Rightarrow> nat \<Rightarrow> limiters
      \<Rightarrow> cluster_path \<Rightarrow> Clientset \<Rightarrow> limiters \<Rightarrow> bool" where
  "clientset_for ra scope c h lims0 p cs lims \<longleftrightarrow>
     (\<exists>l. cs_filteredvwV1alpha1 cs
            = \<lparr>cl_Config = setConfigDefaults ra ((scoped scope p c)\<lparr>rf_RateLimiter := l\<rparr>), cl_HTTP = h\<rparr>
        \<and> (own_limiter c \<longrightarrow> (\<exists>k. l = Some k \<and> length lims0 \<le> k \<and> k < length lims))
        \<and> (\<not> own_limiter c \<longrightarrow> l = rf_RateLimiter c))"

definition typed_for ::
    "rest_api \<Rightarrow> (cluster_path \<Rightarrow> string \<Rightarrow> string) \<Rightarrow> rest_config \<Rightarrow> nat
      \<Rightarrow> cluster_path \<Rightarrow> rest_client \<Rightarrow> limiters \<Rightarrow> bool" where
  "typed_for ra scope c h p client lims \<longleftrightarrow>
     client = \<lparr>cl_Config = setConfigDefaults ra (scoped scope p c), cl_HTTP = h\<rparr>"

lemma setConfigDefaults_limiter [simp]: "rf_RateLimiter (setConfigDefaults ra c) = rf_RateLimiter c"
  by (simp add: setConfigDefaults_def Let_def)

lemma with_rate_limiter_cases:
  assumes "with_rate_limiter c lims = (r, lims1)"
  shows "prefix lims lims1"
    and "r = Inr c' \<Longrightarrow> own_limiter c \<Longrightarrow> c' = c\<lparr>rf_RateLimiter := Some (length lims)\<rparr> \<and> length lims1 = Suc (length lims)"
    and "r = Inr c' \<Longrightarrow> \<not> own_limiter c \<Longrightarrow> c' = c \<and> lims1 = lims"
  using assms by (auto simp: with_rate_limiter_def own_limiter_def split: if_splits)

lemma own_limiter_scoped [simp]: "own_limiter (scoped scope p c) = own_limiter c"
  by (simp add: own_limiter_def)

lemma NewForConfigAndClient_cases:
  assumes "NewForConfigAndClient ra c h lims = (r, lims1)"
  shows "prefix lims lims1"
    and "r = Inr cs \<Longrightarrow> \<exists>c'. with_rate_limiter c lims = (Inr c', lims1)
      \<and> cs_filteredvwV1alpha1 cs = \<lparr>cl_Config = setConfigDefaults ra c', cl_HTTP = h\<rparr>
      \<and> cs_DiscoveryClient cs = \<lparr>cl_Config = c', cl_HTTP = h\<rparr>"
proof -
  obtain r1 l1 where w: "with_rate_limiter c lims = (r1, l1)" by force
  show "prefix lims lims1"
    using assms with_rate_limiter_cases(1) [OF w]
    by (auto simp: NewForConfigAndClient_def w split: sum.splits option.splits)
  show "r = Inr cs \<Longrightarrow> \<exists>c'. with_rate_limiter c lims = (Inr c', lims1)
      \<and> cs_filteredvwV1alpha1 cs = \<lparr>cl_Config = setConfigDefaults ra c', cl_HTTP = h\<rparr>
      \<and> cs_DiscoveryClient cs = \<lparr>cl_Config = c', cl_HTTP = h\<rparr>"
    using assms
    by (auto simp: NewForConfigAndClient_def w typed_NewForConfigAndClient_def Let_def
        split: sum.splits option.splits)
qed

interpretation clientsets: cached_clients "NewForConfigAndClient ra" scope c h lims0
  "clientset_for ra scope c h lims0" "\<lambda>a b. own_limiter c \<longrightarrow> limiter_of a \<noteq> limiter_of b"
proof
  show "prefix lims lims1" if "NewForConfigAndClient ra (scoped scope p c) h lims = (r, lims1)" for p lims r lims1
    using that by (rule NewForConfigAndClient_cases(1))
  show "clientset_for ra scope c h lims0 p client lims1"
    if "prefix lims lims1" "clientset_for ra scope c h lims0 p client lims" for lims lims1 p client
    using that prefix_length_le [OF that(1)] unfolding clientset_for_def by fastforce
  show "clientset_for ra scope c h lims0 p client lims1
      \<and> (\<forall>q other. clientset_for ra scope c h lims0 q other lims \<longrightarrow>
           (own_limiter c \<longrightarrow> limiter_of client \<noteq> limiter_of other)
           \<and> (own_limiter c \<longrightarrow> limiter_of other \<noteq> limiter_of client))"
    if pre: "prefix lims0 lims" and run: "NewForConfigAndClient ra (scoped scope p c) h lims = (Inr client, lims1)"
    for p lims client lims1
  proof -
    obtain c' where c': "with_rate_limiter (scoped scope p c) lims = (Inr c', lims1)"
      "cs_filteredvwV1alpha1 client = \<lparr>cl_Config = setConfigDefaults ra c', cl_HTTP = h\<rparr>"
      using NewForConfigAndClient_cases(2) [OF run refl] by blast
    note w = with_rate_limiter_cases(2,3) [OF c'(1) refl, simplified]
    have le: "length lims0 \<le> length lims" using pre by (rule prefix_length_le)
    show ?thesis
    proof (cases "own_limiter c")
      case True
      then show ?thesis using c'(2) w le by (auto simp: clientset_for_def limiter_of_def)
    next
      case False
      then have "c' = (scoped scope p c)\<lparr>rf_RateLimiter := rf_RateLimiter c\<rparr>" using w by (simp add: scoped_def)
      with False c'(2) show ?thesis by (auto simp: clientset_for_def)
    qed
  qed
qed

interpretation typed_clients: cached_clients "typed_constructor ra" scope c h lims0
  "typed_for ra scope c h" "\<lambda>_ _. True"
  by unfold_locales
    (auto simp: typed_constructor_def typed_for_def typed_NewForConfigAndClient_def Let_def split: option.splits)


section \<open>The invariant of a clientset\<close>

abbreviation clientsets_ok where
  "clientsets_ok ra scope c h lims0 \<equiv> cached_clients.cache_inv c h lims0
     (clientset_for ra scope c h lims0) (\<lambda>a b. own_limiter c \<longrightarrow> limiter_of a \<noteq> limiter_of b)"

abbreviation typed_ok where
  "typed_ok ra scope c h lims0 \<equiv> cached_clients.cache_inv c h lims0 (typed_for ra scope c h) (\<lambda>_ _. True)"

text \<open>
  The cache of clientsets is for the configuration of the caller, the typed one for the
  configuration with the limiter.
\<close>

definition clientset_ok ::
    "rest_api \<Rightarrow> (cluster_path \<Rightarrow> string \<Rightarrow> string) \<Rightarrow> rest_config \<Rightarrow> rest_config \<Rightarrow> nat \<Rightarrow> limiters
      \<Rightarrow> ClusterClientset \<Rightarrow> limiters \<Rightarrow> bool" where
  "clientset_ok ra scope c c' h lims0 cs lims \<longleftrightarrow>
     clientsets_ok ra scope c h lims0 (ccs_clientCache cs) lims
     \<and> typed_ok ra scope c' h lims0 (ccs_filteredvwV1alpha1 cs) lims"

definition cache_laws :: "(cluster_path \<Rightarrow> string \<Rightarrow> string) \<Rightarrow> client_cache_api \<Rightarrow> bool" where
  "cache_laws scope K \<longleftrightarrow> cache_law scope (cc_Clientsets K) \<and> cache_law scope (cc_Typed K)"

lemma cluster_clientset_made:
  assumes laws: "cache_laws scope K"
    and run: "cluster_NewForConfigAndClient ra K c h lims = (Inr cs, lims3)"
    and lim: "with_rate_limiter c lims = (Inr c', lims1)"
  shows "clientset_ok ra scope c c' h lims1 cs lims3"
proof -
  have laws': "cache_law scope (cc_Clientsets K)" "cache_law scope (cc_Typed K)"
    using laws by (simp_all add: cache_laws_def)
  obtain r1 cache lims2 where root: "cc_Clientsets K (ClusterPath ''root'') (NewForConfigAndClient ra) (NewCache c h) lims1
      = (r1, cache, lims2)" by (metis prod_cases3)
  have new1: "clientsets_ok ra scope c h lims1 (NewCache c h) lims1"
    by (rule clientsets.cache_inv_new) simp
  note inv1 = clientsets.look_inv [OF laws'(1) new1 root]
  obtain r2 ca l' where troot: "cc_Typed K (ClusterPath ''root'') (typed_constructor ra) (NewCache c' h) lims2 = (r2, ca, l')"
    by (metis prod_cases3)
  have new2: "typed_ok ra scope c' h lims1 (NewCache c' h) lims2"
    by (rule typed_clients.cache_inv_new) (use inv1 in blast)
  note inv2 = typed_clients.look_inv [OF laws'(2) new2 troot]
  have "ccs_clientCache cs = cache \<and> ccs_filteredvwV1alpha1 cs = ca \<and> lims3 = l'"
    using run by (auto simp: cluster_NewForConfigAndClient_def lim root cluster_typed_NewForConfigAndClient_def
        troot split: sum.splits option.splits)
  moreover have "clientsets_ok ra scope c h lims1 cache l'"
    by (rule clientsets.cache_inv_grow) (use inv1 inv2 in blast)+
  ultimately show ?thesis using inv2 by (simp add: clientset_ok_def)
qed

lemma clientset_Cluster_ok:
  assumes laws: "cache_laws scope K" and inv: "clientset_ok ra scope c c' h lims0 cs lims"
    and run: "clientset_Cluster ra K p cs lims = (a, cs1, lims1)"
  shows "clientset_ok ra scope c c' h lims0 cs1 lims1
    \<and> (\<forall>client err. a = Answer (Some client) err \<longrightarrow> clientset_for ra scope c h lims0 p client lims1)"
proof (cases "p = Wildcard")
  case True
  then show ?thesis using run inv by (auto simp: clientset_Cluster_def)
next
  case False
  obtain a' ca l' where die: "ClusterOrDie (cc_Clientsets K) (NewForConfigAndClient ra) p (ccs_clientCache cs) lims
      = (a', ca, l')" by (metis prod_cases3)
  have i: "clientsets_ok ra scope c h lims0 (ccs_clientCache cs) lims"
    and t: "typed_ok ra scope c' h lims0 (ccs_filteredvwV1alpha1 cs) lims"
    using inv by (simp_all add: clientset_ok_def)
  have law: "cache_law scope (cc_Clientsets K)" using laws by (simp add: cache_laws_def)
  note die_inv = clientsets.ClusterOrDie_inv [OF law i die]
  have "typed_ok ra scope c' h lims0 (ccs_filteredvwV1alpha1 cs) l'"
    by (rule typed_clients.cache_inv_grow [OF t]) (use die_inv in blast)
  with die_inv run False die clientsets.cache_inv_hit [of c h lims0 ra scope ca l' p] show ?thesis
    by (auto simp: clientset_Cluster_def clientset_ok_def)
qed

text \<open>Every use of the typed caches.\<close>

lemma typed_ClusterOrDie_ok:
  assumes laws: "cache_laws scope K" and inv: "clientset_ok ra scope c c' h lims0 cs lims"
    and run: "ClusterOrDie (cc_Typed K) (typed_constructor ra) p (ccs_filteredvwV1alpha1 cs) lims = (a, ca, lims1)"
  shows "clientset_ok ra scope c c' h lims0 (cs\<lparr>ccs_filteredvwV1alpha1 := ca\<rparr>) lims1
    \<and> (\<forall>client err. a = Answer (Some client) err \<longrightarrow> typed_for ra scope c' h p client lims1)"
proof -
  have i: "clientsets_ok ra scope c h lims0 (ccs_clientCache cs) lims"
    and t: "typed_ok ra scope c' h lims0 (ccs_filteredvwV1alpha1 cs) lims"
    using inv by (simp_all add: clientset_ok_def)
  have law: "cache_law scope (cc_Typed K)" using laws by (simp add: cache_laws_def)
  note die_inv = typed_clients.ClusterOrDie_inv [OF law t run]
  have "clientsets_ok ra scope c h lims0 (ccs_clientCache cs) lims1"
    by (rule clientsets.cache_inv_grow [OF i]) (use die_inv in blast)
  with die_inv typed_clients.cache_inv_hit [of c' h lims0 ra scope ca lims1 p] show ?thesis
    by (auto simp: clientset_ok_def)
qed

lemma clientset_ok_refl [simp]: "cs\<lparr>ccs_filteredvwV1alpha1 := ccs_filteredvwV1alpha1 cs\<rparr> = cs"
  by simp

lemma use_clientset_ok:
  assumes laws: "cache_laws scope K" and inv: "clientset_ok ra scope c c' h lims0 (fst s) (snd s)"
  shows "clientset_ok ra scope c c' h lims0 (fst (use_clientset ra K s u)) (snd (use_clientset ra K s u))"
proof -
  obtain cs lims where s: "s = (cs, lims)" by (cases s)
  note inv = inv [unfolded s fst_conv snd_conv]
  have typed: "clientset_ok ra scope c c' h lims0 (cs\<lparr>ccs_filteredvwV1alpha1 := fst (snd x)\<rparr>) (snd (snd x))"
    if "x = ClusterOrDie (cc_Typed K) (typed_constructor ra) p (ccs_filteredvwV1alpha1 cs) lims" for x p
    using typed_ClusterOrDie_ok [OF laws inv, of p "fst x" "fst (snd x)" "snd (snd x)"] that by simp
  show ?thesis
  proof (cases u)
    case (UseClientset p)
    then show ?thesis
      using clientset_Cluster_ok [OF laws inv, of p] by (cases "clientset_Cluster ra K p cs lims") (simp add: s)
  next
    case (UseTyped p)
    show ?thesis
      using typed [OF refl, of p] inv
      by (cases "ClusterOrDie (cc_Typed K) (typed_constructor ra) p (ccs_filteredvwV1alpha1 cs) lims")
        (simp add: s UseTyped cluster_typed_Cluster_def)
  next
    case (UseSlices p)
    show ?thesis
      using typed [OF refl, of p] inv
      by (cases "ClusterOrDie (cc_Typed K) (typed_constructor ra) p (ccs_filteredvwV1alpha1 cs) lims")
        (simp add: s UseSlices slices_cluster_Cluster_def)
  next
    case UseAll
    show ?thesis
      using typed [OF refl, of Wildcard]
      by (cases "ClusterOrDie (cc_Typed K) (typed_constructor ra) Wildcard (ccs_filteredvwV1alpha1 cs) lims")
        (simp add: s UseAll slices_cluster_all_def)
  qed
qed

lemma uses_clientset_ok:
  assumes "cache_laws scope K" and "clientset_ok ra scope c c' h lims0 (fst s) (snd s)"
  shows "clientset_ok ra scope c c' h lims0 (fst (foldl (use_clientset ra K) s us)) (snd (foldl (use_clientset ra K) s us))"
  using assms(2)
proof (induction us arbitrary: s)
  case (Cons u us)
  from Cons.IH [OF use_clientset_ok [OF assms(1) Cons.prems, of u]] show ?case by simp
qed simp


section \<open>Properties\<close>

text \<open>The clients of a clientset after any uses of it.\<close>

lemma used_clientset_ok:
  assumes laws: "cache_laws scope K"
    and created: "cluster_NewForConfigAndClient ra K c h lims = (Inr cs0, lims0)"
    and uses: "foldl (use_clientset ra K) (cs0, lims0) us = (cs, lims1)"
  obtains c' limsA where "with_rate_limiter c lims = (Inr c', limsA)" "clientset_ok ra scope c c' h limsA cs lims1"
proof -
  obtain c' limsA where lim: "with_rate_limiter c lims = (Inr c', limsA)"
    using created by (auto simp: cluster_NewForConfigAndClient_def split: prod.splits sum.splits)
  have "clientset_ok ra scope c c' h limsA cs0 lims0"
    using laws created lim by (rule cluster_clientset_made)
  then show thesis
    using uses_clientset_ok [OF laws, of ra c c' h limsA "(cs0, lims0)" us] uses lim that by simp
qed

lemma cluster_typed_Cluster_for:
  assumes laws: "cache_laws scope K" and inv: "clientset_ok ra scope c c' h lims0 cs lims"
    and run: "cluster_typed_Cluster ra K p (ccs_filteredvwV1alpha1 cs) lims = (Answer (Some t) err, ca, lims1)"
  shows "t = \<lparr>cl_Config = setConfigDefaults ra (scoped scope p c'), cl_HTTP = h\<rparr>"
proof -
  have "ClusterOrDie (cc_Typed K) (typed_constructor ra) p (ccs_filteredvwV1alpha1 cs) lims
      = (Answer (Some t) err, ca, lims1)"
    using run by (auto simp: cluster_typed_Cluster_def split: if_splits)
  from typed_ClusterOrDie_ok [OF laws inv this] show ?thesis by (simp add: typed_for_def)
qed


text \<open>The example: a cache that does what the law says, and a REST library without errors.\<close>

definition ref_lookup :: "(cluster_path \<Rightarrow> string \<Rightarrow> string) \<Rightarrow> 'c cache_lookup" where
  "ref_lookup scope path constr ca lims =
     (case ca_Clients ca path of
        Some client \<Rightarrow> (Inr client, ca, lims)
      | None \<Rightarrow>
          (case constr ((ca_Config ca)\<lparr>rf_Host := scope path (rf_Host (ca_Config ca))\<rparr>) (ca_Client ca) lims of
             (Inl err, lims1) \<Rightarrow> (Inl err, ca, lims1)
           | (Inr client, lims1) \<Rightarrow>
               (Inr client, ca\<lparr>ca_Clients := (ca_Clients ca)(path \<mapsto> client)\<rparr>, lims1)))"

fun w_scope :: "cluster_path \<Rightarrow> string \<Rightarrow> string" where
  "w_scope Wildcard host = host @ ''/clusters/*''"
| "w_scope (ClusterPath p) host = host @ ''/clusters/'' @ p"

definition w_cache_api :: client_cache_api where
  "w_cache_api = \<lparr>cc_Clientsets = ref_lookup w_scope, cc_Typed = ref_lookup w_scope\<rparr>"

lemma w_cache_laws: "cache_laws w_scope w_cache_api"
  by (simp add: cache_laws_def cache_law_def w_cache_api_def ref_lookup_def)

definition w_rest :: rest_api where
  "w_rest = \<lparr>ra_DefaultKubernetesUserAgent = ''go'', ra_HTTPClientFor = (\<lambda>_. Inr 3),
     ra_RESTClientForConfigAndClient = (\<lambda>_ _. None), ra_NewDiscoveryClient = (\<lambda>_ _. None), ra_Codecs = 1\<rparr>"

definition w_config :: rest_config where
  "w_config = \<lparr>rf_Host = ''https://kcp'', rf_APIPath = '''', rf_GroupVersion = None, rf_NegotiatedSerializer = None,
     rf_UserAgent = '''', rf_QPS = 5, rf_Burst = 10, rf_RateLimiter = None\<rparr>"

lemmas w_clientset_eval = cluster_NewForConfigAndClient_def cluster_typed_NewForConfigAndClient_def
  NewForConfigAndClient_def typed_NewForConfigAndClient_def typed_constructor_def with_rate_limiter_def
  w_cache_api_def ref_lookup_def NewCache_def w_rest_def w_config_def Let_def clientset_Cluster_def
  cluster_typed_Cluster_def ClusterOrDie_def setConfigDefaults_def limiter_of_def

definition w_clientset :: "ClusterClientset \<times> limiters" where
  "w_clientset = (case cluster_NewForConfigAndClient w_rest w_cache_api w_config 3 [] of
     (r, lims) \<Rightarrow> (projr r, lims))"

lemma w_clientset:
  "cluster_NewForConfigAndClient w_rest w_cache_api w_config 3 [] = (Inr (fst w_clientset), snd w_clientset)"
  by (simp add: w_clientset_def w_clientset_eval)

definition w_used :: "ClusterClientset \<times> limiters" where
  "w_used = foldl (use_clientset w_rest w_cache_api) w_clientset [UseClientset (ClusterPath ''root:a''), UseAll]"


text \<open>
  After any uses of a clientset, scoping the clientset to a cluster and scoping its typed
  client to that cluster give typed clients of the same HTTP client and configuration, but for
  the rate limiter: the host scoped to the cluster, the API path and group version of the API.
\<close>

theorem clientset_routes_agree:
  assumes laws: "cache_laws scope K"
    and created: "cluster_NewForConfigAndClient ra K c h lims = (Inr cs0, lims0)"
    and uses: "foldl (use_clientset ra K) (cs0, lims0) us = (cs, lims1)"
    and whole: "clientset_Cluster ra K p cs lims1 = (Answer (Some a) err, cs1, lims2)"
    and typed: "cluster_typed_Cluster ra K p (ccs_filteredvwV1alpha1 cs) lims1 = (Answer (Some t) err', ca, lims3)"
  shows "(cl_Config (cs_filteredvwV1alpha1 a))\<lparr>rf_RateLimiter := None\<rparr> = (cl_Config t)\<lparr>rf_RateLimiter := None\<rparr>
    \<and> cl_HTTP (cs_filteredvwV1alpha1 a) = h \<and> cl_HTTP t = h
    \<and> rf_Host (cl_Config t) = scope p (rf_Host c) \<and> rf_APIPath (cl_Config t) = ''/apis''
    \<and> (\<not> own_limiter c \<longrightarrow> cs_filteredvwV1alpha1 a = t)"
proof -
  obtain c' limsA where lim: "with_rate_limiter c lims = (Inr c', limsA)"
    and inv: "clientset_ok ra scope c c' h limsA cs lims1"
    using laws created uses by (rule used_clientset_ok)
  obtain l where l: "c' = c\<lparr>rf_RateLimiter := l\<rparr>" "\<not> own_limiter c \<longrightarrow> l = rf_RateLimiter c"
    using with_rate_limiter_cases(2,3) [OF lim refl] by (cases "own_limiter c") auto
  have t: "t = \<lparr>cl_Config = setConfigDefaults ra (scoped scope p c'), cl_HTTP = h\<rparr>"
    using laws inv typed by (rule cluster_typed_Cluster_for)
  have "clientset_for ra scope c h limsA p a lims2"
    using clientset_Cluster_ok [OF laws inv whole] by blast
  then obtain l2 where "cs_filteredvwV1alpha1 a
      = \<lparr>cl_Config = setConfigDefaults ra ((scoped scope p c)\<lparr>rf_RateLimiter := l2\<rparr>), cl_HTTP = h\<rparr>"
      "\<not> own_limiter c \<longrightarrow> l2 = rf_RateLimiter c"
    by (auto simp: clientset_for_def)
  with t l show ?thesis by (simp add: setConfigDefaults_def Let_def scoped_def)
qed

theorem clientset_routes_agree_witness:
  "\<exists>a cs1 l. clientset_Cluster w_rest w_cache_api (ClusterPath ''root:a'') (fst w_used) (snd w_used)
     = (Answer (Some a) None, cs1, l) \<and> cl_HTTP (cs_filteredvwV1alpha1 a) = 3"
proof -
  have a: "\<exists>a cs1 l. clientset_Cluster w_rest w_cache_api (ClusterPath ''root:a'') (fst w_used) (snd w_used)
     = (Answer (Some a) None, cs1, l)"
    by (simp add: w_used_def w_clientset_def w_clientset_eval slices_cluster_all_def)
  have t: "\<exists>t ca l. cluster_typed_Cluster w_rest w_cache_api (ClusterPath ''root:a'')
      (ccs_filteredvwV1alpha1 (fst w_used)) (snd w_used) = (Answer (Some t) None, ca, l)"
    by (simp add: w_used_def w_clientset_def w_clientset_eval slices_cluster_all_def)
  have uses: "foldl (use_clientset w_rest w_cache_api) (fst w_clientset, snd w_clientset)
      [UseClientset (ClusterPath ''root:a''), UseAll] = (fst w_used, snd w_used)"
    by (simp add: w_used_def)
  from a t clientset_routes_agree [OF w_cache_laws w_clientset uses] show ?thesis by blast
qed

end
