(* ===== verification/Startup.thy ===== *)
theory Startup
  imports Clientsets Server
begin

text \<open>
  The first half of \<open>Run\<close> (\<open>cmd/filtered-apiexport-vw/command/cmd.go\<close>) with its data: which
  configuration every client and informer factory is made from, and what the controllers and the
  virtual workspaces are handed. \<open>Server.run_clients\<close> has the same steps as a sequence; this
  theory shows the two agree. Loading kubeconfig files, parsing URLs and kcp's clients are
  parameters; the client of the endpoint slices is the generated clientset of \<open>Clientsets\<close>.
\<close>

section \<open>The data flow\<close>

record 'k startup_lib =
  su_GetStartingConfig :: "string \<Rightarrow> go_error + 'k"         \<comment> \<open>of the explicit path\<close>
  su_ClientConfig :: "'k \<Rightarrow> string \<Rightarrow> go_error + rest_config" \<comment> \<open>with the current context\<close>
  su_CacheRestConfig :: "Options \<Rightarrow> rest_config \<Rightarrow> go_error + rest_config"
  su_NewKcpClient :: "rest_config \<Rightarrow> go_error option"
  su_NewKubeClient :: "rest_config \<Rightarrow> go_error option"
  su_HostWithoutPath :: "string \<Rightarrow> go_error + string"       \<comment> \<open>parse, clear the path, print\<close>
  su_WithWildcardIdentities :: "rest_config \<Rightarrow> rest_config"
  su_PollIdentities :: "go_error option"

definition and_then :: "go_error + 'a \<Rightarrow> ('a \<Rightarrow> go_error + 'b) \<Rightarrow> go_error + 'b" where
  "and_then r f = (case r of Inl err \<Rightarrow> Inl err | Inr x \<Rightarrow> f x)"

definition check :: "go_error option \<Rightarrow> 'a \<Rightarrow> go_error + 'a" where
  "check e x = (case e of Some err \<Rightarrow> Inl err | None \<Rightarrow> Inr x)"

text \<open>A client configuration is the starting configuration with the context that overrides it.\<close>

definition readKubeConfig :: "'k startup_lib \<Rightarrow> string \<Rightarrow> string \<Rightarrow> go_error + ('k \<times> string)" where
  "readKubeConfig L kubeConfigFile context =
     (case su_GetStartingConfig L kubeConfigFile of
        Inl err \<Rightarrow> Inl err
      | Inr startingConfig \<Rightarrow> Inr (startingConfig, context))"

definition ClientConfig :: "'k startup_lib \<Rightarrow> 'k \<times> string \<Rightarrow> go_error + rest_config" where
  "ClientConfig L k = su_ClientConfig L (fst k) (snd k)"

datatype informer_factory = LocalKcpInformers | CacheKcpInformers

record started =
  sd_localShardIdentityConfig :: rest_config
  sd_localShardNonIdentityConfig :: rest_config
  sd_frontProxyNonIdentityConfig :: rest_config
  sd_filteredAPIExportClusterClient :: ClusterClientset
  sd_cacheConfig :: "rest_config option"
  sd_cacheKcpInformers :: informer_factory    \<comment> \<open>which factory the variable holds\<close>

text \<open>\<open>Don't throttle\<close>, and the host without its path.\<close>

definition unthrottled :: "string \<Rightarrow> rest_config \<Rightarrow> rest_config" where
  "unthrottled host c = c\<lparr>rf_QPS := - 1, rf_Host := host\<rparr>"

definition cache_config ::
    "'k startup_lib \<Rightarrow> Options \<Rightarrow> bool \<Rightarrow> 'k \<times> string \<Rightarrow> go_error + rest_config option" where
  "cache_config L o' cacheEnabled frontProxyKubeconfig =
     (if cacheEnabled then
        and_then (ClientConfig L frontProxyKubeconfig) (\<lambda>defaultCacheClientConfig.
        and_then (su_CacheRestConfig L o' defaultCacheClientConfig) (\<lambda>cacheConfig.
        check (su_NewKcpClient L cacheConfig) (Some cacheConfig)))
      else Inr None)"

definition start_clients ::
    "'k startup_lib \<Rightarrow> rest_api \<Rightarrow> client_cache_api \<Rightarrow> Options \<Rightarrow> limiters \<Rightarrow> go_error + started" where
  "start_clients L ra K o' lims =
     (let cacheEnabled = (length (op_Cache_KubeconfigFile o') > 0) in
      and_then (readKubeConfig L (op_LocalShardKubeconfigFile o') (op_Context o')) (\<lambda>localShardKubeconfig.
      and_then (ClientConfig L localShardKubeconfig) (\<lambda>local1.
      and_then (readKubeConfig L (op_FrontProxyKubeconfigFile o') (op_Context o')) (\<lambda>frontProxyKubeconfig.
      and_then (ClientConfig L frontProxyKubeconfig) (\<lambda>proxy1.
      and_then (readKubeConfig L (op_FilteredAPIExport_KubeconfigFile o') (op_Context o')) (\<lambda>filteredKubeconfig.
      and_then (ClientConfig L filteredKubeconfig) (\<lambda>filteredAPIExportConfig.
      and_then (fst (cluster_NewForConfig ra K filteredAPIExportConfig lims)) (\<lambda>filteredClient.
      and_then (cache_config L o' cacheEnabled frontProxyKubeconfig) (\<lambda>cacheConfig.
      and_then (su_HostWithoutPath L (rf_Host local1)) (\<lambda>localHost.
      and_then (su_HostWithoutPath L (rf_Host proxy1)) (\<lambda>proxyHost.
      let localConfig = unthrottled localHost local1; proxyConfig = unthrottled proxyHost proxy1 in
      and_then (check (su_NewKubeClient L localConfig) ()) (\<lambda>_.
      let identityConfig = su_WithWildcardIdentities L localConfig in
      and_then (check (map_option (Wrap ''failed to get or create identities: %w'' []) (su_PollIdentities L)) ()) (\<lambda>_.
      and_then (check (su_NewKcpClient L identityConfig) ()) (\<lambda>_.
      Inr \<lparr>sd_localShardIdentityConfig = identityConfig, sd_localShardNonIdentityConfig = localConfig,
           sd_frontProxyNonIdentityConfig = proxyConfig, sd_filteredAPIExportClusterClient = filteredClient,
           sd_cacheConfig = cacheConfig,
           sd_cacheKcpInformers = (if cacheEnabled then CacheKcpInformers else LocalKcpInformers)\<rparr>))))))))))))))"

text \<open>
  What the second half is called with: \<open>InstallControllers\<close>, and \<open>NewVirtualWorkspaces\<close> (the
  local and the filtered informers are always the same two).
\<close>

definition controller_arguments :: "started \<Rightarrow> rest_config \<times> rest_config" where
  "controller_arguments d = (sd_localShardIdentityConfig d, sd_frontProxyNonIdentityConfig d)"

definition workspace_arguments :: "Options \<Rightarrow> started \<Rightarrow> string \<times> rest_config \<times> informer_factory" where
  "workspace_arguments o' d = (op_RootPathPrefix o', sd_localShardIdentityConfig d, sd_cacheKcpInformers d)"

section \<open>The steps and their errors\<close>

definition err_of :: "go_error + 'a \<Rightarrow> go_error option" where
  "err_of r = (case r of Inl err \<Rightarrow> Some err | Inr _ \<Rightarrow> None)"

lemma err_of_simps [simp]:
  "err_of (Inl e) = Some e" "err_of (Inr x) = None"
  by (simp_all add: err_of_def)

lemma err_of_check [simp]: "err_of (check e x) = e"
  by (simp add: err_of_def check_def split: option.splits)

lemma and_then_simps [simp]: "and_then (Inl e) f = Inl e" "and_then (Inr x) f = f x"
  by (simp_all add: and_then_def)

lemma check_simps [simp]: "check (Some e) x = Inl e" "check None x = Inr x"
  by (simp_all add: check_def)

text \<open>The results of the steps of \<open>run_clients\<close>, each computed from the options.\<close>

definition client_config :: "'k startup_lib \<Rightarrow> Options \<Rightarrow> string \<Rightarrow> go_error + rest_config" where
  "client_config L o' file = and_then (readKubeConfig L file (op_Context o')) (ClientConfig L)"

definition unthrottled_config :: "'k startup_lib \<Rightarrow> Options \<Rightarrow> string \<Rightarrow> go_error + rest_config" where
  "unthrottled_config L o' file =
     and_then (client_config L o' file) (\<lambda>c.
     and_then (su_HostWithoutPath L (rf_Host c)) (\<lambda>host. Inr (unthrottled host c)))"

fun step_error ::
    "'k startup_lib \<Rightarrow> rest_api \<Rightarrow> client_cache_api \<Rightarrow> Options \<Rightarrow> limiters \<Rightarrow> run_step \<Rightarrow> go_error option" where
  "step_error L ra K o' lims ReadLocalShardKubeconfig =
     err_of (readKubeConfig L (op_LocalShardKubeconfigFile o') (op_Context o'))"
| "step_error L ra K o' lims LocalShardClientConfig = err_of (client_config L o' (op_LocalShardKubeconfigFile o'))"
| "step_error L ra K o' lims ReadFrontProxyKubeconfig =
     err_of (readKubeConfig L (op_FrontProxyKubeconfigFile o') (op_Context o'))"
| "step_error L ra K o' lims FrontProxyClientConfig = err_of (client_config L o' (op_FrontProxyKubeconfigFile o'))"
| "step_error L ra K o' lims ReadFilteredAPIExportKubeconfig =
     err_of (readKubeConfig L (op_FilteredAPIExport_KubeconfigFile o') (op_Context o'))"
| "step_error L ra K o' lims FilteredAPIExportClientConfig =
     err_of (client_config L o' (op_FilteredAPIExport_KubeconfigFile o'))"
| "step_error L ra K o' lims NewFilteredAPIExportClient =
     err_of (and_then (client_config L o' (op_FilteredAPIExport_KubeconfigFile o'))
       (\<lambda>c. fst (cluster_NewForConfig ra K c lims)))"
| "step_error L ra K o' lims DefaultCacheClientConfig = err_of (client_config L o' (op_FrontProxyKubeconfigFile o'))"
| "step_error L ra K o' lims CacheRestConfig =
     err_of (and_then (client_config L o' (op_FrontProxyKubeconfigFile o')) (su_CacheRestConfig L o'))"
| "step_error L ra K o' lims NewCacheClient =
     err_of (and_then (client_config L o' (op_FrontProxyKubeconfigFile o')) (\<lambda>c.
       and_then (su_CacheRestConfig L o' c) (\<lambda>cacheConfig. check (su_NewKcpClient L cacheConfig) ())))"
| "step_error L ra K o' lims ParseLocalShardHost = err_of (unthrottled_config L o' (op_LocalShardKubeconfigFile o'))"
| "step_error L ra K o' lims ParseFrontProxyHost = err_of (unthrottled_config L o' (op_FrontProxyKubeconfigFile o'))"
| "step_error L ra K o' lims NewLocalShardKubeClient =
     err_of (and_then (unthrottled_config L o' (op_LocalShardKubeconfigFile o'))
       (\<lambda>c. check (su_NewKubeClient L c) ()))"
| "step_error L ra K o' lims ResolveIdentities =
     map_option (Wrap ''failed to get or create identities: %w'' []) (su_PollIdentities L)"
| "step_error L ra K o' lims NewLocalKcpClient =
     err_of (and_then (unthrottled_config L o' (op_LocalShardKubeconfigFile o'))
       (\<lambda>c. check (su_NewKcpClient L (su_WithWildcardIdentities L c)) ()))"
| "step_error L ra K o' lims _ = None"

text \<open>Running a step whose result is checked.\<close>

lemma exec_step:
  "\<not> ignores_result s \<Longrightarrow> snd (exec result (s # ss)) = (case result s of Some e \<Rightarrow> Some e | None \<Rightarrow> snd (exec result ss))"
  by (auto split: prod.splits option.splits)

lemma exec_last: "snd (exec result [NewInformerFactories]) = None"
  by (simp add: ignores_result_def)

lemma err_of_and_then: "err_of (and_then r f) = (case r of Inl e \<Rightarrow> Some e | Inr x \<Rightarrow> err_of (f x))"
  by (cases r) simp_all

lemmas start_eval = run_clients_def exec_step exec_last start_clients_def cache_config_def Let_def
  client_config_def unthrottled_config_def err_of_and_then check_def

lemma checked_steps [simp]:
  "\<not> ignores_result ReadLocalShardKubeconfig" "\<not> ignores_result LocalShardClientConfig"
  "\<not> ignores_result ReadFrontProxyKubeconfig" "\<not> ignores_result FrontProxyClientConfig"
  "\<not> ignores_result ReadFilteredAPIExportKubeconfig" "\<not> ignores_result FilteredAPIExportClientConfig"
  "\<not> ignores_result NewFilteredAPIExportClient" "\<not> ignores_result DefaultCacheClientConfig"
  "\<not> ignores_result CacheRestConfig" "\<not> ignores_result NewCacheClient"
  "\<not> ignores_result ParseLocalShardHost" "\<not> ignores_result ParseFrontProxyHost"
  "\<not> ignores_result NewLocalShardKubeClient" "\<not> ignores_result ResolveIdentities"
  "\<not> ignores_result NewLocalKcpClient"
  by (simp_all add: ignores_result_def)

lemma start_refines:
  "snd (exec (step_error L ra K o' lims) (run_clients (length (op_Cache_KubeconfigFile o') > 0)))
     = err_of (start_clients L ra K o' lims)"
proof (cases "op_Cache_KubeconfigFile o' = []")
  case True
  then show ?thesis
    by (simp add: start_eval del: exec.simps split: sum.splits option.splits)
next
  case False
  then show ?thesis
    by (simp add: start_eval del: exec.simps split: sum.splits option.splits)
qed


lemma and_then_Inr: "and_then r f = Inr y \<longleftrightarrow> (\<exists>x. r = Inr x \<and> f x = Inr y)"
  by (cases r) simp_all

lemma check_Inr: "check e x = Inr y \<longleftrightarrow> e = None \<and> y = x"
  by (cases e) auto

text \<open>What a successful start hands on.\<close>

lemma started_configs:
  assumes "start_clients L ra K o' lims = Inr d"
  shows "unthrottled_config L o' (op_LocalShardKubeconfigFile o') = Inr (sd_localShardNonIdentityConfig d)
    \<and> unthrottled_config L o' (op_FrontProxyKubeconfigFile o') = Inr (sd_frontProxyNonIdentityConfig d)
    \<and> sd_localShardIdentityConfig d = su_WithWildcardIdentities L (sd_localShardNonIdentityConfig d)
    \<and> (\<exists>c. client_config L o' (op_FilteredAPIExport_KubeconfigFile o') = Inr c
         \<and> fst (cluster_NewForConfig ra K c lims) = Inr (sd_filteredAPIExportClusterClient d))
    \<and> (sd_cacheConfig d \<noteq> None \<longleftrightarrow> op_Cache_KubeconfigFile o' \<noteq> '''')
    \<and> sd_cacheKcpInformers d = (if op_Cache_KubeconfigFile o' \<noteq> '''' then CacheKcpInformers else LocalKcpInformers)"
  using assms
  by (auto simp: start_clients_def Let_def and_then_Inr check_Inr unthrottled_config_def client_config_def
      cache_config_def split: if_splits)

lemma unthrottled_config_limits:
  "unthrottled_config L o' file = Inr c \<Longrightarrow> rf_QPS c = - 1 \<and> \<not> own_limiter c"
  by (auto simp: unthrottled_config_def and_then_Inr unthrottled_def own_limiter_def)


end
