(* ===== verification/Assembly.thy ===== *)
theory Assembly
  imports Slice_Workers Api_Controller Authorizer_Chain Startup
begin

text \<open>
  How \<open>Run\<close> wires the controllers and the workspace to the shared informers: which index is
  added to which informer, which handlers are registered where, and which index every consumer
  looks up. The three places are far apart in the code: \<open>Reconciler.InstallIndexers\<close>
  (\<open>internal/reconciler\<close>), \<open>NewController\<close> of the endpoint slice controller, and
  \<open>NewAPIReconciler\<close>, which \<open>BootstrapAPISetManagement\<close> calls while the server is made.

  Parameters: client-go's indexers and kcp's package \<open>indexers\<close> (\<open>index_lib\<close>, with
  \<open>index_lib_law\<close>), the listers, and kcp's \<open>tombstone.Obj\<close>.
\<close>

section \<open>Informers and indexes\<close>

datatype kcp_object = SliceObject slice | ExportObject apiexport | AnyObject string

type_synonym index_func = "kcp_object \<Rightarrow> string list \<times> go_error option"

record shared_indexer =
  sx_Items :: "(string \<times> kcp_object) list"       \<comment> \<open>the stored objects with their keys\<close>
  sx_Indexers :: "index_func indexers"

record stores =
  st_Slices :: shared_indexer
  st_Exports :: "informer_factory \<Rightarrow> shared_indexer"

record index_lib =
  il_AddIfNotPresentOrDie :: "index_func indexers \<Rightarrow> index_func indexers \<Rightarrow> index_func indexers"
  il_ByLogicalClusterPathAndName :: string
  il_APIExportByIdentity :: string
  il_APIExportByClaimedIdentities :: string
  il_IndexByLogicalClusterPathAndName :: index_func
  il_IndexAPIExportByIdentity :: index_func
  il_IndexAPIExportByClaimedIdentities :: index_func
  il_IndexKeys :: "shared_indexer \<Rightarrow> string \<Rightarrow> string \<Rightarrow> go_error + string list"
  il_GetByKey :: "shared_indexer \<Rightarrow> string \<Rightarrow> go_error + kcp_object option"
  il_ExportsByIndex :: "shared_indexer \<Rightarrow> string \<Rightarrow> string \<Rightarrow> go_error + apiexport list"
  il_SliceByPathAndName :: "shared_indexer \<Rightarrow> string \<Rightarrow> string \<Rightarrow> go_error + slice"
  il_ExportByPathAndName :: "shared_indexer \<Rightarrow> string \<Rightarrow> string \<Rightarrow> go_error + apiexport"
  il_SliceObj :: "kcp_object delivered \<Rightarrow> slice"          \<comment> \<open>\<open>tombstone.Obj\<close> at the type of slices\<close>
  il_Join :: "string \<Rightarrow> string \<Rightarrow> string"

text \<open>The index function of the repository, on any object.\<close>

definition index_by_export :: "index_lib \<Rightarrow> index_func" where
  "index_by_export L obj =
     IndexFilteredAPIExportEndpointSliceByAPIExport (il_Join L)
       (case obj of SliceObject s \<Rightarrow> Some s | _ \<Rightarrow> None)"

text \<open>
  Documented behaviour: indexers are added unless present; a lookup in an index that was not
  added is an error (never a not-found error), otherwise it yields the objects with that
  value, where no index function fails on a stored object.
\<close>

definition indexed :: "shared_indexer \<Rightarrow> string \<Rightarrow> string \<Rightarrow> (string \<times> kcp_object) set" where
  "indexed ix name v =
     {(k, obj). (k, obj) \<in> set (sx_Items ix) \<and> (\<exists>f. sx_Indexers ix name = Some f \<and> v \<in> set (fst (f obj)))}"

definition stored :: "shared_indexer \<Rightarrow> kcp_object set" where
  "stored ix = snd ` set (sx_Items ix)"

definition index_ok :: "shared_indexer \<Rightarrow> bool" where
  "index_ok ix \<longleftrightarrow> distinct (map fst (sx_Items ix))
     \<and> (\<forall>obj \<in> stored ix. \<forall>f \<in> ran (sx_Indexers ix). snd (f obj) = None)"

definition only_exports :: "shared_indexer \<Rightarrow> bool" where
  "only_exports ix \<longleftrightarrow> (\<forall>obj \<in> stored ix. \<exists>e. obj = ExportObject e)"

definition only_slices :: "shared_indexer \<Rightarrow> bool" where
  "only_slices ix \<longleftrightarrow> (\<forall>obj \<in> stored ix. \<exists>s. obj = SliceObject s)"

definition path_lookup :: "(string \<times> kcp_object) set \<Rightarrow> ('a \<Rightarrow> kcp_object) \<Rightarrow> go_error + 'a \<Rightarrow> bool" where
  "path_lookup found wrap r \<longleftrightarrow>
     (found = {} \<longrightarrow> (\<exists>e. r = Inl e \<and> IsNotFound e))
     \<and> (\<forall>k obj. found = {(k, wrap obj)} \<longrightarrow> r = Inr obj)
     \<and> (\<forall>obj. r = Inr obj \<longrightarrow> (\<exists>k. found = {(k, wrap obj)}))"

definition missing_index_law :: "index_lib \<Rightarrow> bool" where
  "missing_index_law L \<longleftrightarrow>
     (\<forall>ix name v. sx_Indexers ix name = None \<longrightarrow>
        (\<exists>e. il_IndexKeys L ix name v = Inl e) \<and> (\<exists>e. il_ExportsByIndex L ix name v = Inl e))
     \<and> (\<forall>ix path n. sx_Indexers ix (il_ByLogicalClusterPathAndName L) = None \<longrightarrow>
          (\<exists>e. il_SliceByPathAndName L ix path n = Inl e \<and> \<not> IsNotFound e)
          \<and> (\<exists>e. il_ExportByPathAndName L ix path n = Inl e \<and> \<not> IsNotFound e))"

definition lookup_law :: "index_lib \<Rightarrow> bool" where
  "lookup_law L \<longleftrightarrow>
     (\<forall>ix name v. index_ok ix \<longrightarrow> name \<in> dom (sx_Indexers ix) \<longrightarrow>
        (\<exists>ks. il_IndexKeys L ix name v = Inr ks \<and> set ks = fst ` indexed ix name v)
        \<and> (only_exports ix \<longrightarrow> (\<exists>es. il_ExportsByIndex L ix name v = Inr es
             \<and> ExportObject ` set es = snd ` indexed ix name v)))"

definition path_law :: "index_lib \<Rightarrow> bool" where
  "path_law L \<longleftrightarrow>
     (\<forall>ix path n found. index_ok ix \<longrightarrow> il_ByLogicalClusterPathAndName L \<in> dom (sx_Indexers ix) \<longrightarrow>
        found = indexed ix (il_ByLogicalClusterPathAndName L) (il_Join L path n) \<longrightarrow>
        (only_slices ix \<longrightarrow> path_lookup found SliceObject (il_SliceByPathAndName L ix path n))
        \<and> (only_exports ix \<longrightarrow> path_lookup found ExportObject (il_ExportByPathAndName L ix path n)))"

definition index_names :: "index_lib \<Rightarrow> string list" where
  "index_names L = [il_ByLogicalClusterPathAndName L, il_APIExportByIdentity L,
     il_APIExportByClaimedIdentities L, FilteredAPIExportEndpointSliceByAPIExport]"

definition index_lib_law :: "index_lib \<Rightarrow> bool" where
  "index_lib_law L \<longleftrightarrow>
     add_indexers_law (il_AddIfNotPresentOrDie L) \<and> distinct (index_names L)
     \<and> (\<forall>x. il_SliceObj L (Object (SliceObject x)) = x)
     \<and> (\<forall>ix k. il_GetByKey L ix k = Inr (map_of (sx_Items ix) k))
     \<and> missing_index_law L \<and> lookup_law L \<and> path_law L"

lemma index_lib_lawD:
  assumes "index_lib_law L"
  shows "il_AddIfNotPresentOrDie L old new = new ++ old"
    and "distinct (index_names L)"
    and "il_SliceObj L (Object (SliceObject x)) = x"
    and "il_GetByKey L ix k = Inr (map_of (sx_Items ix) k)"
    and "missing_index_law L" and "lookup_law L" and "path_law L"
  using assms by (simp_all add: index_lib_law_def add_indexers_law_def)

section \<open>The endpoint slice controller and its registry\<close>

text \<open>
  There is one factory of the slices, the field \<open>LocalFilteredAPIExportInformerFactory\<close>: its
  indexer is \<open>st_Slices\<close>. The channel \<open>syncedCh\<close> is made and never used.
\<close>

record Reconciler =
  re_ShardName :: string
  re_CacheKcpSharedInformerFactory :: informer_factory
  re_LocalKcpSharedInformerFactory :: informer_factory
  re_controllers :: registry

definition NewReconciler :: "string \<Rightarrow> informer_factory \<Rightarrow> informer_factory \<Rightarrow> Reconciler" where
  "NewReconciler shardName cache local =
     \<lparr>re_ShardName = shardName, re_CacheKcpSharedInformerFactory = cache,
      re_LocalKcpSharedInformerFactory = local, re_controllers = Map.empty\<rparr>"

definition Reconciler_InstallIndexers :: "index_lib \<Rightarrow> Reconciler \<Rightarrow> stores \<Rightarrow> stores" where
  "Reconciler_InstallIndexers L r st =
     (let f = re_CacheKcpSharedInformerFactory r in
      case InstallIndexers (il_AddIfNotPresentOrDie L) (il_ByLogicalClusterPathAndName L)
             (il_IndexByLogicalClusterPathAndName L) (index_by_export L)
             (sx_Indexers (st_Exports st f)) (sx_Indexers (st_Slices st)) of
        (exports, slices) \<Rightarrow>
          st\<lparr>st_Exports := (st_Exports st)(f := (st_Exports st f)\<lparr>sx_Indexers := exports\<rparr>),
             st_Slices := (st_Slices st)\<lparr>sx_Indexers := slices\<rparr>\<rparr>)"

text \<open>
  The fields \<open>NewController\<close> fills: the closures read the informers when they are called, so the
  environment of the controller is a function of what the informers hold then.
\<close>

definition NewController ::
    "index_lib \<Rightarrow> key_api \<Rightarrow> conditions_api \<Rightarrow> (slice \<Rightarrow> slice \<Rightarrow> go_error option) \<Rightarrow> informer_factory \<Rightarrow> stores
      \<Rightarrow> es_env" where
  "NewController L K C commit globalAPIExports st =
     (let slices = st_Slices st; exports = st_Exports st globalAPIExports in
      \<lparr>en_Keys = K,
       en_getSlice = il_SliceByPathAndName L slices,
       en_getAPIExport = il_ExportByPathAndName L exports,
       en_Conditions = C,
       en_Commit = commit,
       en_IndexKeys = il_IndexKeys L slices FilteredAPIExportEndpointSliceByAPIExport,
       en_GetByKey = (\<lambda>key. case il_GetByKey L slices key of
           Inl err \<Rightarrow> Inl err
         | Inr None \<Rightarrow> Inr None
         | Inr (Some obj) \<Rightarrow> Inr (Some (il_SliceObj L (Object obj)))),
       en_Join = il_Join L\<rparr>)"

section \<open>Event handlers\<close>

datatype 'o informer_event = OnAdd 'o | OnUpdate 'o 'o | OnDelete "'o delivered"

record 'o event_handler =      \<comment> \<open>\<open>cache.ResourceEventHandlerFuncs\<close>; a panic is \<open>None\<close>\<close>
  eh_AddFunc :: "('o delivered \<Rightarrow> queue_op list option) option"
  eh_UpdateFunc :: "('o delivered \<Rightarrow> queue_op list option) option"
  eh_DeleteFunc :: "('o delivered \<Rightarrow> queue_op list option) option"

definition call_func :: "('o delivered \<Rightarrow> queue_op list option) option \<Rightarrow> 'o delivered \<Rightarrow> queue_op list option" where
  "call_func f obj = (case f of None \<Rightarrow> Some [] | Some g \<Rightarrow> g obj)"

fun deliver :: "'o event_handler \<Rightarrow> 'o informer_event \<Rightarrow> queue_op list option" where
  "deliver h (OnAdd obj) = call_func (eh_AddFunc h) (Object obj)"
| "deliver h (OnUpdate old new) = call_func (eh_UpdateFunc h) (Object new)"
| "deliver h (OnDelete obj) = call_func (eh_DeleteFunc h) obj"

datatype queue_id = SliceQueue | ApiQueue

record handlers =
  ha_Slices :: "(queue_id \<times> (stores \<Rightarrow> slice event_handler)) list"
  ha_Exports :: "informer_factory \<Rightarrow> (queue_id \<times> (stores \<Rightarrow> apiexport event_handler)) list"
  ha_Schemas :: "informer_factory \<Rightarrow> (queue_id \<times> (stores \<Rightarrow> APIResourceSchema event_handler)) list"

definition distribute ::
    "(queue_id \<times> (stores \<Rightarrow> 'o event_handler)) list \<Rightarrow> stores \<Rightarrow> 'o informer_event
      \<Rightarrow> (queue_id \<times> queue_op list option) list" where
  "distribute hs st e = map (\<lambda>(q, h). (q, deliver (h st) e)) hs"

record event_lib =
  ev_SliceObj :: "slice delivered \<Rightarrow> slice"
  ev_ExportObj :: "apiexport delivered \<Rightarrow> apiexport"
  ev_ExportWithoutSyncs :: "apiexport event_handler \<Rightarrow> apiexport event_handler"
  ev_SchemaWithoutSyncs :: "APIResourceSchema event_handler \<Rightarrow> APIResourceSchema event_handler"

text \<open>\<open>events.WithoutSyncs\<close> of kcp drops updates that change nothing and nothing else.\<close>

definition event_lib_law :: "event_lib \<Rightarrow> bool" where
  "event_lib_law E \<longleftrightarrow>
     tombstone_law (ev_SliceObj E) \<and> tombstone_law (ev_ExportObj E)
     \<and> (\<forall>h. eh_AddFunc (ev_ExportWithoutSyncs E h) = eh_AddFunc h
          \<and> eh_DeleteFunc (ev_ExportWithoutSyncs E h) = eh_DeleteFunc h)
     \<and> (\<forall>h. eh_AddFunc (ev_SchemaWithoutSyncs E h) = eh_AddFunc h
          \<and> eh_DeleteFunc (ev_SchemaWithoutSyncs E h) = eh_DeleteFunc h)"

text \<open>The two calls of \<open>AddEventHandler\<close> in \<open>NewController\<close>.\<close>

definition add_slice_handlers :: "event_lib \<Rightarrow> (stores \<Rightarrow> es_env) \<Rightarrow> informer_factory \<Rightarrow> handlers \<Rightarrow> handlers" where
  "add_slice_handlers E c globalAPIExports ha =
     (let f = (\<lambda>st. Some (\<lambda>obj. Some (es_on_slice_event (ev_SliceObj E) (c st) obj)))
      in ha\<lparr>ha_Slices := ha_Slices ha @ [(SliceQueue, \<lambda>st.
              \<lparr>eh_AddFunc = f st, eh_UpdateFunc = f st, eh_DeleteFunc = f st\<rparr>)],
            ha_Exports := (ha_Exports ha)(globalAPIExports := ha_Exports ha globalAPIExports @ [(SliceQueue, \<lambda>st.
              ev_ExportWithoutSyncs E
                \<lparr>eh_AddFunc = Some (\<lambda>obj. Some (es_on_export_event (ev_ExportObj E) (c st) (ExportAdded obj))),
                 eh_UpdateFunc = None,
                 eh_DeleteFunc = Some (\<lambda>obj. Some (es_on_export_event (ev_ExportObj E) (c st) (ExportDeleted obj)))\<rparr>)])\<rparr>)"

section \<open>The API reconciler\<close>

text \<open>
  What the closures of \<open>NewAPIReconciler\<close> see of the informers: the listers (a parameter), and the
  two indexes of the exports.
\<close>

definition api_view :: "index_lib \<Rightarrow> (stores \<Rightarrow> kcp_view) \<Rightarrow> informer_factory \<Rightarrow> stores \<Rightarrow> kcp_view" where
  "api_view L listers apiExports st =
     (listers st)\<lparr>kv_ByIdentity := il_ExportsByIndex L (st_Exports st apiExports) (il_APIExportByIdentity L),
       kv_ByClaimedIdentities :=
         il_ExportsByIndex L (st_Exports st apiExports) (il_APIExportByClaimedIdentities L)\<rparr>"

text \<open>The lookup by identity that \<open>newAuthorizer\<close> gives to the maximal permission policy authorizer.\<close>

definition assembled_chain :: "index_lib \<Rightarrow> informer_factory \<Rightarrow> stores \<Rightarrow> chain_deps \<Rightarrow> chain_deps" where
  "assembled_chain L cachedKcpInformers st k =
     k\<lparr>cd_exportsByIdentity := il_ExportsByIndex L (st_Exports st cachedKcpInformers) (il_APIExportByIdentity L)\<rparr>"

definition add_api_indexers :: "index_lib \<Rightarrow> informer_factory \<Rightarrow> stores \<Rightarrow> stores" where
  "add_api_indexers L apiExports st =
     (let ix = st_Exports st apiExports in
      st\<lparr>st_Exports := (st_Exports st)(apiExports := ix\<lparr>sx_Indexers :=
        il_AddIfNotPresentOrDie L (sx_Indexers ix)
          [il_APIExportByIdentity L \<mapsto> il_IndexAPIExportByIdentity L,
           il_APIExportByClaimedIdentities L \<mapsto> il_IndexAPIExportByClaimedIdentities L]\<rparr>)\<rparr>)"

definition add_api_handlers ::
    "event_lib \<Rightarrow> key_api \<Rightarrow> (stores \<Rightarrow> kcp_view) \<Rightarrow> informer_factory \<Rightarrow> handlers \<Rightarrow> handlers" where
  "add_api_handlers E K v kcpInformers ha =
     (let slices = (\<lambda>st. Some (on_slice_event K (v st)));
          exports = (\<lambda>st. Some (on_export_event K (v st)));
          schemas = (\<lambda>st. Some (on_schema_event K (v st)))
      in ha\<lparr>ha_Slices := ha_Slices ha @ [(ApiQueue, \<lambda>st.
              \<lparr>eh_AddFunc = slices st, eh_UpdateFunc = slices st, eh_DeleteFunc = slices st\<rparr>)],
            ha_Exports := (ha_Exports ha)(kcpInformers := ha_Exports ha kcpInformers @ [(ApiQueue, \<lambda>st.
              \<lparr>eh_AddFunc = exports st, eh_UpdateFunc = exports st, eh_DeleteFunc = exports st\<rparr>)]),
            ha_Schemas := (ha_Schemas ha)(kcpInformers := ha_Schemas ha kcpInformers @ [(ApiQueue, \<lambda>st.
              ev_SchemaWithoutSyncs E
                \<lparr>eh_AddFunc = schemas st, eh_UpdateFunc = None, eh_DeleteFunc = schemas st\<rparr>)])\<rparr>)"

type_synonym wiring = "stores \<times> handlers"

text \<open>
  \<open>BootstrapAPISetManagement\<close>, which kcp calls once while it makes the server: the privileged
  client, the reconciler, the post-start hook. \<open>NewAPIReconciler\<close> itself never fails. The closures
  that are handed over here are \<open>impersonatedDynamicClientGetter\<close>, \<open>createAPIDefinition\<close>,
  \<open>createReadOnlyDefinition\<close> and the post-start hook of \<open>Builder\<close>; making them has no effect.
\<close>

definition BootstrapAPISetManagement ::
    "go_error option \<Rightarrow> go_error option \<Rightarrow> event_lib \<Rightarrow> index_lib \<Rightarrow> key_api \<Rightarrow> (stores \<Rightarrow> kcp_view)
      \<Rightarrow> informer_factory \<Rightarrow> wiring \<Rightarrow> go_error option \<times> wiring" where
  "BootstrapAPISetManagement newDynamicClient addPostStartHook E L K listers cachedKcpInformers w =
     (case newDynamicClient of
        Some err \<Rightarrow> (Some (Wrap ''error creating privileged dynamic kcp client: %w'' [] err), w)
      | None \<Rightarrow>
          (addPostStartHook,
           add_api_indexers L cachedKcpInformers (fst w),
           add_api_handlers E K (api_view L listers cachedKcpInformers) cachedKcpInformers (snd w)))"

section \<open>The whole assembly\<close>

text \<open>
  The part of \<open>Run\<close> that wires, between the making of the informers and their start.
  \<open>cacheKcpInformers\<close> is the factory that variable of \<open>Run\<close> holds: the local one without a cache.
\<close>

definition assemble ::
    "event_lib \<Rightarrow> index_lib \<Rightarrow> key_api \<Rightarrow> conditions_api \<Rightarrow> (slice \<Rightarrow> slice \<Rightarrow> go_error option)
      \<Rightarrow> (stores \<Rightarrow> kcp_view) \<Rightarrow> string \<Rightarrow> go_error option \<Rightarrow> go_error option \<Rightarrow> go_error option
      \<Rightarrow> string \<Rightarrow> informer_factory \<Rightarrow> wiring \<Rightarrow> go_error + (Reconciler \<times> wiring)" where
  "assemble E L K C commit listers controllerName newClient newDynamicClient addPostStartHook shardName
      cacheKcpInformers w =
     (let r = NewReconciler shardName cacheKcpInformers LocalKcpInformers;
          st = Reconciler_InstallIndexers L r (fst w)
      in case InstallControllers newClient controllerName None (re_controllers r) of
           (controllers, Some err) \<Rightarrow> Inl err
         | (controllers, None) \<Rightarrow>
             let ha = add_slice_handlers E (NewController L K C commit cacheKcpInformers) cacheKcpInformers (snd w)
             in case BootstrapAPISetManagement newDynamicClient addPostStartHook E L K listers cacheKcpInformers (st, ha) of
                  (Some err, _) \<Rightarrow> Inl err
                | (None, w') \<Rightarrow> Inr (r\<lparr>re_controllers := controllers\<rparr>, w'))"

section \<open>What is installed\<close>

text \<open>Before the assembly, none of the indexes is there.\<close>

definition fresh :: "index_lib \<Rightarrow> shared_indexer \<Rightarrow> bool" where
  "fresh L ix \<longleftrightarrow> (\<forall>name \<in> set (index_names L). sx_Indexers ix name = None)"

text \<open>After it, the informers run: objects come and go, the indexers stay.\<close>

definition same_indexers :: "stores \<Rightarrow> stores \<Rightarrow> bool" where
  "same_indexers st st' \<longleftrightarrow> sx_Indexers (st_Slices st') = sx_Indexers (st_Slices st)
     \<and> (\<forall>f. sx_Indexers (st_Exports st' f) = sx_Indexers (st_Exports st f))"

lemma assembled:
  assumes run: "assemble E L K C commit listers name newClient newDynamic addHook shard f (st0, ha0) = Inr (r, st, ha)"
  shows "re_CacheKcpSharedInformerFactory r = f"
    and "st = add_api_indexers L f (Reconciler_InstallIndexers L
           (NewReconciler shard f LocalKcpInformers) st0)"
    and "ha = add_api_handlers E K (api_view L listers f) f
           (add_slice_handlers E (NewController L K C commit f) f ha0)"
    and "re_controllers r = [name \<mapsto> \<lparr>cw_Name = name, cw_Wait = Some None\<rparr>]"
  using run
  by (auto simp: assemble_def Let_def BootstrapAPISetManagement_def NewReconciler_def InstallControllers_def
      installFilteredAPIExportEndpointSliceController_def registerController_def
      split: prod.splits option.splits)

lemma assembled_indexers:
  assumes law: "index_lib_law L" and fresh: "fresh L (st_Slices st0)" "\<forall>f. fresh L (st_Exports st0 f)"
    and run: "assemble E L K C commit listers name newClient newDynamic addHook shard f (st0, ha0) = Inr (r, st, ha)"
  shows "sx_Indexers (st_Slices st) (il_ByLogicalClusterPathAndName L) = Some (il_IndexByLogicalClusterPathAndName L)"
    and "sx_Indexers (st_Slices st) FilteredAPIExportEndpointSliceByAPIExport = Some (index_by_export L)"
    and "sx_Indexers (st_Exports st f) (il_ByLogicalClusterPathAndName L) = Some (il_IndexByLogicalClusterPathAndName L)"
    and "sx_Indexers (st_Exports st f) (il_APIExportByIdentity L) = Some (il_IndexAPIExportByIdentity L)"
    and "sx_Indexers (st_Exports st f) (il_APIExportByClaimedIdentities L) = Some (il_IndexAPIExportByClaimedIdentities L)"
  using index_lib_lawD(2) [OF law] fresh(1) fresh(2) [rule_format, of f]
  unfolding assembled(2) [OF run] fresh_def index_names_def
  by (auto simp: add_api_indexers_def Reconciler_InstallIndexers_def NewReconciler_def InstallIndexers_def Let_def
      index_lib_lawD(1) [OF law] map_add_def split: option.split)

text \<open>
  Without the API reconciler the maximal permission policy authorizer could not look up the
  exports of an identity: the registry installs no such index.
\<close>

lemma identity_lookup_needs_reconciler:
  assumes law: "index_lib_law L" and fresh: "fresh L (st_Exports st0 (re_CacheKcpSharedInformerFactory r))"
  shows "\<exists>e. il_ExportsByIndex L (st_Exports (Reconciler_InstallIndexers L r st0)
      (re_CacheKcpSharedInformerFactory r)) (il_APIExportByIdentity L) h = Inl e"
proof -
  have "sx_Indexers (st_Exports (Reconciler_InstallIndexers L r st0) (re_CacheKcpSharedInformerFactory r))
      (il_APIExportByIdentity L) = None"
    using index_lib_lawD(2) [OF law] fresh unfolding fresh_def index_names_def
    by (auto simp: Reconciler_InstallIndexers_def InstallIndexers_def Let_def index_lib_lawD(1) [OF law] map_add_def)
  then show ?thesis using index_lib_lawD(5) [OF law] unfolding missing_index_law_def by blast
qed

definition sx_slices :: "shared_indexer \<Rightarrow> string \<rightharpoonup> slice" where
  "sx_slices ix k = (case map_of (sx_Items ix) k of Some (SliceObject s) \<Rightarrow> Some s | _ \<Rightarrow> None)"

lemma map_of_stored: "map_of (sx_Items ix) k = Some obj \<Longrightarrow> obj \<in> stored ix"
  unfolding stored_def by (force dest: map_of_SomeD)

lemma sx_slices_iff:
  "only_slices ix \<Longrightarrow> sx_slices ix k = Some s \<longleftrightarrow> map_of (sx_Items ix) k = Some (SliceObject s)"
  unfolding sx_slices_def only_slices_def by (auto dest!: map_of_stored split: option.splits kcp_object.splits)

lemma lookup_keys:
  "index_lib_law L \<Longrightarrow> sx_Indexers ix name = Some f \<Longrightarrow> index_ok ix \<Longrightarrow>
     \<exists>ks. il_IndexKeys L ix name v = Inr ks \<and> set ks = fst ` indexed ix name v"
  using index_lib_lawD(6) unfolding lookup_law_def by blast

lemma installed_index_law:
  assumes law: "index_lib_law L" and idx: "sx_Indexers (st_Slices st) FilteredAPIExportEndpointSliceByAPIExport
      = Some (index_by_export L)"
    and ok: "index_ok (st_Slices st)" "only_slices (st_Slices st)"
  shows "index_law (NewController L K C commit f st) (sx_slices (st_Slices st))"
proof -
  let ?env = "NewController L K C commit f st" and ?ix = "st_Slices st"
  let ?vals = "\<lambda>s. set (fst (IndexFilteredAPIExportEndpointSliceByAPIExport (en_Join ?env) (Some s)))"
  have get: "en_GetByKey ?env k = Inr (sx_slices ?ix k)" for k
    using ok(2) map_of_stored [of ?ix k]
    by (auto simp: NewController_def Let_def index_lib_lawD(3,4) [OF law] sx_slices_def only_slices_def
        split: option.splits kcp_object.splits)
  have keys: "\<exists>ks. en_IndexKeys ?env x = Inr ks \<and> set ks = {k. \<exists>s. sx_slices ?ix k = Some s \<and> x \<in> ?vals s}" for x
  proof -
    obtain ks where ks: "en_IndexKeys ?env x = Inr ks"
      "set ks = fst ` indexed ?ix FilteredAPIExportEndpointSliceByAPIExport x"
      using lookup_keys [OF law idx ok(1), of x] by (auto simp: NewController_def Let_def)
    have "k \<in> fst ` indexed ?ix FilteredAPIExportEndpointSliceByAPIExport x
        \<longleftrightarrow> (\<exists>s. sx_slices ?ix k = Some s \<and> x \<in> ?vals s)" for k
    proof -
      have "k \<in> fst ` indexed ?ix FilteredAPIExportEndpointSliceByAPIExport x
          \<longleftrightarrow> (\<exists>obj. map_of (sx_Items ?ix) k = Some obj \<and> x \<in> set (fst (index_by_export L obj)))"
        using ok(1) idx unfolding indexed_def index_ok_def by (force simp: map_of_eq_Some_iff)
      also have "\<dots> \<longleftrightarrow> (\<exists>s. map_of (sx_Items ?ix) k = Some (SliceObject s)
          \<and> x \<in> set (fst (index_by_export L (SliceObject s))))"
        using ok(2) map_of_stored unfolding only_slices_def by metis
      finally show ?thesis
        unfolding sx_slices_iff [OF ok(2)] by (simp add: index_by_export_def NewController_def Let_def)
    qed
    then show ?thesis using ks by auto
  qed
  show ?thesis unfolding index_law_def using get keys by blast
qed

lemma exports_by_index:
  assumes law: "index_lib_law L" and idx: "sx_Indexers ix name = Some f" and ok: "index_ok ix" "only_exports ix"
  shows "\<exists>es. il_ExportsByIndex L ix name v = Inr es
    \<and> set es = {e. ExportObject e \<in> stored ix \<and> v \<in> set (fst (f (ExportObject e)))}"
proof -
  obtain es where es: "il_ExportsByIndex L ix name v = Inr es" "ExportObject ` set es = snd ` indexed ix name v"
    using index_lib_lawD(6) [OF law] ok idx unfolding lookup_law_def by blast
  have "e \<in> set es \<longleftrightarrow> ExportObject e \<in> ExportObject ` set es" for e by blast
  then have "e \<in> set es \<longleftrightarrow> ExportObject e \<in> stored ix \<and> v \<in> set (fst (f (ExportObject e)))" for e
    unfolding es(2) indexed_def stored_def using idx by (force simp: image_iff)
  then show ?thesis using es(1) by blast
qed

section \<open>An assembly\<close>

text \<open>Indexers over lists that keep the law.\<close>

fun w_index_by_path :: index_func where
  "w_index_by_path (SliceObject s) = ([sl_Cluster s @ '':'' @ sl_Name s], None)"
| "w_index_by_path (ExportObject e) = ([ex_PathAnnotation e @ '':'' @ ex_Name e, ex_Cluster e @ '':'' @ ex_Name e], None)"
| "w_index_by_path (AnyObject x) = ([], None)"

fun w_index_by_identity :: index_func where
  "w_index_by_identity (ExportObject e) = ([ex_IdentityHash e], None)"
| "w_index_by_identity _ = ([], None)"

fun w_index_by_claims :: index_func where
  "w_index_by_claims (ExportObject e) = (map pc_IdentityHash (ex_PermissionClaims e), None)"
| "w_index_by_claims _ = ([], None)"

definition w_entries :: "shared_indexer \<Rightarrow> string \<Rightarrow> string \<Rightarrow> go_error + (string \<times> kcp_object) list" where
  "w_entries ix name v =
     (case sx_Indexers ix name of
        None \<Rightarrow> Inl (Err (Str ''no such index''))
      | Some f \<Rightarrow> Inr (filter (\<lambda>(k, obj). v \<in> set (fst (f obj))) (sx_Items ix)))"

fun w_slice_of :: "kcp_object \<Rightarrow> slice" where
  "w_slice_of (SliceObject s) = s"
| "w_slice_of _ = w_slice"

fun w_exports_of :: "kcp_object \<Rightarrow> apiexport list" where
  "w_exports_of (ExportObject e) = [e]"
| "w_exports_of _ = []"

fun w_slices_of :: "kcp_object \<Rightarrow> slice list" where
  "w_slices_of (SliceObject s) = [s]"
| "w_slices_of _ = []"

definition w_one :: "(kcp_object \<Rightarrow> 'a list) \<Rightarrow> go_error + (string \<times> kcp_object) list \<Rightarrow> go_error + 'a" where
  "w_one cast r =
     (case r of
        Inl e \<Rightarrow> Inl e
      | Inr entries \<Rightarrow>
          (case concat (map (cast \<circ> snd) entries) of
             [] \<Rightarrow> Inl (NotFound (Str ''none''))
           | [x] \<Rightarrow> Inr x
           | _ \<Rightarrow> Inl (Err (Str ''ambiguous''))))"

definition w_index_lib :: index_lib where
  "w_index_lib =
     \<lparr>il_AddIfNotPresentOrDie = (\<lambda>old new. new ++ old),
      il_ByLogicalClusterPathAndName = ''ByLogicalClusterPathAndName'',
      il_APIExportByIdentity = ''APIExportByIdentity'',
      il_APIExportByClaimedIdentities = ''APIExportByClaimedIdentities'',
      il_IndexByLogicalClusterPathAndName = w_index_by_path,
      il_IndexAPIExportByIdentity = w_index_by_identity,
      il_IndexAPIExportByClaimedIdentities = w_index_by_claims,
      il_IndexKeys = (\<lambda>ix name v. map_sum id (map fst) (w_entries ix name v)),
      il_GetByKey = (\<lambda>ix k. Inr (map_of (sx_Items ix) k)),
      il_ExportsByIndex = (\<lambda>ix name v. map_sum id (\<lambda>es. concat (map (w_exports_of \<circ> snd) es)) (w_entries ix name v)),
      il_SliceByPathAndName = (\<lambda>ix path n. w_one w_slices_of (w_entries ix ''ByLogicalClusterPathAndName'' (path @ '':'' @ n))),
      il_ExportByPathAndName = (\<lambda>ix path n. w_one w_exports_of (w_entries ix ''ByLogicalClusterPathAndName'' (path @ '':'' @ n))),
      il_SliceObj = (\<lambda>x. case x of Object obj \<Rightarrow> w_slice_of obj | DeletedFinalStateUnknown obj \<Rightarrow> w_slice_of obj),
      il_Join = (\<lambda>p n. p @ '':'' @ n)\<rparr>"

lemma w_entries_indexed:
  "sx_Indexers ix name = Some f \<Longrightarrow> \<exists>es. w_entries ix name v = Inr es \<and> set es = indexed ix name v
     \<and> (index_ok ix \<longrightarrow> distinct es) \<and> set es \<subseteq> set (sx_Items ix)"
  by (auto simp: w_entries_def indexed_def index_ok_def distinct_map)

lemma w_one_lookup:
  assumes "distinct es" "\<forall>x \<in> set es. \<exists>o'. snd x = wrap o' \<and> cast (snd x) = [o']" "inj wrap"
  shows "path_lookup (set es) wrap (w_one cast (Inr es))"
proof (cases es)
  case Nil
  then show ?thesis by (simp add: path_lookup_def w_one_def)
next
  case (Cons x xs)
  then obtain o1 where o1: "snd x = wrap o1" "cast (snd x) = [o1]" using assms(2) by auto
  show ?thesis
  proof (cases xs)
    case Nil
    have "w_one cast (Inr es) = Inr o1" unfolding w_one_def Cons Nil using o1 by simp
    moreover have "set es = {(fst x, wrap o1)}" unfolding Cons Nil using o1 by (cases x) simp
    ultimately show ?thesis using assms(3) unfolding path_lookup_def by (auto dest: injD)
  next
    case (Cons y ys)
    then obtain o2 where o2: "cast (snd y) = [o2]" using assms(2) \<open>es = x # xs\<close> by auto
    have "w_one cast (Inr es) = Inl (Err (Str ''ambiguous''))"
      unfolding w_one_def \<open>es = x # xs\<close> Cons using o1 o2 by simp
    moreover have "set es \<noteq> {z}" for z
      using assms(1) unfolding \<open>es = x # xs\<close> Cons by auto
    ultimately show ?thesis unfolding path_lookup_def by (auto simp: \<open>es = x # xs\<close>)
  qed
qed

lemma w_index_lib_law: "index_lib_law w_index_lib"
proof -
  have missing: "missing_index_law w_index_lib"
    by (simp add: missing_index_law_def w_index_lib_def w_entries_def w_one_def)
  have lookup: "lookup_law w_index_lib"
    unfolding lookup_law_def
  proof (intro allI impI conjI)
    fix ix :: shared_indexer and name v
    assume "name \<in> dom (sx_Indexers ix)"
    then obtain es where es: "w_entries ix name v = Inr es" "set es = indexed ix name v" "set es \<subseteq> set (sx_Items ix)"
      using w_entries_indexed by blast
    show "\<exists>ks. il_IndexKeys w_index_lib ix name v = Inr ks \<and> set ks = fst ` indexed ix name v"
      using es by (simp add: w_index_lib_def)
    assume "only_exports ix"
    then have "\<forall>x \<in> set es. \<exists>e. snd x = ExportObject e" using es(3) unfolding only_exports_def stored_def by auto
    then have "ExportObject ` set (w_exports_of (snd x)) = {snd x}" if "x \<in> set es" for x using that by fastforce
    then have "ExportObject ` set (concat (map (w_exports_of \<circ> snd) es)) = snd ` set es"
      by (simp add: image_UN) blast
    then show "\<exists>xs. il_ExportsByIndex w_index_lib ix name v = Inr xs \<and> ExportObject ` set xs = snd ` indexed ix name v"
      using es(1,2) by (simp add: w_index_lib_def)
  qed
  have path: "path_law w_index_lib"
    unfolding path_law_def
  proof (intro allI impI conjI)
    fix ix :: shared_indexer and path n found
    let ?name = "il_ByLogicalClusterPathAndName w_index_lib" and ?v = "il_Join w_index_lib path n"
    assume ok: "index_ok ix" and "?name \<in> dom (sx_Indexers ix)" and found: "found = indexed ix ?name ?v"
    then obtain es where es: "w_entries ix ?name ?v = Inr es" "set es = found" "distinct es" "set es \<subseteq> set (sx_Items ix)"
      using w_entries_indexed ok by blast
    have eq: "il_SliceByPathAndName w_index_lib ix path n = w_one w_slices_of (Inr es)"
      "il_ExportByPathAndName w_index_lib ix path n = w_one w_exports_of (Inr es)"
      using es(1) by (simp_all add: w_index_lib_def)
    show "path_lookup found SliceObject (il_SliceByPathAndName w_index_lib ix path n)" if "only_slices ix"
      unfolding eq es(2) [symmetric]
      by (rule w_one_lookup [OF es(3)]) (use that es(4) in \<open>fastforce simp: only_slices_def stored_def inj_def\<close>)+
    show "path_lookup found ExportObject (il_ExportByPathAndName w_index_lib ix path n)" if "only_exports ix"
      unfolding eq es(2) [symmetric]
      by (rule w_one_lookup [OF es(3)]) (use that es(4) in \<open>fastforce simp: only_exports_def stored_def inj_def\<close>)+
  qed
  show ?thesis
    unfolding index_lib_law_def
    by (intro conjI missing lookup path)
      (simp_all add: w_index_lib_def add_indexers_law_def index_names_def
        FilteredAPIExportEndpointSliceByAPIExport_def)
qed

definition w_event_lib :: event_lib where
  "w_event_lib =
     \<lparr>ev_SliceObj = case_delivered id id, ev_ExportObj = case_delivered id id,
      ev_ExportWithoutSyncs = id, ev_SchemaWithoutSyncs = id\<rparr>"

lemma w_event_lib_law: "event_lib_law w_event_lib"
  by (simp add: event_lib_law_def tombstone_law_def w_event_lib_def)

text \<open>No handlers and no indexes before; the slice and the export of the small world after.\<close>

definition w_no_index :: shared_indexer where
  "w_no_index = \<lparr>sx_Items = [], sx_Indexers = Map.empty\<rparr>"

definition w_wiring :: wiring where
  "w_wiring = (\<lparr>st_Slices = w_no_index, st_Exports = (\<lambda>f. w_no_index)\<rparr>,
     \<lparr>ha_Slices = [], ha_Exports = (\<lambda>f. []), ha_Schemas = (\<lambda>f. [])\<rparr>)"

definition w_assembled :: "Reconciler \<times> wiring" where
  "w_assembled = projr (assemble w_event_lib w_index_lib w_keys ref_conditions (\<lambda>old new. None) (\<lambda>st. w_view)
     ''c'' None None None ''shard'' LocalKcpInformers w_wiring)"

definition w_later :: stores where
  "w_later = (fst (snd w_assembled))
     \<lparr>st_Slices := (st_Slices (fst (snd w_assembled)))\<lparr>sx_Items := [(''prov|es'', SliceObject w_slice)]\<rparr>,
      st_Exports := (\<lambda>f. (st_Exports (fst (snd w_assembled)) f)\<lparr>sx_Items := [(''prov|exp'', ExportObject w_export)]\<rparr>)\<rparr>"

lemma w_assemble:
  "assemble w_event_lib w_index_lib w_keys ref_conditions (\<lambda>old new. None) (\<lambda>st. w_view)
     ''c'' None None None ''shard'' LocalKcpInformers w_wiring = Inr w_assembled"
  unfolding w_assembled_def
  by (simp add: assemble_def Let_def BootstrapAPISetManagement_def NewReconciler_def InstallControllers_def
      installFilteredAPIExportEndpointSliceController_def registerController_def)

lemma w_fresh: "fresh w_index_lib w_no_index"
  by (simp add: fresh_def w_no_index_def)

lemma w_same: "same_indexers (fst (snd w_assembled)) w_later"
  by (simp add: same_indexers_def w_later_def)

lemma w_assembled_split: "w_assembled = (fst w_assembled, fst (snd w_assembled), snd (snd w_assembled))"
  by simp

lemma w_run:
  "assemble w_event_lib w_index_lib w_keys ref_conditions (\<lambda>old new. None) (\<lambda>st. w_view)
     ''c'' None None None ''shard'' LocalKcpInformers (fst w_wiring, snd w_wiring)
   = Inr (fst w_assembled, fst (snd w_assembled), snd (snd w_assembled))"
  using w_assemble by simp

lemma w_initial: "fresh w_index_lib (st_Slices (fst w_wiring))" "\<forall>f. fresh w_index_lib (st_Exports (fst w_wiring) f)"
  using w_fresh by (simp_all add: w_wiring_def)

lemma w_later_ok:
  "index_ok (st_Slices w_later)" "only_slices (st_Slices w_later)"
  "index_ok (st_Exports w_later LocalKcpInformers)" "only_exports (st_Exports w_later LocalKcpInformers)"
proof -
  have snd_None: "snd (g (SliceObject w_slice)) = None" "snd (g (ExportObject w_export)) = None"
    if "g \<in> {w_index_by_path, w_index_by_identity, w_index_by_claims}" for g
    using that by auto
  have by_export: "snd (index_by_export w_index_lib (SliceObject w_slice)) = None"
    by (simp add: index_by_export_def IndexFilteredAPIExportEndpointSliceByAPIExport_def Let_def)
  have add: "il_AddIfNotPresentOrDie w_index_lib old new = new ++ old" for old new by (simp add: w_index_lib_def)
  have ix: "il_IndexByLogicalClusterPathAndName w_index_lib = w_index_by_path"
    "il_IndexAPIExportByIdentity w_index_lib = w_index_by_identity"
    "il_IndexAPIExportByClaimedIdentities w_index_lib = w_index_by_claims" by (simp_all add: w_index_lib_def)
  note st = assembled(2) [OF w_run]
  have slices: "ran (sx_Indexers (st_Slices w_later)) \<subseteq> {index_by_export w_index_lib, w_index_by_path}"
    unfolding w_later_def
    by (simp add: st add_api_indexers_def Reconciler_InstallIndexers_def NewReconciler_def InstallIndexers_def
        Let_def add ix w_wiring_def w_no_index_def) (auto simp: ran_def)
  have exports: "ran (sx_Indexers (st_Exports w_later LocalKcpInformers))
      \<subseteq> {w_index_by_path, w_index_by_identity, w_index_by_claims}"
    unfolding w_later_def
    by (simp add: st add_api_indexers_def Reconciler_InstallIndexers_def NewReconciler_def InstallIndexers_def
        Let_def add ix w_wiring_def w_no_index_def) (auto simp: ran_def split: if_splits)
  have st1: "sx_Items (st_Slices w_later) = [(''prov|es'', SliceObject w_slice)]"
      "sx_Items (st_Exports w_later LocalKcpInformers) = [(''prov|exp'', ExportObject w_export)]"
    by (simp_all add: w_later_def)
  show "index_ok (st_Slices w_later)" "index_ok (st_Exports w_later LocalKcpInformers)"
    unfolding index_ok_def stored_def st1 using slices exports snd_None by_export by auto
  show "only_slices (st_Slices w_later)" "only_exports (st_Exports w_later LocalKcpInformers)"
    unfolding only_slices_def only_exports_def stored_def st1 by simp_all
qed



section \<open>Who hears of an event\<close>

lemma slice_handlers:
  assumes run: "assemble E L K C commit listers name newClient newDynamic addHook shard f (st0, ha0) = Inr (r, st, ha)"
    and e: "e = OnAdd s \<or> e = OnUpdate old s \<or> e = OnDelete obj \<and> obj = Object s"
  shows "distribute (ha_Slices ha) st' e = distribute (ha_Slices ha0) st' e
    @ [(SliceQueue, Some (es_on_slice_event (ev_SliceObj E) (NewController L K C commit f st') (Object s))),
       (ApiQueue, Some (enqueueFilteredAPIExportEndpointSlice K (api_view L listers f st') s))]"
  using e unfolding assembled(3) [OF run]
  by (auto simp: distribute_def add_api_handlers_def add_slice_handlers_def Let_def call_func_def on_slice_event_def)

lemma export_handlers:
  assumes run: "assemble E L K C commit listers name newClient newDynamic addHook shard f (st0, ha0) = Inr (r, st, ha)"
    and law: "event_lib_law E"
    and e: "e = OnAdd x \<or> e = OnDelete (Object x) \<or> e = OnDelete (DeletedFinalStateUnknown x)"
  shows "(SliceQueue, Some (enqueueFilteredAPIExportEndpointSlicesForAPIExport (NewController L K C commit f st') x))
    \<in> set (distribute (ha_Exports ha f) st' e)"
proof -
  let ?c = "NewController L K C commit f"
  have later: "set (distribute (ha_Exports (add_slice_handlers E ?c f ha0) f) st' e)
      \<subseteq> set (distribute (ha_Exports ha f) st' e)"
    unfolding assembled(3) [OF run] by (auto simp: distribute_def add_api_handlers_def Let_def)
  have "(SliceQueue, Some (enqueueFilteredAPIExportEndpointSlicesForAPIExport (?c st') x))
      \<in> set (distribute (ha_Exports (add_slice_handlers E ?c f ha0) f) st' e)"
    using e law
    by (auto simp: distribute_def add_slice_handlers_def Let_def call_func_def event_lib_law_def tombstone_law_def
        es_on_export_event_def)
  then show ?thesis using later by blast
qed

text \<open>
  C35: In the assembled program the creation, update or deletion of a slice enqueues its key
  in the queue of the endpoint slice controller and in that of the API reconciler, exactly one
  handler of each being told of it, and the creation or deletion of an export, also one known
  only by a tombstone, enqueues in the former every stored slice that refers to it.
\<close>

theorem assembled_events_enqueue:
  assumes law: "index_lib_law L" "event_lib_law E"
    and fresh: "fresh L (st_Slices st0)" "\<forall>f. fresh L (st_Exports st0 f)"
    and run: "assemble E L K C commit listers name newClient newDynamic addHook shard f (st0, ha0) = Inr (r, st, ha)"
    and later: "same_indexers st st'"
    and slices: "index_ok (st_Slices st')" "only_slices (st_Slices st')"
    and key: "ka_SliceKey K s = Inr k"
  shows "(e = OnAdd s \<or> e = OnUpdate old s \<or> e = OnDelete (Object s) \<longrightarrow>
       (\<exists>ops1 ops2. distribute (ha_Slices ha) st' e
          = distribute (ha_Slices ha0) st' e @ [(SliceQueue, Some ops1), (ApiQueue, Some ops2)]
          \<and> QAdd k \<in> set ops1 \<and> QAdd k \<in> set ops2))
    \<and> (sx_slices (st_Slices st') sk = Some s \<and> ref_Name (APIExport (Spec s)) = ex_Name x
       \<and> ref_Path (APIExport (Spec s)) \<in> {ex_PathAnnotation x, ex_Cluster x} - {''''}
       \<and> (e' = OnAdd x \<or> e' = OnDelete (Object x) \<or> e' = OnDelete (DeletedFinalStateUnknown x)) \<longrightarrow>
       (\<exists>ops. (SliceQueue, Some ops) \<in> set (distribute (ha_Exports ha f) st' e') \<and> QAdd k \<in> set ops))"
proof -
  let ?c = "NewController L K C commit f st'"
  have keys: "ka_SliceKey (en_Keys ?c) s = Inr k" using key by (simp add: NewController_def Let_def)
  have "QAdd k \<in> set (es_on_slice_event (ev_SliceObj E) ?c (Object s))"
  proof -
    have "ev_SliceObj E (Object s) = s" using law(2) unfolding event_lib_law_def tombstone_law_def by blast
    then show ?thesis unfolding es_on_slice_event_def es_enqueue_def
      by (simp only: keys sum.case list.set insert_iff simp_thms)
  qed
  moreover have "QAdd k \<in> set (enqueueFilteredAPIExportEndpointSlice K (api_view L listers f st') s)"
    unfolding enqueueFilteredAPIExportEndpointSlice_def key by (simp only: sum.case list.set insert_iff simp_thms)
  moreover have "QAdd k \<in> set (enqueueFilteredAPIExportEndpointSlicesForAPIExport ?c x)"
    if "sx_slices (st_Slices st') sk = Some s" "ref_Name (APIExport (Spec s)) = ex_Name x"
      "ref_Path (APIExport (Spec s)) \<in> {ex_PathAnnotation x, ex_Cluster x} - {''''}"
  proof (rule export_event_reaches_referring_slices
      [where env = ?c and store = "sx_slices (st_Slices st')", OF _ that keys])
    have "sx_Indexers (st_Slices st') FilteredAPIExportEndpointSliceByAPIExport = Some (index_by_export L)"
      using assembled_indexers(2) [OF law(1) fresh run] later by (simp add: same_indexers_def)
    then show "index_law ?c (sx_slices (st_Slices st'))" by (rule installed_index_law [OF law(1) _ slices])
  qed
  ultimately show ?thesis
    using slice_handlers [OF run, of e s old "Object s" st'] export_handlers [OF run law(2), of e' x st'] by blast
qed

theorem assembled_events_enqueue_witness:
  "\<exists>ops. (SliceQueue, Some ops) \<in> set (distribute (ha_Exports (snd (snd w_assembled)) LocalKcpInformers) w_later
       (OnDelete (DeletedFinalStateUnknown w_export))) \<and> QAdd ''prov|es'' \<in> set ops"
proof -
  have key: "ka_SliceKey w_keys w_slice = Inr ''prov|es''" by (simp add: w_keys_def w_slice_def)
  have s: "sx_slices (st_Slices w_later) ''prov|es'' = Some w_slice" by (simp add: sx_slices_def w_later_def)
  have r: "ref_Name (APIExport (Spec w_slice)) = ex_Name w_export"
    "ref_Path (APIExport (Spec w_slice)) \<in> {ex_PathAnnotation w_export, ex_Cluster w_export} - {''''}"
    by (simp_all add: w_slice_def w_export_def)
  show ?thesis
    by (rule mp [OF conjunct2 [OF assembled_events_enqueue
          [OF w_index_lib_law w_event_lib_law w_initial w_run w_same w_later_ok(1,2) key,
            where sk = "''prov|es''" and x = w_export and e' = "OnDelete (DeletedFinalStateUnknown w_export)"]]])
      (intro conjI s r, simp)
qed


text \<open>
  C36: A missed deletion: when an informer hands over the tombstone of a slice, the endpoint
  slice controller enqueues the key of the slice and the handler of the API reconciler panics.
\<close>

theorem missed_deletion_panics:
  assumes law: "event_lib_law E" and key: "ka_SliceKey K s = Inr k"
    and run: "assemble E L K C commit listers name newClient newDynamic addHook shard f (st0, ha0) = Inr (r, st, ha)"
  shows "distribute (ha_Slices ha) st' (OnDelete (DeletedFinalStateUnknown s))
    = distribute (ha_Slices ha0) st' (OnDelete (DeletedFinalStateUnknown s))
      @ [(SliceQueue, Some [QAdd k]), (ApiQueue, None)]"
proof -
  have "ev_SliceObj E (DeletedFinalStateUnknown s) = s"
    using law unfolding event_lib_law_def tombstone_law_def by blast
  then have "es_on_slice_event (ev_SliceObj E) (NewController L K C commit f st') (DeletedFinalStateUnknown s) = [QAdd k]"
    using key by (simp add: es_on_slice_event_def es_enqueue_def NewController_def Let_def)
  then show ?thesis
    unfolding assembled(3) [OF run]
    by (simp add: distribute_def add_api_handlers_def add_slice_handlers_def Let_def call_func_def on_slice_event_def)
qed

theorem missed_deletion_panics_witness:
  "(ApiQueue, None) \<in> set (distribute (ha_Slices (snd (snd w_assembled))) w_later
     (OnDelete (DeletedFinalStateUnknown w_slice)))"
proof -
  have "ka_SliceKey w_keys w_slice = Inr ''prov|es''" by (simp add: w_keys_def w_slice_def)
  then show ?thesis by (subst missed_deletion_panics [OF w_event_lib_law _ w_run]) simp_all
qed

end
