(* ===== verification/Command_Line.thy ===== *)
theory Command_Line
  imports Virtual_Workspaces
begin

text \<open>
  The command line: the flags \<open>AddFlags\<close> registers (\<open>cmd/filtered-apiexport-vw/options\<close> and
  \<open>internal/virtual/filteredapiexport/options\<close>), the command that parses them and runs, and the
  exit code of \<open>main\<close>. Flag sets and parsing are pflag's and cobra's: \<open>AddFlags\<close> is the list of
  calls it makes, and parsing is a parameter with \<open>parse_law\<close>, their documented behaviour.
\<close>

section \<open>Flags\<close>

datatype option_field =
    Field_ShardName | Field_LocalShardKubeconfigFile | Field_FrontProxyKubeconfigFile | Field_Context
  | Field_RootPathPrefix | Field_ShardExternalURL | Field_FilteredAPIExport_KubeconfigFile
  | Field_ProfilerAddress

fun get_field :: "option_field \<Rightarrow> Options \<Rightarrow> string" where
  "get_field Field_ShardName = op_ShardName"
| "get_field Field_LocalShardKubeconfigFile = op_LocalShardKubeconfigFile"
| "get_field Field_FrontProxyKubeconfigFile = op_FrontProxyKubeconfigFile"
| "get_field Field_Context = op_Context"
| "get_field Field_RootPathPrefix = op_RootPathPrefix"
| "get_field Field_ShardExternalURL = op_ShardExternalURL"
| "get_field Field_FilteredAPIExport_KubeconfigFile = op_FilteredAPIExport_KubeconfigFile"
| "get_field Field_ProfilerAddress = op_ProfilerAddress"

datatype library_flags = CacheFlags | SecureServingFlags | AuthenticationFlags | AuditFlags | LogsFlags

datatype flag_call =
    LibraryFlags library_flags
  | StringVar option_field string string     \<comment> \<open>variable, name, default\<close>
  | MarkFlagRequired string

text \<open>A nil receiver registers nothing.\<close>

definition FilteredAPIExport_AddFlags :: "Options option \<Rightarrow> string \<Rightarrow> flag_call list" where
  "FilteredAPIExport_AddFlags o' pre =
     (case o' of
        None \<Rightarrow> []
      | Some opts \<Rightarrow>
          [StringVar Field_FilteredAPIExport_KubeconfigFile (pre @ ''-kubeconfig'')
             (op_FilteredAPIExport_KubeconfigFile opts),
           MarkFlagRequired (pre @ ''-kubeconfig'')])"

definition Options_AddFlags :: "Options \<Rightarrow> flag_call list" where
  "Options_AddFlags o' =
     [LibraryFlags CacheFlags, LibraryFlags SecureServingFlags, LibraryFlags AuthenticationFlags,
      LibraryFlags AuditFlags, LibraryFlags LogsFlags]
     @ FilteredAPIExport_AddFlags (Some o') ''filtered-apiexport-vw''
     @ [StringVar Field_ShardName ''shard-name'' (op_ShardName o'),
        StringVar Field_ShardExternalURL ''shard-external-url'' (op_ShardExternalURL o'),
        StringVar Field_LocalShardKubeconfigFile ''local-shard-kubeconfig'' (op_LocalShardKubeconfigFile o'),
        MarkFlagRequired ''local-shard-kubeconfig'',
        StringVar Field_FrontProxyKubeconfigFile ''front-proxy-kubeconfig'' (op_FrontProxyKubeconfigFile o'),
        MarkFlagRequired ''front-proxy-kubeconfig'',
        StringVar Field_Context ''context'' (op_Context o'),
        StringVar Field_ProfilerAddress ''profiler-address'' '''']"

fun flag_names :: "flag_call list \<Rightarrow> string list" where
  "flag_names [] = []"
| "flag_names (StringVar f name d # calls) = name # flag_names calls"
| "flag_names (_ # calls) = flag_names calls"

fun flag_fields :: "flag_call list \<Rightarrow> option_field list" where
  "flag_fields [] = []"
| "flag_fields (StringVar f name d # calls) = f # flag_fields calls"
| "flag_fields (_ # calls) = flag_fields calls"

text \<open>
  \<open>MarkFlagRequired\<close> fails on a flag that is not defined yet, and the code drops that error; a
  flag defined twice panics. Neither happens here.
\<close>

definition required_defined :: "flag_call list \<Rightarrow> bool" where
  "required_defined calls \<longleftrightarrow>
     (\<forall>before name after. calls = before @ MarkFlagRequired name # after \<longrightarrow> name \<in> set (flag_names before))"

section \<open>The command\<close>

text \<open>Parsing the arguments with the flags that were registered, into the options.\<close>

type_synonym parser = "flag_call list \<Rightarrow> string list \<Rightarrow> Options \<Rightarrow> go_error + Options"

definition parse_law :: "parser \<Rightarrow> bool" where
  "parse_law parse \<longleftrightarrow>
     (\<forall>calls args o' opts. parse calls args o' = Inr opts \<longrightarrow> distinct (flag_fields calls) \<longrightarrow>
        (\<exists>given. (\<forall>name. MarkFlagRequired name \<in> set calls \<longrightarrow> given name \<noteq> None)
           \<and> (\<forall>f name d. StringVar f name d \<in> set calls \<longrightarrow>
                get_field f opts = (case given name of None \<Rightarrow> d | Some v \<Rightarrow> v))
           \<and> (\<forall>f. (\<forall>name d. StringVar f name d \<notin> set calls) \<longrightarrow> get_field f opts = get_field f o')))"

text \<open>\<open>NewCommand\<close> and \<open>Execute\<close>: parse, then \<open>RunE\<close>. The steps run, and the error.\<close>

definition NewCommand_Execute ::
    "parser \<Rightarrow> library_options \<Rightarrow> (Options \<Rightarrow> go_error option) \<Rightarrow> string list \<Rightarrow> (run_step \<Rightarrow> go_error option)
      \<Rightarrow> run_step list \<times> go_error option" where
  "NewCommand_Execute parse V validateAndApplyLogs args result =
     (let opts = NewOptions in
      case parse (Options_AddFlags opts) args opts of
        Inl err \<Rightarrow> ([], Some err)
      | Inr opts' \<Rightarrow> NewCommand_RunE V validateAndApplyLogs opts' result)"

definition main_exit_code :: "run_step list \<times> go_error option \<Rightarrow> int" where
  "main_exit_code r = (case snd r of Some err \<Rightarrow> 1 | None \<Rightarrow> 0)"

section \<open>What the flags can set\<close>

lemma flags_well_formed:
  "distinct (flag_names (Options_AddFlags o'))" "distinct (flag_fields (Options_AddFlags o'))"
  "required_defined (Options_AddFlags o')"
proof -
  show "distinct (flag_fields (Options_AddFlags o'))"
    by (simp add: Options_AddFlags_def FilteredAPIExport_AddFlags_def)
  show "distinct (flag_names (Options_AddFlags o'))"
    by (simp add: Options_AddFlags_def FilteredAPIExport_AddFlags_def)
  show "required_defined (Options_AddFlags o')"
    unfolding required_defined_def Options_AddFlags_def FilteredAPIExport_AddFlags_def
    by (auto simp: Cons_eq_append_conv)
qed

lemma parsed_options:
  assumes "parse_law parse" "parse (Options_AddFlags NewOptions) args NewOptions = Inr opts"
  shows "op_RootPathPrefix opts = ''/services''"
    and "\<exists>given. given ''local-shard-kubeconfig'' = Some (op_LocalShardKubeconfigFile opts)
      \<and> given ''front-proxy-kubeconfig'' = Some (op_FrontProxyKubeconfigFile opts)
      \<and> given ''filtered-apiexport-vw-kubeconfig'' = Some (op_FilteredAPIExport_KubeconfigFile opts)
      \<and> op_ShardName opts = (case given ''shard-name'' of None \<Rightarrow> '''' | Some v \<Rightarrow> v)
      \<and> op_ShardExternalURL opts = (case given ''shard-external-url'' of None \<Rightarrow> '''' | Some v \<Rightarrow> v)"
proof -
  let ?calls = "Options_AddFlags NewOptions"
  obtain given where req: "\<And>name. MarkFlagRequired name \<in> set ?calls \<Longrightarrow> given name \<noteq> None"
    and var: "\<And>f name d. StringVar f name d \<in> set ?calls \<Longrightarrow>
        get_field f opts = (case given name of None \<Rightarrow> d | Some v \<Rightarrow> v)"
    and rest: "\<And>f. (\<And>name d. StringVar f name d \<notin> set ?calls) \<Longrightarrow> get_field f opts = get_field f NewOptions"
    using assms flags_well_formed(2) unfolding parse_law_def by metis
  have calls: "set ?calls = {LibraryFlags CacheFlags, LibraryFlags SecureServingFlags, LibraryFlags AuthenticationFlags,
      LibraryFlags AuditFlags, LibraryFlags LogsFlags,
      StringVar Field_FilteredAPIExport_KubeconfigFile ''filtered-apiexport-vw-kubeconfig'' '''',
      MarkFlagRequired ''filtered-apiexport-vw-kubeconfig'',
      StringVar Field_ShardName ''shard-name'' '''', StringVar Field_ShardExternalURL ''shard-external-url'' '''',
      StringVar Field_LocalShardKubeconfigFile ''local-shard-kubeconfig'' '''',
      MarkFlagRequired ''local-shard-kubeconfig'',
      StringVar Field_FrontProxyKubeconfigFile ''front-proxy-kubeconfig'' '''',
      MarkFlagRequired ''front-proxy-kubeconfig'',
      StringVar Field_Context ''context'' '''', StringVar Field_ProfilerAddress ''profiler-address'' ''''}"
    by (auto simp: Options_AddFlags_def FilteredAPIExport_AddFlags_def NewOptions_def)
  show "op_RootPathPrefix opts = ''/services''"
  proof -
    have "get_field Field_RootPathPrefix opts = get_field Field_RootPathPrefix NewOptions"
      by (rule rest) (simp add: calls)
    then show ?thesis by (simp add: NewOptions_def DefaultRootPathPrefix_def)
  qed
  show "\<exists>given. given ''local-shard-kubeconfig'' = Some (op_LocalShardKubeconfigFile opts)
      \<and> given ''front-proxy-kubeconfig'' = Some (op_FrontProxyKubeconfigFile opts)
      \<and> given ''filtered-apiexport-vw-kubeconfig'' = Some (op_FilteredAPIExport_KubeconfigFile opts)
      \<and> op_ShardName opts = (case given ''shard-name'' of None \<Rightarrow> '''' | Some v \<Rightarrow> v)
      \<and> op_ShardExternalURL opts = (case given ''shard-external-url'' of None \<Rightarrow> '''' | Some v \<Rightarrow> v)"
    using req [of "''local-shard-kubeconfig''"] req [of "''front-proxy-kubeconfig''"]
      req [of "''filtered-apiexport-vw-kubeconfig''"]
      var [of Field_LocalShardKubeconfigFile "''local-shard-kubeconfig''" "''''"]
      var [of Field_FrontProxyKubeconfigFile "''front-proxy-kubeconfig''" "''''"]
      var [of Field_FilteredAPIExport_KubeconfigFile "''filtered-apiexport-vw-kubeconfig''" "''''"]
      var [of Field_ShardName "''shard-name''" "''''"] var [of Field_ShardExternalURL "''shard-external-url''" "''''"]
    by (intro exI [of _ given]) (auto simp: calls)
qed

text \<open>A parser of alternating names and values that keeps the law.\<close>

fun set_field :: "option_field \<Rightarrow> string \<Rightarrow> Options \<Rightarrow> Options" where
  "set_field Field_ShardName v o' = o'\<lparr>op_ShardName := v\<rparr>"
| "set_field Field_LocalShardKubeconfigFile v o' = o'\<lparr>op_LocalShardKubeconfigFile := v\<rparr>"
| "set_field Field_FrontProxyKubeconfigFile v o' = o'\<lparr>op_FrontProxyKubeconfigFile := v\<rparr>"
| "set_field Field_Context v o' = o'\<lparr>op_Context := v\<rparr>"
| "set_field Field_RootPathPrefix v o' = o'\<lparr>op_RootPathPrefix := v\<rparr>"
| "set_field Field_ShardExternalURL v o' = o'\<lparr>op_ShardExternalURL := v\<rparr>"
| "set_field Field_FilteredAPIExport_KubeconfigFile v o' = o'\<lparr>op_FilteredAPIExport_KubeconfigFile := v\<rparr>"
| "set_field Field_ProfilerAddress v o' = o'\<lparr>op_ProfilerAddress := v\<rparr>"

lemma get_set_field: "get_field f (set_field g v o') = (if f = g then v else get_field f o')"
  by (cases f; cases g) simp_all

fun pair_up :: "string list \<Rightarrow> (string \<times> string) list" where
  "pair_up (n # v # rest) = (n, v) # pair_up rest"
| "pair_up _ = []"

fun w_set :: "(string \<rightharpoonup> string) \<Rightarrow> flag_call list \<Rightarrow> Options \<Rightarrow> Options" where
  "w_set given [] o' = o'"
| "w_set given (StringVar f name d # calls) o' =
     w_set given calls (set_field f (case given name of None \<Rightarrow> d | Some v \<Rightarrow> v) o')"
| "w_set given (_ # calls) o' = w_set given calls o'"

fun w_required :: "flag_call list \<Rightarrow> string list" where
  "w_required [] = []"
| "w_required (MarkFlagRequired name # calls) = name # w_required calls"
| "w_required (_ # calls) = w_required calls"

definition w_parse :: parser where
  "w_parse calls args o' =
     (let given = map_of (pair_up args) in
      if list_all (\<lambda>name. given name \<noteq> None) (w_required calls) then Inr (w_set given calls o')
      else Inl (Err (Str ''required flag not set'')))"

lemma flag_fields_iff: "f \<in> set (flag_fields calls) \<longleftrightarrow> (\<exists>name d. StringVar f name d \<in> set calls)"
  by (induction calls rule: flag_fields.induct) auto

lemma w_required_iff: "name \<in> set (w_required calls) \<longleftrightarrow> MarkFlagRequired name \<in> set calls"
  by (induction calls rule: w_required.induct) auto

lemma w_set_other: "f \<notin> set (flag_fields calls) \<Longrightarrow> get_field f (w_set given calls o') = get_field f o'"
  by (induction given calls o' rule: w_set.induct) (simp_all add: get_set_field)

lemma w_set_field:
  "distinct (flag_fields calls) \<Longrightarrow> StringVar f name d \<in> set calls \<Longrightarrow>
     get_field f (w_set given calls o') = (case given name of None \<Rightarrow> d | Some v \<Rightarrow> v)"
  by (induction given calls o' rule: w_set.induct) (auto simp: get_set_field w_set_other)

lemma w_parse_law: "parse_law w_parse"
  unfolding parse_law_def
proof (intro allI impI)
  fix calls args o' opts
  assume run: "w_parse calls args o' = Inr opts" and distinct: "distinct (flag_fields calls)"
  let ?given = "map_of (pair_up args)"
  have "list_all (\<lambda>name. ?given name \<noteq> None) (w_required calls)" and opts: "opts = w_set ?given calls o'"
    using run by (auto simp: w_parse_def Let_def split: if_splits)
  then have "\<forall>name. MarkFlagRequired name \<in> set calls \<longrightarrow> ?given name \<noteq> None"
    unfolding list_all_iff w_required_iff [symmetric] by blast
  moreover have "\<forall>f name d. StringVar f name d \<in> set calls \<longrightarrow>
      get_field f opts = (case ?given name of None \<Rightarrow> d | Some v \<Rightarrow> v)"
    unfolding opts using w_set_field [OF distinct] by blast
  moreover have "\<forall>f. (\<forall>name d. StringVar f name d \<notin> set calls) \<longrightarrow> get_field f opts = get_field f o'"
    unfolding opts using w_set_other flag_fields_iff by metis
  ultimately show "\<exists>given. (\<forall>name. MarkFlagRequired name \<in> set calls \<longrightarrow> given name \<noteq> None)
      \<and> (\<forall>f name d. StringVar f name d \<in> set calls \<longrightarrow>
           get_field f opts = (case given name of None \<Rightarrow> d | Some v \<Rightarrow> v))
      \<and> (\<forall>f. (\<forall>name d. StringVar f name d \<notin> set calls) \<longrightarrow> get_field f opts = get_field f o')"
    by blast
qed


text \<open>The required flags and the shard, as an instance.\<close>

definition w_args :: "string list" where
  "w_args = [''shard-name'', ''s'', ''shard-external-url'', ''https://s'', ''local-shard-kubeconfig'', ''l'',
     ''front-proxy-kubeconfig'', ''f'', ''filtered-apiexport-vw-kubeconfig'', ''v'']"

definition w_library_options :: library_options where
  "w_library_options = \<lparr>lo_Cache = (\<lambda>o'. []), lo_SecureServing = (\<lambda>o'. []), lo_Authentication = (\<lambda>o'. [])\<rparr>"


end
