(* ===== verification/Client_Setup.thy ===== *)
theory Client_Setup
  imports Fake_Clients
begin

text \<open>
  What the packages of the client set up before anything is called: the registration of the API
  types with the schemes (\<open>sdk/apis/filteredvw/v1alpha1/register.go\<close> and the three generated
  \<open>register.go\<close>), the fake clientset without clusters (\<open>versioned/fake\<close> and
  \<open>versioned/typed/.../fake\<close>), and the embedded schema of the apply configurations.

  A scheme, apimachinery's \<open>SchemeBuilder\<close>, an object tracker and the chains of a \<open>testing.Fake\<close>
  are parameters; a call that panics has no result.
\<close>

section \<open>Schemes\<close>

record go_type =
  gt_Package :: string
  gt_Name :: string

datatype 's scheme_setup = Ready 's | Refused go_error | SetupPanics message

record 's scheme_api =
  sc_NewScheme :: 's
  sc_AddKnownTypes :: "string \<Rightarrow> string \<Rightarrow> go_type list \<Rightarrow> 's \<Rightarrow> 's option"    \<comment> \<open>group, version\<close>
  sc_AddToGroupVersion :: "string \<Rightarrow> string \<Rightarrow> 's \<Rightarrow> 's option"            \<comment> \<open>of \<open>metav1\<close>\<close>
  sc_AddToScheme :: "('s \<Rightarrow> 's scheme_setup) list \<Rightarrow> 's \<Rightarrow> 's scheme_setup"              \<comment> \<open>of a \<open>SchemeBuilder\<close>\<close>
  sc_Recognizes :: "'s \<Rightarrow> group_version_kind \<Rightarrow> go_type option"
  sc_MetaKinds :: "string set"                  \<comment> \<open>the kinds \<open>AddToGroupVersion\<close> registers\<close>

definition kind_of :: "string \<Rightarrow> string \<Rightarrow> go_type \<Rightarrow> group_version_kind" where
  "kind_of g v t = \<lparr>gvk_Group = g, gvk_Version = v, gvk_Kind = gt_Name t\<rparr>"

text \<open>A kind that is known with another type makes a registration panic.\<close>

definition may_add :: "'s scheme_api \<Rightarrow> string \<Rightarrow> string \<Rightarrow> go_type list \<Rightarrow> 's \<Rightarrow> bool" where
  "may_add S g v ts s \<longleftrightarrow> distinct (map gt_Name ts)
     \<and> list_all (\<lambda>t. sc_Recognizes S s (kind_of g v t) \<in> {None, Some t}) ts"

definition meta_package :: string where
  "meta_package = ''k8s.io/apimachinery/pkg/apis/meta/v1''"

definition meta_free :: "'s scheme_api \<Rightarrow> 's \<Rightarrow> bool" where
  "meta_free S s \<longleftrightarrow>
     (\<forall>k t. sc_Recognizes S s k = Some t \<longrightarrow> gvk_Kind k \<in> sc_MetaKinds S \<longrightarrow> gt_Package t = meta_package)"

text \<open>Documented behaviour of apimachinery's package \<open>runtime\<close>.\<close>

definition scheme_law :: "'s scheme_api \<Rightarrow> bool" where
  "scheme_law S \<longleftrightarrow>
     (\<forall>k. sc_Recognizes S (sc_NewScheme S) k = None)
     \<and> (\<forall>g v ts s. may_add S g v ts s \<longrightarrow>
          (\<exists>s'. sc_AddKnownTypes S g v ts s = Some s'
             \<and> (\<forall>t \<in> set ts. sc_Recognizes S s' (kind_of g v t) = Some t)
             \<and> (\<forall>k. k \<notin> kind_of g v ` set ts \<longrightarrow> sc_Recognizes S s' k = sc_Recognizes S s k)))
     \<and> (\<forall>g v s. meta_free S s \<longrightarrow>
          (\<exists>s'. sc_AddToGroupVersion S g v s = Some s' \<and> meta_free S s'
             \<and> (\<forall>k. gvk_Kind k \<notin> sc_MetaKinds S \<longrightarrow> sc_Recognizes S s' k = sc_Recognizes S s k)))
     \<and> (\<forall>s. sc_AddToScheme S [] s = Ready s)
     \<and> (\<forall>f fs s. sc_AddToScheme S (f # fs) s = (case f s of Ready s' \<Rightarrow> sc_AddToScheme S fs s' | r \<Rightarrow> r))"

definition slice_go_type :: go_type where
  "slice_go_type = \<lparr>gt_Package = ''github.com/kcp-dev/contrib-filteredapiexport-vw/sdk/apis/filteredvw/v1alpha1'',
     gt_Name = ''FilteredAPIExportEndpointSlice''\<rparr>"

definition slice_list_go_type :: go_type where
  "slice_list_go_type = slice_go_type\<lparr>gt_Name := ''FilteredAPIExportEndpointSliceList''\<rparr>"

definition addKnownTypes :: "'s scheme_api \<Rightarrow> 's \<Rightarrow> 's scheme_setup" where
  "addKnownTypes S scheme =
     (case sc_AddKnownTypes S GroupName GroupVersion [slice_go_type, slice_list_go_type] scheme of
        None \<Rightarrow> SetupPanics (Str ''AddKnownTypes'')
      | Some scheme1 \<Rightarrow>
          (case sc_AddToGroupVersion S GroupName GroupVersion scheme1 of
             None \<Rightarrow> SetupPanics (Str ''AddToGroupVersion'')
           | Some scheme2 \<Rightarrow> Ready scheme2))"

definition AddToScheme :: "'s scheme_api \<Rightarrow> 's \<Rightarrow> 's scheme_setup" where
  "AddToScheme S = sc_AddToScheme S [addKnownTypes S]"

text \<open>\<open>init\<close> of the API package, on the scheme of \<open>k8s.io/client-go/kubernetes\<close>.\<close>

definition types_init :: "'s scheme_api \<Rightarrow> 's \<Rightarrow> 's scheme_setup" where
  "types_init S kubernetes_scheme =
     (case AddToScheme S kubernetes_scheme of
        Refused err \<Rightarrow> SetupPanics (Sprintf ''failed to add filteredvw.kcp.io scheme: %v'' [])
      | r \<Rightarrow> r)"

text \<open>
  \<open>init\<close> of the three generated packages, which are the same but for the names: each has a scheme
  of its own, and \<open>utilruntime.Must\<close> panics on an error.
\<close>

definition local_AddToScheme :: "'s scheme_api \<Rightarrow> 's \<Rightarrow> 's scheme_setup" where
  "local_AddToScheme S = sc_AddToScheme S [AddToScheme S]"

definition scheme_init :: "'s scheme_api \<Rightarrow> 's scheme_setup" where
  "scheme_init S =
     (case sc_AddToGroupVersion S '''' ''v1'' (sc_NewScheme S) of
        None \<Rightarrow> SetupPanics (Str ''AddToGroupVersion'')
      | Some Scheme \<Rightarrow>
          (case local_AddToScheme S Scheme of
             Refused err \<Rightarrow> SetupPanics (Str ''Must'')
           | r \<Rightarrow> r))"

definition cluster_scheme_init :: "'s scheme_api \<Rightarrow> 's scheme_setup" where
  "cluster_scheme_init S = scheme_init S"

definition fake_scheme_init :: "'s scheme_api \<Rightarrow> 's scheme_setup" where
  "fake_scheme_init S = scheme_init S"

definition knows_slices :: "'s scheme_api \<Rightarrow> 's \<Rightarrow> bool" where
  "knows_slices S s \<longleftrightarrow>
     sc_Recognizes S s (WithKind_gv ''FilteredAPIExportEndpointSlice'') = Some slice_go_type
     \<and> sc_Recognizes S s (WithKind_gv ''FilteredAPIExportEndpointSliceList'') = Some slice_list_go_type"

definition slice_kinds :: "string set" where
  "slice_kinds = {''FilteredAPIExportEndpointSlice'', ''FilteredAPIExportEndpointSliceList''}"

lemma slice_kind_of:
  "kind_of GroupName GroupVersion slice_go_type = WithKind_gv ''FilteredAPIExportEndpointSlice''"
  "kind_of GroupName GroupVersion slice_list_go_type = WithKind_gv ''FilteredAPIExportEndpointSliceList''"
  by (simp_all add: kind_of_def WithKind_gv_def slice_go_type_def slice_list_go_type_def)

lemma addKnownTypes_knows:
  assumes law: "scheme_law S" and kinds: "slice_kinds \<inter> sc_MetaKinds S = {}" and meta: "meta_free S s"
    and free: "may_add S GroupName GroupVersion [slice_go_type, slice_list_go_type] s"
  shows "\<exists>s'. addKnownTypes S s = Ready s' \<and> knows_slices S s'
    \<and> (\<forall>k. gvk_Kind k \<notin> sc_MetaKinds S \<union> slice_kinds \<longrightarrow> sc_Recognizes S s' k = sc_Recognizes S s k)"
proof -
  let ?ts = "[slice_go_type, slice_list_go_type]"
  obtain s1 where s1: "sc_AddKnownTypes S GroupName GroupVersion ?ts s = Some s1"
    "\<forall>t \<in> set ?ts. sc_Recognizes S s1 (kind_of GroupName GroupVersion t) = Some t"
    "\<forall>k. k \<notin> kind_of GroupName GroupVersion ` set ?ts \<longrightarrow> sc_Recognizes S s1 k = sc_Recognizes S s k"
    using law free unfolding scheme_law_def by meson
  have same: "sc_Recognizes S s1 k = sc_Recognizes S s k" if "gvk_Kind k \<notin> slice_kinds" for k
  proof -
    have "gvk_Kind ` kind_of GroupName GroupVersion ` set ?ts \<subseteq> slice_kinds"
      by (simp add: slice_kind_of slice_kinds_def WithKind_gv_def)
    then have "k \<notin> kind_of GroupName GroupVersion ` set ?ts" using that by blast
    then show ?thesis using s1(3) by blast
  qed
  have "meta_free S s1"
    using meta same kinds unfolding meta_free_def by (metis disjoint_iff)
  then obtain s2 where s2: "sc_AddToGroupVersion S GroupName GroupVersion s1 = Some s2"
    "\<forall>k. gvk_Kind k \<notin> sc_MetaKinds S \<longrightarrow> sc_Recognizes S s2 k = sc_Recognizes S s1 k"
    using law unfolding scheme_law_def by meson
  have "knows_slices S s2"
    using s1(2) s2(2) kinds
    unfolding knows_slices_def slice_kind_of [symmetric] by (auto simp: slice_kind_of slice_kinds_def WithKind_gv_def)
  moreover have "addKnownTypes S s = Ready s2" by (simp add: addKnownTypes_def s1(1) s2(1))
  ultimately show ?thesis using s2(2) same by auto
qed

lemma builder_of_one: "scheme_law S \<Longrightarrow> sc_AddToScheme S [f] s = f s"
  unfolding scheme_law_def by (auto split: scheme_setup.split)

text \<open>
  After the initialisation every scheme of the clients has both types of the API, nothing
  panics, and the scheme of Kubernetes keeps what it had.
\<close>

theorem schemes_know_slices:
  assumes law: "scheme_law S" and kinds: "slice_kinds \<inter> sc_MetaKinds S = {}"
    and kube: "meta_free S s" "may_add S GroupName GroupVersion [slice_go_type, slice_list_go_type] s"
  shows "(\<forall>init \<in> {scheme_init S, cluster_scheme_init S, fake_scheme_init S}. \<exists>s'. init = Ready s' \<and> knows_slices S s')
    \<and> (\<exists>s'. types_init S s = Ready s' \<and> knows_slices S s'
         \<and> (\<forall>k. gvk_Kind k \<notin> sc_MetaKinds S \<union> slice_kinds \<longrightarrow> sc_Recognizes S s' k = sc_Recognizes S s k))"
proof
  have empty: "\<forall>k. sc_Recognizes S (sc_NewScheme S) k = None" using law unfolding scheme_law_def by blast
  then have "meta_free S (sc_NewScheme S)" by (simp add: meta_free_def)
  then obtain s1 where s1: "sc_AddToGroupVersion S '''' ''v1'' (sc_NewScheme S) = Some s1" "meta_free S s1"
    "\<forall>k. gvk_Kind k \<notin> sc_MetaKinds S \<longrightarrow> sc_Recognizes S s1 k = None"
    using law empty unfolding scheme_law_def by metis
  have "may_add S GroupName GroupVersion [slice_go_type, slice_list_go_type] s1"
    using s1(3) kinds by (auto simp: may_add_def slice_kind_of slice_go_type_def slice_list_go_type_def
        kind_of_def slice_kinds_def)
  from addKnownTypes_knows [OF law kinds s1(2) this]
  have "\<exists>s'. scheme_init S = Ready s' \<and> knows_slices S s'"
    by (auto simp: scheme_init_def s1(1) local_AddToScheme_def AddToScheme_def builder_of_one [OF law])
  then show "\<forall>init \<in> {scheme_init S, cluster_scheme_init S, fake_scheme_init S}. \<exists>s'. init = Ready s' \<and> knows_slices S s'"
    by (simp add: cluster_scheme_init_def fake_scheme_init_def)
  show "\<exists>s'. types_init S s = Ready s' \<and> knows_slices S s'
         \<and> (\<forall>k. gvk_Kind k \<notin> sc_MetaKinds S \<union> slice_kinds \<longrightarrow> sc_Recognizes S s' k = sc_Recognizes S s k)"
    using addKnownTypes_knows [OF law kinds kube]
    by (auto simp: types_init_def AddToScheme_def builder_of_one [OF law])
qed

text \<open>A scheme of kinds with their types, as an instance.\<close>

type_synonym w_scheme = "group_version_kind \<rightharpoonup> go_type"

fun w_builder :: "('s \<Rightarrow> 's scheme_setup) list \<Rightarrow> 's \<Rightarrow> 's scheme_setup" where
  "w_builder [] s = Ready s"
| "w_builder (f # fs) s = (case f s of Ready s' \<Rightarrow> w_builder fs s' | r \<Rightarrow> r)"

definition w_meta :: go_type where
  "w_meta = \<lparr>gt_Package = meta_package, gt_Name = ''WatchEvent''\<rparr>"

definition w_scheme_api :: "w_scheme scheme_api" where
  "w_scheme_api =
     \<lparr>sc_NewScheme = Map.empty,
      sc_AddKnownTypes = (\<lambda>g v ts s.
        if distinct (map gt_Name ts) \<and> list_all (\<lambda>t. s (kind_of g v t) \<in> {None, Some t}) ts
        then Some (s ++ map_of (map (\<lambda>t. (kind_of g v t, t)) ts)) else None),
      sc_AddToGroupVersion = (\<lambda>g v s. Some (s(kind_of g v w_meta \<mapsto> w_meta))),
      sc_AddToScheme = w_builder,
      sc_Recognizes = (\<lambda>s k. s k),
      sc_MetaKinds = {''WatchEvent''}\<rparr>"

lemma w_scheme_law: "scheme_law w_scheme_api"
proof -
  have known: "(s ++ map_of (map (\<lambda>t. (kind_of g v t, t)) ts)) (kind_of g v t) = Some t"
    if "distinct (map gt_Name ts)" "t \<in> set ts" for s :: w_scheme and g v ts t
  proof -
    have "distinct (map fst (map (\<lambda>t. (kind_of g v t, t)) ts))"
      using that(1) by (auto simp: distinct_map kind_of_def inj_on_def)
    moreover have "(kind_of g v t, t) \<in> set (map (\<lambda>t. (kind_of g v t, t)) ts)" using that(2) by simp
    ultimately have "map_of (map (\<lambda>t. (kind_of g v t, t)) ts) (kind_of g v t) = Some t" by (rule map_of_is_SomeI)
    then show ?thesis by (simp add: map_add_find_right)
  qed
  have other: "(s ++ map_of (map (\<lambda>t. (kind_of g v t, t)) ts)) k = s k"
    if "k \<notin> kind_of g v ` set ts" for s :: w_scheme and g v ts k
  proof -
    have "map_of (map (\<lambda>t. (kind_of g v t, t)) ts) k = None" using that by (auto simp: map_of_eq_None_iff image_iff)
    then show ?thesis by (simp add: map_add_def)
  qed
  have add: "\<exists>s'. sc_AddKnownTypes w_scheme_api g v ts s = Some s'
      \<and> (\<forall>t \<in> set ts. sc_Recognizes w_scheme_api s' (kind_of g v t) = Some t)
      \<and> (\<forall>k. k \<notin> kind_of g v ` set ts \<longrightarrow> sc_Recognizes w_scheme_api s' k = sc_Recognizes w_scheme_api s k)"
    if "may_add w_scheme_api g v ts s" for g v ts s
    using that known [of ts] other [of _ g v ts] by (simp add: may_add_def w_scheme_api_def)
  have meta: "meta_free w_scheme_api (s(kind_of g v w_meta \<mapsto> w_meta))" if "meta_free w_scheme_api s" for g v s
    using that by (simp add: meta_free_def w_scheme_api_def w_meta_def kind_of_def)
  have "k \<noteq> kind_of g v w_meta" if "gvk_Kind k \<noteq> ''WatchEvent''" for k g v
    using that by (auto simp: kind_of_def w_meta_def)
  then have group: "\<exists>s'. sc_AddToGroupVersion w_scheme_api g v s = Some s' \<and> meta_free w_scheme_api s'
      \<and> (\<forall>k. gvk_Kind k \<notin> sc_MetaKinds w_scheme_api \<longrightarrow> sc_Recognizes w_scheme_api s' k = sc_Recognizes w_scheme_api s k)"
    if "meta_free w_scheme_api s" for g v s
    using meta [OF that] by (simp add: w_scheme_api_def)
  have rest: "sc_Recognizes w_scheme_api (sc_NewScheme w_scheme_api) k = None"
    "sc_AddToScheme w_scheme_api [] s = Ready s"
    "sc_AddToScheme w_scheme_api (f # fs) s = (case f s of Ready s' \<Rightarrow> sc_AddToScheme w_scheme_api fs s' | r \<Rightarrow> r)"
    for k s f fs
    by (simp_all add: w_scheme_api_def split: scheme_setup.split)
  show ?thesis
    unfolding scheme_law_def by (intro conjI allI impI) (rule rest add group | assumption)+
qed

theorem schemes_know_slices_witness:
  "\<exists>s'. types_init w_scheme_api (sc_NewScheme w_scheme_api) = Ready s' \<and> knows_slices w_scheme_api s'"
proof -
  have kinds: "slice_kinds \<inter> sc_MetaKinds w_scheme_api = {}" by (simp add: slice_kinds_def w_scheme_api_def)
  have kube: "meta_free w_scheme_api (sc_NewScheme w_scheme_api)"
    "may_add w_scheme_api GroupName GroupVersion [slice_go_type, slice_list_go_type] (sc_NewScheme w_scheme_api)"
    by (simp_all add: meta_free_def may_add_def w_scheme_api_def slice_go_type_def slice_list_go_type_def)
  show ?thesis using schemes_know_slices [OF w_scheme_law kinds kube] by blast
qed


section \<open>The fake clientset without clusters\<close>

text \<open>
  A \<open>testing.Fake\<close> is its two chains of reactors, to which \<open>AddReactor\<close> and \<open>AddWatchReactor\<close>
  append; the clients hold a pointer to the one of their clientset, its address \<open>nat\<close>. Reactors
  answer from the tracker at the time of the call. An answer has type \<open>'r\<close>.
\<close>

record ('t, 'o, 'r) testing_fake =
  tf_ReactionChain :: "(string \<times> string \<times> 'r) list"       \<comment> \<open>verb, resource\<close>
  tf_WatchReactionChain :: "(string \<times> ('t \<Rightarrow> 'o watch_action \<Rightarrow> bool \<times> nat option \<times> go_error option)) list"

record ('s, 't, 'o, 'r) tracker_api =
  tr_NewObjectTracker :: 't
  tr_NewFieldManagedObjectTracker :: 't
  tr_Add :: "'s \<Rightarrow> 't \<Rightarrow> go_error option \<times> 't"
  tr_Watch :: "'t \<Rightarrow> group_version_resource \<Rightarrow> string \<Rightarrow> 'o \<Rightarrow> go_error + nat"
  tr_ObjectReaction :: 'r
  tr_ListOptions :: 'o                          \<comment> \<open>\<open>metav1.ListOptions{}\<close>\<close>

record 't unclustered_Clientset =
  uc_Fake :: nat
  uc_discovery :: nat                           \<comment> \<open>the \<open>Fake\<close> of its \<open>FakeDiscovery\<close>\<close>
  uc_tracker :: 't

definition with_reactors :: "('s, 't, 'o, 'r) tracker_api \<Rightarrow> ('t, 'o, 'r) testing_fake" where
  "with_reactors T =
     (let fake = \<lparr>tf_ReactionChain = [], tf_WatchReactionChain = []\<rparr>;
          fake = fake\<lparr>tf_ReactionChain := tf_ReactionChain fake @ [(''*'', ''*'', tr_ObjectReaction T)]\<rparr>
      in fake\<lparr>tf_WatchReactionChain := tf_WatchReactionChain fake
           @ [(''*'', \<lambda>tracker. watch_reaction (tr_Watch T tracker) (tr_ListOptions T))]\<rparr>)"

text \<open>Both constructors, on the address of the new \<open>Fake\<close>; the error is the value of the panic.\<close>

definition unclustered_NewSimpleClientset ::
    "('s, 't, 'o, 'r) tracker_api \<Rightarrow> nat \<Rightarrow> 's list \<Rightarrow> go_error + 't unclustered_Clientset \<times> ('t, 'o, 'r) testing_fake" where
  "unclustered_NewSimpleClientset T new objects =
     (case add_objects (tr_Add T) objects (tr_NewObjectTracker T) of
        Inl err \<Rightarrow> Inl err
      | Inr o1 \<Rightarrow> Inr (\<lparr>uc_Fake = new, uc_discovery = new, uc_tracker = o1\<rparr>, with_reactors T))"

definition unclustered_NewClientset ::
    "('s, 't, 'o, 'r) tracker_api \<Rightarrow> nat \<Rightarrow> 's list \<Rightarrow> go_error + 't unclustered_Clientset \<times> ('t, 'o, 'r) testing_fake" where
  "unclustered_NewClientset T new objects =
     (case add_objects (tr_Add T) objects (tr_NewFieldManagedObjectTracker T) of
        Inl err \<Rightarrow> Inl err
      | Inr o1 \<Rightarrow> Inr (\<lparr>uc_Fake = new, uc_discovery = new, uc_tracker = o1\<rparr>, with_reactors T))"

definition unclustered_Discovery :: "'t unclustered_Clientset \<Rightarrow> nat" where
  "unclustered_Discovery c = uc_discovery c"

definition unclustered_Tracker :: "'t unclustered_Clientset \<Rightarrow> 't" where
  "unclustered_Tracker c = uc_tracker c"

text \<open>The typed clients, given by what they hand to the generic fake client of client-go.\<close>

record FakeFilteredvwV1alpha1 =
  fv_Fake :: nat

record ('m, 's) endpoint_slice_list =
  li_ListMeta :: 'm
  li_Items :: "'s list"

record fakeFilteredAPIExportEndpointSlices =
  fs_Fake :: nat
  fs_Namespace :: string
  fs_Resource :: group_version_resource
  fs_Kind :: group_version_kind

definition unclustered_FilteredvwV1alpha1 :: "'t unclustered_Clientset \<Rightarrow> FakeFilteredvwV1alpha1" where
  "unclustered_FilteredvwV1alpha1 c = \<lparr>fv_Fake = uc_Fake c\<rparr>"

definition fake_RESTClient :: "FakeFilteredvwV1alpha1 \<Rightarrow> nat option" where
  "fake_RESTClient c = None"                    \<comment> \<open>a nil pointer\<close>

definition newFakeFilteredAPIExportEndpointSlices ::
    "FakeFilteredvwV1alpha1 \<Rightarrow> fakeFilteredAPIExportEndpointSlices" where
  "newFakeFilteredAPIExportEndpointSlices fake =
     \<lparr>fs_Fake = fv_Fake fake, fs_Namespace = '''', fs_Resource = slice_gvr,
      fs_Kind = WithKind_gv ''FilteredAPIExportEndpointSlice''\<rparr>"

text \<open>The three functions on lists that go with them.\<close>

definition copy_list_meta :: "('m, 's) endpoint_slice_list \<Rightarrow> ('m, 's) endpoint_slice_list \<Rightarrow> ('m, 's) endpoint_slice_list" where
  "copy_list_meta dst src = dst\<lparr>li_ListMeta := li_ListMeta src\<rparr>"

definition list_items :: "('m, 's) endpoint_slice_list \<Rightarrow> 's list" where
  "list_items l = li_Items l"

definition set_list_items :: "('m, 's) endpoint_slice_list \<Rightarrow> 's list \<Rightarrow> ('m, 's) endpoint_slice_list" where
  "set_list_items l items = l\<lparr>li_Items := items\<rparr>"

text \<open>A new list with the metadata and the items of another is that list.\<close>

lemma rebuilt_list: "set_list_items (copy_list_meta dst src) (list_items src) = (src :: ('m, 's) endpoint_slice_list)"
  by (simp add: set_list_items_def copy_list_meta_def list_items_def)

lemma add_objects_panics:
  "add_objects add objs t = Inl err \<longleftrightarrow>
     (\<exists>pre obj post t' t''. objs = pre @ obj # post \<and> add_objects add pre t = Inr t' \<and> add obj t' = (Some err, t''))"
proof (induction add objs t rule: add_objects.induct)
  case (2 add obj objs t)
  show ?case
  proof (cases "add obj t")
    case (Pair e t2)
    show ?thesis
    proof (cases e)
      case None
      have "add_objects add (obj # objs) t = Inl err \<longleftrightarrow> add_objects add objs t2 = Inl err"
        by (simp add: Pair None)
      also have "\<dots> \<longleftrightarrow> (\<exists>pre x post t' t''. objs = pre @ x # post \<and> add_objects add pre t2 = Inr t'
          \<and> add x t' = (Some err, t''))"
        by (rule 2 [OF Pair [symmetric] None])
      also have "\<dots> \<longleftrightarrow> (\<exists>pre x post t' t''. obj # objs = pre @ x # post \<and> add_objects add pre t = Inr t'
          \<and> add x t' = (Some err, t''))"
      proof (intro iffI; elim exE conjE)
        fix pre x post t' t''
        assume "objs = pre @ x # post" "add_objects add pre t2 = Inr t'" "add x t' = (Some err, t'')"
        then show "\<exists>pre x post t' t''. obj # objs = pre @ x # post \<and> add_objects add pre t = Inr t'
            \<and> add x t' = (Some err, t'')"
          by (intro exI [of _ "obj # pre"] exI [of _ x] exI [of _ post] exI [of _ t'] exI [of _ t''])
            (simp add: Pair None)
      next
        fix pre x post t' t''
        assume "obj # objs = pre @ x # post" "add_objects add pre t = Inr t'" "add x t' = (Some err, t'')"
        then show "\<exists>pre x post t' t''. objs = pre @ x # post \<and> add_objects add pre t2 = Inr t'
            \<and> add x t' = (Some err, t'')"
          using Pair None by (cases pre) auto
      qed
      finally show ?thesis .
    next
      case (Some x)
      then show ?thesis by (fastforce simp: Pair Cons_eq_append_conv)
    qed
  qed
qed simp

text \<open>
  The constructors of the fake panic exactly on the first object the tracker refuses; otherwise
  every client of the clientset, typed or discovery, shares its one \<open>Fake\<close>, which answers from
  the tracker that holds the objects, and asks for the resource and kind of the fake with clusters.
\<close>

theorem fake_clients_share_fake:
  shows "(\<forall>err. unclustered_NewClientset T new objects = Inl err \<longleftrightarrow>
       (\<exists>pre obj post t' t''. objects = pre @ obj # post
          \<and> add_objects (tr_Add T) pre (tr_NewFieldManagedObjectTracker T) = Inr t' \<and> tr_Add T obj t' = (Some err, t'')))"
    and "unclustered_NewClientset T new objects = Inr (c, fake) \<Longrightarrow>
       add_objects (tr_Add T) objects (tr_NewFieldManagedObjectTracker T) = Inr (unclustered_Tracker c)
       \<and> unclustered_Discovery c = new
       \<and> newFakeFilteredAPIExportEndpointSlices (unclustered_FilteredvwV1alpha1 c)
          = \<lparr>fs_Fake = new, fs_Namespace = '''', fs_Resource = filteredAPIExportEndpointSlicesResource,
             fs_Kind = filteredAPIExportEndpointSlicesKind\<rparr>
       \<and> tf_ReactionChain fake = [(''*'', ''*'', tr_ObjectReaction T)]
       \<and> (\<exists>r. tf_WatchReactionChain fake = [(''*'', r)]
            \<and> (\<forall>tracker action. fst (r tracker action) \<longleftrightarrow>
                 (\<exists>w. tr_Watch T tracker (wa_Resource action) (wa_Namespace action)
                    (case wa_Options action of None \<Rightarrow> tr_ListOptions T | Some o1 \<Rightarrow> o1) = Inr w)))"
proof -
  show "\<forall>err. unclustered_NewClientset T new objects = Inl err \<longleftrightarrow>
       (\<exists>pre obj post t' t''. objects = pre @ obj # post
          \<and> add_objects (tr_Add T) pre (tr_NewFieldManagedObjectTracker T) = Inr t' \<and> tr_Add T obj t' = (Some err, t''))"
    unfolding add_objects_panics [symmetric] by (simp add: unclustered_NewClientset_def split: sum.split)
  show "unclustered_NewClientset T new objects = Inr (c, fake) \<Longrightarrow>
       add_objects (tr_Add T) objects (tr_NewFieldManagedObjectTracker T) = Inr (unclustered_Tracker c)
       \<and> unclustered_Discovery c = new
       \<and> newFakeFilteredAPIExportEndpointSlices (unclustered_FilteredvwV1alpha1 c)
          = \<lparr>fs_Fake = new, fs_Namespace = '''', fs_Resource = filteredAPIExportEndpointSlicesResource,
             fs_Kind = filteredAPIExportEndpointSlicesKind\<rparr>
       \<and> tf_ReactionChain fake = [(''*'', ''*'', tr_ObjectReaction T)]
       \<and> (\<exists>r. tf_WatchReactionChain fake = [(''*'', r)]
            \<and> (\<forall>tracker action. fst (r tracker action) \<longleftrightarrow>
                 (\<exists>w. tr_Watch T tracker (wa_Resource action) (wa_Namespace action)
                    (case wa_Options action of None \<Rightarrow> tr_ListOptions T | Some o1 \<Rightarrow> o1) = Inr w)))"
    by (auto simp: unclustered_NewClientset_def with_reactors_def watch_reaction_def Let_def
        unclustered_Tracker_def unclustered_Discovery_def newFakeFilteredAPIExportEndpointSlices_def
        unclustered_FilteredvwV1alpha1_def slice_gvr_def WithKind_gv_def GroupName_def GroupVersion_def
        filteredAPIExportEndpointSlicesResource_def filteredAPIExportEndpointSlicesKind_def
        split: sum.splits)
qed

section \<open>The embedded schema of the apply configurations\<close>

text \<open>\<open>schemaYAML\<close>, as the document it is.\<close>

record schema_type =
  sy_name :: string
  sy_scalar :: string
  sy_list_elementType :: string
  sy_list_elementRelationship :: string
  sy_map_elementType :: string
  sy_map_elementRelationship :: string

definition schemaYAML :: "schema_type list" where
  "schemaYAML =
     [\<lparr>sy_name = ''__untyped_atomic_'', sy_scalar = ''untyped'',
       sy_list_elementType = ''__untyped_atomic_'', sy_list_elementRelationship = ''atomic'',
       sy_map_elementType = ''__untyped_atomic_'', sy_map_elementRelationship = ''atomic''\<rparr>,
      \<lparr>sy_name = ''__untyped_deduced_'', sy_scalar = ''untyped'',
       sy_list_elementType = ''__untyped_atomic_'', sy_list_elementRelationship = ''atomic'',
       sy_map_elementType = ''__untyped_deduced_'', sy_map_elementRelationship = ''separable''\<rparr>]"

text \<open>
  Names are unique and every type it refers to is there. It describes no type of the API: the
  type converter of the field-managed tracker gets no structure of a slice from it.
\<close>

lemma schemaYAML_closed:
  "distinct (map sy_name schemaYAML)
   \<and> list_all (\<lambda>t. {sy_list_elementType t, sy_map_elementType t} \<subseteq> set (map sy_name schemaYAML)) schemaYAML
   \<and> list_all (\<lambda>t. HasPrefix (sy_name t) ''__untyped_'') schemaYAML"
  by (simp add: schemaYAML_def HasPrefix_def)

end
