(* ===== verification/Test_Tables.thy ===== *)
theory Test_Tables
  imports Bound_Authorizer Content_Authorizer Maximal_Permission Selector_Admission Api_Controller Endpoint_Slice
begin

text \<open>
  The unit tests of the repository as data, with the result each expects: the models of the
  functions under test give exactly these results. A case of a test table is a row here, in the
  order of the table, and \<open>meets\<close> is the body of the loop that runs it. An error the test
  compares as text is given as the symbolic message it is made from. The test of the built-in
  schemas is subsumed by \<open>builtin_complete\<close>.
\<close>

section \<open>authorizer/binding_test.go\<close>

definition default_slice :: slice where
  "default_slice =
     \<lparr>sl_Name = ''filtered-slice'', sl_Cluster = '''',
      Spec = \<lparr>APIExport = \<lparr>ref_Path = '''', ref_Name = ''bar''\<rparr>,
              ObjectSelector = \<lparr>MatchLabels = None, MatchExpressions = None\<rparr>\<rparr>,
      Status = \<lparr>Conditions = []\<rparr>\<rparr>"

definition test_claim :: "string \<Rightarrow> string \<Rightarrow> string \<Rightarrow> string list \<Rightarrow> PermissionClaim" where
  "test_claim g r h verbs = \<lparr>pc_Group = g, pc_Resource = r, pc_IdentityHash = h, pc_Verbs = verbs\<rparr>"

definition test_export :: "string \<Rightarrow> string \<Rightarrow> PermissionClaim list \<Rightarrow> bool option \<Rightarrow> apiexport" where
  "test_export name cluster claims policy =
     \<lparr>ex_Name = name, ex_Cluster = cluster, ex_PathAnnotation = '''', ex_IdentityHash = '''',
      ex_Resources = [], ex_PermissionClaims = claims, ex_MaximalPermissionPolicyLocal = policy\<rparr>"

definition test_attr :: "string \<Rightarrow> string \<Rightarrow> string \<Rightarrow> attributes" where
  "test_attr g r verb =
     \<lparr>at_User = \<lparr>us_Name = '''', us_UID = '''', us_Groups = [], us_Extra = Map.empty\<rparr>,
      at_Verb = verb, at_Namespace = '''', at_APIGroup = g, at_APIVersion = '''', at_Resource = r,
      at_Subresource = '''', at_Name = '''', at_ResourceRequest = False, at_Path = ''''\<rparr>"

text \<open>\<open>request.WithCluster\<close> with an empty name, and with the cluster of the domain key.\<close>

definition no_cluster :: go_error where
  "no_cluster = Err (Str ''cluster path is empty in the request context'')"

definition test_ctx :: "string \<Rightarrow> req_ctx" where
  "test_ctx key =
     \<lparr>ctx_Cluster = (if key = '''' then Inl no_cluster else Inr \<lparr>cl_Name = key, cl_Wildcard = False\<rparr>),
      ctx_DomainKey = key\<rparr>"

record bound_case =
  bc_DomainKey :: string
  bc_Resource :: string
  bc_Verb :: string
  bc_Bound :: "group_resource list"
  bc_BindingClaims :: "(string list \<times> claim_state) list"
  bc_ExportClaims :: "string list list"
  bc_Verdict :: verdict

definition foo_bar :: group_resource where
  "foo_bar = \<lparr>gr_Group = ''foo'', gr_Resource = ''bar''\<rparr>"

definition allowed_verdict :: verdict where
  "allowed_verdict = (DecisionAllow, Str '''', None)"

definition no_reason_found :: verdict where
  "no_reason_found = (DecisionDeny, Str ''failed to find suitable reason to allow access in APIBinding'', None)"

definition claimed_case ::
    "string \<Rightarrow> string list \<Rightarrow> claim_state \<Rightarrow> string list \<Rightarrow> verdict \<Rightarrow> bound_case" where
  "claimed_case verb in_binding state in_export verdict =
     \<lparr>bc_DomainKey = ''foo/bar'', bc_Resource = ''bar'', bc_Verb = verb, bc_Bound = [],
      bc_BindingClaims = [(in_binding, state)], bc_ExportClaims = [in_export], bc_Verdict = verdict\<rparr>"

definition bound_cases :: "bound_case list" where
  "bound_cases =
     [\<lparr>bc_DomainKey = '''', bc_Resource = '''', bc_Verb = '''', bc_Bound = [], bc_BindingClaims = [],
       bc_ExportClaims = [], bc_Verdict = (DecisionNoOpinion, Str '''',
         Some (Wrap ''error getting valid cluster from context: %w'' [] no_cluster))\<rparr>,
      \<lparr>bc_DomainKey = ''foo/bar'', bc_Resource = ''bar'', bc_Verb = ''list'', bc_Bound = [foo_bar],
       bc_BindingClaims = [], bc_ExportClaims = [], bc_Verdict = allowed_verdict\<rparr>,
      \<lparr>bc_DomainKey = ''foo/bar'', bc_Resource = ''baz'', bc_Verb = ''list'', bc_Bound = [foo_bar],
       bc_BindingClaims = [], bc_ExportClaims = [], bc_Verdict = no_reason_found\<rparr>,
      claimed_case ''list'' [''list''] ClaimAccepted [''list''] allowed_verdict,
      claimed_case ''list'' [''*''] ClaimAccepted [''*''] allowed_verdict,
      claimed_case ''list'' [''*''] ClaimRejected [''*''] no_reason_found,
      claimed_case ''list'' [''list''] ClaimRejected [''list''] no_reason_found,
      claimed_case ''list'' [''get''] ClaimAccepted [''get''] no_reason_found,
      claimed_case ''list'' [''get''] ClaimAccepted [''get'', ''list''] no_reason_found,
      claimed_case ''list'' [''get'', ''list''] ClaimAccepted [''get''] no_reason_found,
      claimed_case ''connect'' [''connect'', ''proxy''] ClaimAccepted [''connect'', ''proxy''] allowed_verdict]"

definition bound_meets :: "bound_case \<Rightarrow> bool" where
  "bound_meets c =
     (let auth =
        \<lparr>ba_getFilteredAPIExportEndpointSlice = (\<lambda>cluster name. Inr default_slice),
         ba_getAPIExport = (\<lambda>cluster name. Inr (test_export ''bar'' ''''
           (map (test_claim ''foo'' ''bar'' '''') (bc_ExportClaims c)) None)),
         ba_getAPIBindingByExport = (\<lambda>cluster name exportCluster. Inr
           \<lparr>bi_Export = None, bi_APIExportClusterName = '''', bi_BoundResources = bc_Bound c,
            bi_PermissionClaims = map (\<lambda>(verbs, state).
              \<lparr>ac_Claim = test_claim ''foo'' ''bar'' '''' verbs,
               ac_Selector = \<lparr>MatchAll = True, LabelSelector = \<lparr>MatchLabels = None, MatchExpressions = None\<rparr>\<rparr>,
               ac_State = state\<rparr>) (bc_BindingClaims c)\<rparr>),
         ba_delegate = (\<lambda>ctx a. (fst (bc_Verdict c), Str '''', None))\<rparr>
      in bound_Authorize w_EqualGRI auth (test_ctx (bc_DomainKey c))
           (test_attr (if bc_Resource c = '''' then '''' else ''foo'') (bc_Resource c) (bc_Verb c)) = bc_Verdict c)"

lemma bound_tests: "list_all bound_meets bound_cases"
  by (simp add: bound_cases_def bound_meets_def claimed_case_def Let_def bound_Authorize_def bound_decide_def
      test_ctx_def test_attr_def test_export_def test_claim_def default_slice_def allowed_verdict_def
      no_reason_found_def foo_bar_def no_cluster_def domain_key_parts_def bound_resource_def allowed_verbs_def
      w_EqualGRI_def wildcardVerb_def apibindings_resource_def)

section \<open>authorizer/maximal\_permission\_policy\_test.go\<close>

record maximal_case =
  mc_DomainKey :: string
  mc_Resource :: string
  mc_Claims :: "PermissionClaim list"
  mc_ByIdentity :: "apiexport list"
  mc_DeepSAR :: verdict
  mc_Verdict :: verdict

definition some_claim :: PermissionClaim where
  "some_claim = test_claim ''someGroup'' ''someResource'' '''' []"

definition claimed :: "string \<Rightarrow> PermissionClaim" where
  "claimed h = test_claim ''claimedGroup'' ''claimedResource'' h []"

definition not_reviewed :: verdict where
  "not_reviewed = (DecisionNoOpinion, Str '''', None)"

definition identity_case :: "apiexport list \<Rightarrow> verdict \<Rightarrow> verdict \<Rightarrow> maximal_case" where
  "identity_case exports review result =
     \<lparr>mc_DomainKey = ''foo/bar'', mc_Resource = ''claimedResource'', mc_Claims = [some_claim, claimed ''123''],
      mc_ByIdentity = exports, mc_DeepSAR = review, mc_Verdict = result\<rparr>"

definition maximal_cases :: "maximal_case list" where
  "maximal_cases =
     [\<lparr>mc_DomainKey = '''', mc_Resource = '''', mc_Claims = [], mc_ByIdentity = [], mc_DeepSAR = not_reviewed,
       mc_Verdict = (DecisionNoOpinion, Str '''', Some (Err (Str ''invalid API domain key'')))\<rparr>,
      \<lparr>mc_DomainKey = ''foo/bar'', mc_Resource = '''', mc_Claims = [], mc_ByIdentity = [], mc_DeepSAR = not_reviewed,
       mc_Verdict = (DecisionAllow, Sprintf ''unclaimed resource in APIExport: %q, workspace :%q''
         [Str ''fooExport'', Str ''someWorkspace''], None)\<rparr>,
      \<lparr>mc_DomainKey = ''foo/bar'', mc_Resource = ''claimedResource'', mc_Claims = [some_claim, claimed ''''],
       mc_ByIdentity = [], mc_DeepSAR = not_reviewed,
       mc_Verdict = (DecisionAllow,
         Sprintf ''unclaimable resource, identity hash not set in claiming APIExport: %q, workspace :%q''
           [Str ''fooExport'', Str ''someWorkspace''], None)\<rparr>,
      identity_case [] not_reviewed
        (DecisionDeny, Sprintf ''no APIExport providing claimed resources found for identity hash: %q''
           [Str ''123''], None),
      identity_case [test_export ''foo'' '''' [] None] not_reviewed
        (DecisionAllow, Str ''all claimed APIExports granted access'', None),
      identity_case [test_export ''foo'' '''' [] (Some True)] allowed_verdict
        (DecisionAllow, Str ''all claimed APIExports granted access'', None),
      identity_case [test_export ''fooExport'' ''someWorkspace'' [] (Some True)]
        (DecisionDeny, Str ''access denied'', None)
        (DecisionNoOpinion, Sprintf ''APIExport: %q, workspace: %q RBAC decision: %v''
           [Str ''fooExport'', Str ''someWorkspace'', Str ''access denied''], None)]"

definition maximal_meets :: "maximal_case \<Rightarrow> bool" where
  "maximal_meets c =
     (let auth =
        \<lparr>ma_getFilteredAPIExportEndpointSlice = (\<lambda>cluster name. Inr default_slice),
         ma_getAPIExport = (\<lambda>cluster name. Inr (test_export ''fooExport'' ''someWorkspace'' (mc_Claims c) None)),
         ma_newDeepSARAuthorizer = (\<lambda>cluster. Inr (\<lambda>ctx a. mc_DeepSAR c)),
         ma_getAPIExportsByIdentity = (\<lambda>h. Inr (mc_ByIdentity c))\<rparr>
      in maximal_Authorize ''apis.kcp.io:binding:'' auth (test_ctx (mc_DomainKey c))
           (test_attr (if mc_Resource c = '''' then '''' else ''claimedGroup'') (mc_Resource c) '''') = mc_Verdict c)"

lemma maximal_tests: "list_all maximal_meets maximal_cases"
  by (simp add: maximal_cases_def maximal_meets_def identity_case_def Let_def maximal_Authorize_def
      getClaimedIdentity_def some_claim_def claimed_def not_reviewed_def allowed_verdict_def
      test_ctx_def test_attr_def test_export_def test_claim_def default_slice_def domain_key_parts_def)

section \<open>authorizer/content\_test.go\<close>

definition content_meets :: "decision \<Rightarrow> bool" where
  "content_meets decision =
     (case content_Authorize
             \<lparr>ca_newDelegatedAuthorizer = (\<lambda>cluster. Inr (\<lambda>ctx a. (decision, Str '''', None))),
              ca_delegate = (\<lambda>ctx a. (decision, Str '''', None))\<rparr>
             (test_ctx ''foo/bar'') (test_attr '''' '''' '''') of
        (dec, reason, err) \<Rightarrow> err = None \<and> dec = decision)"

lemma content_tests: "list_all content_meets [DecisionAllow, DecisionDeny, DecisionNoOpinion]"
  by (simp add: content_meets_def content_Authorize_def test_ctx_def domain_key_parts_def)

section \<open>admission/selector\_test.go\<close>

text \<open>
  The object of every case is a config map. Labels and wanted labels are association lists; the
  comparison does not tell nil from empty, like \<open>equality.Semantic\<close>.
\<close>

record admit_case =
  ac_DomainKey :: string
  ac_Labels :: "(string \<times> string) list option"
  ac_Update :: bool
  ac_Binding :: APIBinding
  ac_Want :: "go_error + (string \<times> string) list"

definition test_binding :: "claim_selector \<Rightarrow> claim_state \<Rightarrow> APIBinding" where
  "test_binding selector state =
     \<lparr>bi_Export = None, bi_APIExportClusterName = '''', bi_BoundResources = [],
      bi_PermissionClaims = [\<lparr>ac_Claim = test_claim '''' ''configmaps'' '''' [], ac_Selector = selector,
        ac_State = state\<rparr>]\<rparr>"

definition apiBindingMatchAll :: "claim_state \<Rightarrow> APIBinding" where
  "apiBindingMatchAll = test_binding
     \<lparr>MatchAll = True, LabelSelector = \<lparr>MatchLabels = None, MatchExpressions = None\<rparr>\<rparr>"

definition apiBindingMatchLabels :: "claim_state \<Rightarrow> APIBinding" where
  "apiBindingMatchLabels = test_binding
     \<lparr>MatchAll = False, LabelSelector = \<lparr>MatchLabels = Some [''env'' \<mapsto> ''test''], MatchExpressions = None\<rparr>\<rparr>"

text \<open>It is written with the parameter \<open>state\<close> and always accepted.\<close>

definition apiBindingMatchExpressions :: APIBinding where
  "apiBindingMatchExpressions = test_binding
     \<lparr>MatchAll = False, LabelSelector = \<lparr>MatchLabels = None, MatchExpressions = Some
        [\<lparr>me_Key = ''env'', me_Operator = ''In'', me_Values = [''test1'', ''test2'']\<rparr>]\<rparr>\<rparr> ClaimAccepted"

definition admit_row ::
    "(string \<times> string) list option \<Rightarrow> bool \<Rightarrow> APIBinding \<Rightarrow> go_error + (string \<times> string) list \<Rightarrow> admit_case" where
  "admit_row lbls update binding want =
     \<lparr>ac_DomainKey = ''foo/bar'', ac_Labels = lbls, ac_Update = update, ac_Binding = binding, ac_Want = want\<rparr>"

definition admit_cases :: "admit_case list" where
  "admit_cases =
     [admit_row None False (apiBindingMatchAll ClaimAccepted) (Inr []),
      admit_row None False (apiBindingMatchLabels ClaimAccepted) (Inr [(''env'', ''test'')]),
      admit_row None True (apiBindingMatchLabels ClaimAccepted) (Inr [(''env'', ''test'')]),
      admit_row (Some [(''test'', ''test'')]) False (apiBindingMatchLabels ClaimAccepted)
        (Inr [(''env'', ''test''), (''test'', ''test'')]),
      admit_row (Some [(''env'', ''test''), (''test'', ''test'')]) False (apiBindingMatchLabels ClaimAccepted)
        (Inr [(''env'', ''test''), (''test'', ''test'')]),
      admit_row None False apiBindingMatchExpressions (Inr []),
      admit_row None False (apiBindingMatchAll ClaimRejected) (Inr []),
      admit_row None False (apiBindingMatchLabels ClaimRejected) (Inr []),
      \<lparr>ac_DomainKey = '''', ac_Labels = None, ac_Update = False, ac_Binding = apiBindingMatchAll ClaimAccepted,
       ac_Want = Inl (Forbidden (Wrap ''error getting valid cluster from context: %w'' [] no_cluster))\<rparr>,
      \<lparr>ac_DomainKey = ''foo'', ac_Labels = None, ac_Update = False, ac_Binding = apiBindingMatchAll ClaimAccepted,
       ac_Want = Inl (Forbidden (Err (Str ''invalid API domain key'')))\<rparr>,
      admit_row (Some [(''env'', ''prod'')]) False (apiBindingMatchLabels ClaimAccepted)
        (Inl (Forbidden (Errorf ''protected label %s must have value %s'' [Str ''env'', Str ''test''])))]"

definition test_admission :: "APIBinding \<Rightarrow> selectorAdmission" where
  "test_admission binding =
     \<lparr>sa_getFilteredAPIExportEndpointSlice = (\<lambda>cluster name. Inr default_slice),
      sa_getAPIBindingByExport = (\<lambda>cluster name exportCluster. Inr binding)\<rparr>"

definition test_object_attr :: "(string \<times> string) list option \<Rightarrow> bool \<Rightarrow> admission_attributes" where
  "test_object_attr lbls update =
     (let u = Unstructured \<lparr>un_Labels = map_option map_of lbls, un_Content = ''cool-something''\<rparr>
      in \<lparr>aa_Operation = (if update then Update else Create), aa_Group = '''', aa_Resource = ''configmaps'',
          aa_Object = Some u, aa_OldObject = (if update then Some u else None)\<rparr>)"

definition admit_meets :: "admit_case \<Rightarrow> bool" where
  "admit_meets c =
     (case Admit w_ord (test_admission (ac_Binding c)) (test_ctx (ac_DomainKey c))
             (test_object_attr (ac_Labels c) (ac_Update c)) of
        (Some err, a) \<Rightarrow> ac_Want c = Inl err
      | (None, a) \<Rightarrow>
          (case (ac_Want c, as_unstructured (aa_Object a)) of
             (Inr want, Some u) \<Rightarrow> go_map (un_Labels u) = map_of want
           | _ \<Rightarrow> False))"

lemmas selector_test_defs = test_admission_def test_object_attr_def test_ctx_def no_cluster_def
  domain_key_parts_def default_slice_def bound_resource_def test_claim_def test_binding_def
  apiBindingMatchAll_def apiBindingMatchLabels_def apiBindingMatchExpressions_def

lemma admit_tests: "list_all admit_meets admit_cases"
  by (simp add: admit_cases_def admit_row_def admit_meets_def Admit_def Let_def selector_test_defs
      range_in_def fun_upd_twist)

record validate_case =
  vc_DomainKey :: string
  vc_Labels :: "(string \<times> string) list option"
  vc_Update :: bool
  vc_Binding :: APIBinding
  vc_Want :: "go_error option"

definition validate_row ::
    "(string \<times> string) list option \<Rightarrow> bool \<Rightarrow> APIBinding \<Rightarrow> go_error option \<Rightarrow> validate_case" where
  "validate_row lbls update binding want =
     \<lparr>vc_DomainKey = ''foo/bar'', vc_Labels = lbls, vc_Update = update, vc_Binding = binding, vc_Want = want\<rparr>"

definition not_matching :: go_error where
  "not_matching = Forbidden (Err (Str ''object does not match required labels''))"

definition validate_cases :: "validate_case list" where
  "validate_cases =
     [validate_row None False (apiBindingMatchAll ClaimAccepted) None,
      validate_row (Some [(''env'', ''test'')]) False (apiBindingMatchLabels ClaimAccepted) None,
      validate_row (Some [(''env'', ''test'')]) True (apiBindingMatchLabels ClaimAccepted) None,
      validate_row None False (apiBindingMatchLabels ClaimRejected) None,
      validate_row (Some [(''env'', ''test''), (''test'', ''test'')]) False (apiBindingMatchLabels ClaimAccepted) None,
      validate_row (Some [(''env'', ''test1'')]) False apiBindingMatchExpressions None,
      validate_row (Some [(''env'', ''test2'')]) False apiBindingMatchExpressions None,
      \<lparr>vc_DomainKey = '''', vc_Labels = None, vc_Update = False, vc_Binding = apiBindingMatchAll ClaimAccepted,
       vc_Want = Some (Forbidden (Wrap ''error getting valid cluster from context: %w'' [] no_cluster))\<rparr>,
      \<lparr>vc_DomainKey = ''foo'', vc_Labels = None, vc_Update = False, vc_Binding = apiBindingMatchAll ClaimAccepted,
       vc_Want = Some (Forbidden (Err (Str ''invalid API domain key'')))\<rparr>,
      validate_row None False (apiBindingMatchLabels ClaimAccepted) (Some not_matching),
      validate_row (Some [(''test'', ''test'')]) False (apiBindingMatchLabels ClaimAccepted) (Some not_matching),
      validate_row (Some [(''env'', ''prod'')]) False (apiBindingMatchLabels ClaimAccepted) (Some not_matching),
      validate_row (Some [(''env'', ''prod'')]) False apiBindingMatchExpressions (Some not_matching)]"

definition validate_meets :: "validate_case \<Rightarrow> bool" where
  "validate_meets c \<longleftrightarrow>
     Validate (ref_labels []) (test_admission (vc_Binding c)) (test_ctx (vc_DomainKey c))
       (test_object_attr (vc_Labels c) (vc_Update c)) = vc_Want c"

lemma validate_tests: "list_all validate_meets validate_cases"
  by (simp add: validate_cases_def validate_row_def validate_meets_def Validate_def Let_def selector_test_defs
      ref_labels_def not_matching_def)

section \<open>controllers/apireconciler/apiexport\_apireconciler\_controller\_test.go\<close>

text \<open>
  Two slices of two exports, each with a schema named after the last character of its name. The
  key of an object without a cluster is its name.
\<close>

definition named_slice :: "string \<Rightarrow> string \<Rightarrow> slice" where
  "named_slice name export =
     default_slice\<lparr>sl_Name := name, Spec := (Spec default_slice)\<lparr>APIExport := \<lparr>ref_Path = '''', ref_Name = export\<rparr>\<rparr>\<rparr>"

definition test_keys :: key_api where
  "test_keys =
     \<lparr>ka_SliceKey = (\<lambda>s. Inr (sl_Name s)), ka_ExportKey = (\<lambda>e. Inr (ex_Name e)),
      ka_SchemaKey = (\<lambda>s. Inr (''mycluster|'' @ sc_Name s)),
      ka_SplitKey = (\<lambda>k. Inr (''mycluster'', '''', ''schema1''))\<rparr>"

definition test_view :: kcp_view where
  "test_view =
     \<lparr>kv_Slice = (\<lambda>c n. Inl (NotFound (Str n))),
      kv_Slices = (\<lambda>c. Inr [named_slice ''filteredapiexportes1'' ''export1'',
                             named_slice ''filteredapiexportes2'' ''export2'']),
      kv_Schema = (\<lambda>c n. Inl (NotFound (Str n))),
      kv_Export = (\<lambda>c n. Inr ((test_export n '''' [] None)\<lparr>ex_Resources := [''schema'' @ [last n]]\<rparr>)),
      kv_ByIdentity = (\<lambda>h. Inr []), kv_ByClaimedIdentities = (\<lambda>h. Inr [])\<rparr>"

definition test_schema :: APIResourceSchema where
  "test_schema = \<lparr>sc_Name = ''schema1'', sc_UID = '''', sc_Annotations = Some 0, sc_Group = '''',
     sc_Plural = '''', sc_Versions = []\<rparr>"

lemma schema_event_test: "enqueueAPIResourceSchema test_keys test_view test_schema = [QAdd ''filteredapiexportes1'']"
  by (simp add: enqueueAPIResourceSchema_def enqueueFilteredAPIExportEndpointSlice_def test_keys_def test_view_def
      test_schema_def named_slice_def default_slice_def test_export_def)

section \<open>endpointslice/endpointslice\_controller\_test.go\<close>

definition my_slice :: slice where
  "my_slice =
     \<lparr>sl_Name = ''my-slice'', sl_Cluster = ''root:org:ws'',
      Spec = \<lparr>APIExport = \<lparr>ref_Path = ''root:org:ws'', ref_Name = ''my-export''\<rparr>,
              ObjectSelector = \<lparr>MatchLabels = Some [''key1'' \<mapsto> ''value1''], MatchExpressions = None\<rparr>\<rparr>,
      Status = \<lparr>Conditions = []\<rparr>\<rparr>"

text \<open>What the lookup of the export gives, whether an error is wanted, and the wanted condition.\<close>

definition reconcile_cases :: "((string \<Rightarrow> go_error + apiexport) \<times> bool \<times> condition_status \<times> string \<times> string) list" where
  "reconcile_cases =
     [(\<lambda>name. Inl (NotFound (Str name)), False, ConditionFalse, APIExportNotFoundReason, ConditionSeverityError),
      (\<lambda>name. Inl (Err (Str ''internal error'')), True, ConditionFalse, InternalErrorReason, ConditionSeverityError),
      (\<lambda>name. Inr (test_export ''my-export'' ''root:org:ws'' [] None), False, ConditionTrue, '''', '''')]"

definition reconcile_meets ::
    "(string \<Rightarrow> go_error + apiexport) \<times> bool \<times> condition_status \<times> string \<times> string \<Rightarrow> bool" where
  "reconcile_meets =
     (\<lambda>(export, wantError, status, reason, severity).
        (case endpoints_reconcile ref_conditions (\<lambda>path. export) my_slice of
           (s, err) \<Rightarrow> (err \<noteq> None) = wantError
             \<and> (case get_condition APIExportValid s of
                  None \<Rightarrow> False
                | Some c \<Rightarrow> cond_Status c = status \<and> cond_Reason c = reason \<and> cond_Severity c = severity)))"

lemma reconcile_tests: "list_all reconcile_meets reconcile_cases"
  by (simp add: reconcile_cases_def reconcile_meets_def endpoints_reconcile_def ref_conditions_def
      get_set_condition)

text \<open>
  The models of the functions under test give, for every case of the test tables of the
  repository, the result the test expects.
\<close>

theorem repository_tests_hold:
  "list_all bound_meets bound_cases \<and> list_all maximal_meets maximal_cases
   \<and> list_all content_meets [DecisionAllow, DecisionDeny, DecisionNoOpinion]
   \<and> list_all admit_meets admit_cases \<and> list_all validate_meets validate_cases
   \<and> enqueueAPIResourceSchema test_keys test_view test_schema = [QAdd ''filteredapiexportes1'']
   \<and> list_all reconcile_meets reconcile_cases"
  by (intro conjI bound_tests maximal_tests content_tests admit_tests validate_tests schema_event_test reconcile_tests)

end
