(* ===== verification/Spec2Isabelle.thy ===== *)
theory Spec2Isabelle
  imports Authorizer_Chain Selector_Admission Url_Digest Api_Controller Api_Refresh Api_Keep Endpoint_Slice Server
    Virtual_Workspaces Informer_Lifecycle Informer_Access Endpoint_Heap Api_Shutdown Served_Objects
    Crd_Schema Assembly Command_Line Client_Setup
    Test_Tables
begin

text \<open>
  A model of the filtered APIExport virtual workspace of kcp, with the theorems that make it
  correct.

  The program. A \<open>FilteredAPIExportEndpointSlice\<close> (a slice) names an APIExport and an object
  selector. The server of this repository offers, under the URL
  \<open><root>/<slice cluster>/<slice name>/clusters/<target>/...\<close>, the APIs of that export in the
  clusters that bind it, restricted to the objects with the labels of the selector. Three parts
  work together:

  \<^item> The request path (\<open>internal/virtual/filteredapiexport/builder\<close>, \<open>authorizer\<close>, \<open>admission\<close>).
    \<open>digestUrl\<close> turns a path into an API domain key and a target cluster; the chain of
    authorizers decides; the admission adds the labels of the slice to written objects and
    checks them; the storage of the served definition forwards the request with the client
    \<open>impersonatedDynamicClientGetter\<close> makes and with the label requirements it was built with.
  \<^item> The API reconciler (\<open>controllers/apireconciler\<close>) keeps, for each domain key, the set of
    served definitions: events of slices, exports and schemas put slice keys in a work queue, and
    \<open>reconcile\<close> plans the schemas, reuses or builds the definitions, tears the replaced ones down
    and commits the set, which the request path reads.
  \<^item> The endpoint slice controller (\<open>internal/reconciler/endpointslice\<close>) maintains the condition
    \<open>APIExportValid\<close> of a slice. The command (\<open>cmd/filtered-apiexport-vw\<close>) parses and validates the options,
    builds clients and informers, and starts the controllers and the server.

  The theories, and what their lemmas show:

  \<^item> \<open>Prelude\<close>: Go strings and package \<open>strings\<close>, Go errors, the iteration orders of Go maps
    (\<open>is_range\<close>: any enumeration without repetition). \<open>Key_Order\<close>: one such order by sorting keys,
    through \<open>linorder\<close> instances. \<open>Api_Types\<close>: \<open>sdk/apis/filteredvw/v1alpha1\<close> and the kcp objects,
    with the fields the source reads. \<open>Authz\<close>: requests, decisions, and the contracts
    \<open>sound_gate\<close> and \<open>exact_gate\<close> of a link of an authorizer chain. \<open>Labels\<close>: the label selectors
    of apimachinery, as a parameter, with a reference semantics.
  \<^item> \<open>Bound_Authorizer\<close>, \<open>Content_Authorizer\<close>, \<open>Maximal_Permission\<close> (one file of \<open>authorizer/\<close>
    each): when each link allows, denies or errs; the first two are interpretations of
    \<open>exact_gate\<close>. \<open>Authorizer_Chain\<close>: \<open>newAuthorizer\<close>, soundness and completeness of the chain.
  \<^item> \<open>Selector_Admission\<close>: \<open>admission/selector.go\<close>; \<open>Admit\<close> for every order of the label maps and
    \<open>Validate\<close>, and that what one writes the other accepts.
  \<^item> \<open>Url_Digest\<close>: \<open>digestUrl\<close> and the root path resolver. \<open>Builder\<close>: the impersonating client, the
    storage of \<open>forwarding.go\<close>, creation and tear-down of definitions on a store of definitions and
    open contexts (contract \<open>definition_store\<close>), post-start hook and readiness.
    \<open>Virtual_Workspaces\<close>: how these are assembled from the options.
  \<^item> \<open>Schemas\<close>: the tables of \<open>schemas/\<close> and their initialisation.
  \<^item> \<open>Api_Reconcile\<close>: all of \<open>reconcile\<close>. \<open>Api_Plan\<close>: which schemas are planned. \<open>Api_Sets\<close>: what
    building a set does to the store, proved in the contract \<open>reconciler_world\<close> for every store
    that meets it, and interpreted on the store of \<open>Builder\<close>. \<open>Api_Served\<close>: the invariant over all
    sequences of calls. \<open>Api_Refresh\<close>, \<open>Api_Keep\<close>: what a refresh tears down, keeps and serves.
    \<open>Api_Controller\<close>: events, worker, shutdown and reader. \<open>Api_Shutdown\<close>: the end of \<open>Start\<close> as
    a step relation, and what a reconcile after the tear-down leaves behind. \<open>Api_Example\<close>: one
    call evaluated. \<open>Served_Objects\<close>: which objects the storages of served definitions deliver, and
    that what \<open>Validate\<close> lets through can be read back.
  \<^item> \<open>Work_Queue\<close>: the worker loop over a queue, once for both controllers (contract \<open>worker\<close>).
    \<open>Endpoint_Slice\<close>: index, events, reconcile and status commit of the endpoint slice controller,
    on values. \<open>Endpoint_Heap\<close>: its handler on the heap of \<open>Deep_Copy\<close>, a refinement of the former.
    \<open>Worker_Pool\<close>: several workers on one queue as a step relation, with events that arrive and
    delays that pass in between (contract \<open>worker_pool\<close>): no key is processed twice at a time, and
    no event is lost. \<open>Slice_Workers\<close>: \<open>Start\<close> of the endpoint slice controller, an interpretation.
  \<^item> \<open>Server\<close>: options, controller registry and the start-up sequence \<open>Run\<close>. \<open>Startup\<close>: the data
    flow of its first half, a refinement of the sequence. \<open>Assembly\<close>: which indexes and handlers
    \<open>InstallIndexers\<close>, \<open>NewController\<close> and \<open>NewAPIReconciler\<close> add to the shared informers, what the
    closures look up there, and who hears of an event. \<open>Command_Line\<close>: flags, parsing, exit code.
  \<^item> \<open>Informer_Factory\<close>, \<open>Informer_Lifecycle\<close>: both shared informer factories of
    \<open>sdk/client/informers/externalversions\<close> under one contract \<open>informer_factory\<close>, and their
    lifecycle as a step relation. \<open>Listers\<close>: the listers of \<open>sdk/client/listers\<close> over an indexer.
    \<open>Informer_Access\<close>: from a factory to the informer and the lister of the slices.
    \<open>Apply_Configuration\<close>: the builders of \<open>sdk/client/applyconfiguration\<close>.
    \<open>Deep_Copy\<close>: \<open>zz_generated.deepcopy.go\<close> on a heap. \<open>Clientsets\<close>: the generated clientsets, their
    caches of scoped clients (contract \<open>cached_clients\<close>, met by both caches) and rate limiters.
    \<open>Fake_Clients\<close>: their fakes. \<open>Client_Setup\<close>: schemes, the fake without clusters, and the schema
    of the apply configurations.
  \<^item> \<open>Crd_Schema\<close>: the embedded CRD of the slices, and how its schema and transition rules relate to
    the JSON of the Go types and to their validation.
  \<^item> \<open>Test_Tables\<close>: the unit tests of the repository (\<open>binding_test\<close>, \<open>maximal_permission_policy_test\<close>,
    \<open>content_test\<close>, \<open>selector_test\<close>, and those of the two controllers) as data, and that the models
    of the functions under test give the results they expect.
  \<^item> \<open>Examples\<close>: the small world the witnesses are evaluated in.
  \<^item> This theory: the statements that need the request path and the reconciler together.

  Conventions. An error result is \<open>Inl\<close> or \<open>Some\<close> of a \<open>go_error\<close>; a panic is the outcome
  \<open>Panic\<close>, with the state it leaves. Ranging over a Go map is given the order as a parameter
  or quantified over all orders. State is passed explicitly; the API reconciler's is the record
  \<open>reconciler_state\<close> (the sets by domain key, and the store of definitions). Locking is not
  modelled: one call of a locked section is one step, and where the code works between two
  locked sections the state a reader sees there is stated (\<open>reader_sees_torn_definitions\<close>). In
  the pool of workers every call of the queue is a step, and so is the handling of one item.

  Parameters and their laws. Code outside the repository is a parameter: listers and getters are
  functions of their arguments; the label selectors of apimachinery have \<open>selector_law\<close>; queue
  keys \<open>keys_law\<close> (splitting a key gives back what it was made of); the conditions of kcp
  \<open>conditions_law\<close>, on the heap \<open>heap_conditions_law\<close>; the storages of kcp \<open>registry_law\<close> and the
  requirements of a selector \<open>requirements_law\<close>; kcp's cache of clients \<open>cache_law\<close>; the recorded
  actions of a fake \<open>records_law\<close>; indexers \<open>index_law\<close> and \<open>indexer_law\<close> with the keys of \<open>key_law\<close>; the schema
  and CRD conversions \<open>schema_maker_law\<close> and \<open>crd_law\<close>; deep copies of library types \<open>copy_law\<close>; the
  audit decorator of the chain \<open>decorator_sound\<close> (it does not turn a refusal into an allowance);
  iteration orders \<open>range_law\<close>; the work queue of client-go \<open>queue_law\<close>; shared indexers and the
  index functions of kcp \<open>index_lib_law\<close>; kcp's tombstones and \<open>WithoutSyncs\<close> \<open>event_lib_law\<close>; the
  parsing of flags \<open>parse_law\<close>; schemes \<open>scheme_law\<close>. Each law is met by a concrete instance in the witnesses.

  Bounds and fuel. No definition uses fuel. The worker loop, which ends only when the queue shuts
  down or an item panics, is a partial function: \<open>worker_loop_termination\<close> says when it returns
  and with what. The machine integers of the program are a port, a burst that is compared with
  zero, and a duration that it only passes on; the QPS of a client configuration, a float that is
  compared with zero, is a rational number.

  Not modelled: logging and metrics; the length of the retry delay of the rate limiting queue
  (that it passes is a step of the pool); the bodies of kcp and Kubernetes libraries, among them
  the generic clients behind the typed ones, real and fake, and the reactors of the fakes; the
  descriptions of flags; signal handling; constructors of the generated code that only fill a
  struct with their arguments; the descriptions in the embedded CRD.
\<close>

section \<open>From a slice to the requests for it\<close>

text \<open>
  C11: The URL of a slice and the queue key of a slice meet in one API domain key: a path
  built from the cluster and name of a slice is accepted, the prefix to strip leaves exactly
  the rest of the path, the authorizers read the cluster and name back out of the domain key,
  and processing the queue key of the slice reconciles that same domain key.
\<close>

theorem request_reaches_reconciled_domain:
  assumes law: "keys_law K" and key: "ka_SliceKey K s = Inr k"
    and cached: "kv_Slice (rc_view c) (sl_Cluster s) (sl_Name s) = Inr s"
    and names: "sl_Cluster s \<noteq> ''''" "sl_Name s \<noteq> ''''" "t \<noteq> ''''"
      "slash \<notin> set (sl_Cluster s)" "slash \<notin> set (sl_Name s)" "slash \<notin> set t"
    and rest: "rest = '''' \<or> HasPrefix rest ''/''"
    and target: "target_of lc t = Some cluster"
    and url: "url = normalizeRootPathPrefix rootPath @ sl_Cluster s @ ''/'' @ sl_Name s @ ''/clusters/'' @ t @ rest"
  shows "\<exists>pre ctx'. resolveRootPath lc rootPath url ctx = (True, pre, ctx')
    \<and> url = pre @ rest \<and> ctx_Cluster ctx' = lc_valid lc cluster
    \<and> domain_key_parts (ctx_DomainKey ctx') = Some (sl_Cluster s, sl_Name s)
    \<and> process K c k st = reconcile c (Some s) (ctx_DomainKey ctx') st"
proof -
  let ?key = "sl_Cluster s @ ''/'' @ sl_Name s"
  let ?pre = "normalizeRootPathPrefix rootPath @ sl_Cluster s @ ''/'' @ sl_Name s @ ''/clusters/'' @ t"
  let ?ctx = "ctx\<lparr>ctx_Cluster := lc_valid lc cluster, ctx_DomainKey := ?key\<rparr>"
  have "digestUrl lc url (normalizeRootPathPrefix rootPath) = (cluster, ?key, ?pre, True)"
    unfolding url using names rest target by (intro digestUrl_roundtrip)
  then have "resolveRootPath lc rootPath url ctx = (True, ?pre, ?ctx)"
    by (simp add: resolveRootPath_def)
  moreover have "process K c k st = reconcile c (Some s) ?key st"
  proof -
    have "ka_SplitKey K k = Inr (sl_Cluster s, '''', sl_Name s)"
      using law key unfolding keys_law_def by blast
    then show ?thesis using cached by (simp add: process_def)
  qed
  moreover have "domain_key_parts ?key = Some (sl_Cluster s, sl_Name s)"
    using names by simp
  ultimately show ?thesis unfolding url by (intro exI [of _ ?pre] exI [of _ ?ctx]) simp
qed

theorem request_reaches_reconciled_domain_witness:
  "\<exists>pre ctx'. resolveRootPath w_lc ''/fx'' ''/fx/prov/es/clusters/cons/api'' w_ctx = (True, pre, ctx')
    \<and> process w_keys w_rc ''prov|es'' w_st0 = reconcile w_rc (Some w_slice) (ctx_DomainKey ctx') w_st0"
proof -
  have k: "ka_SliceKey w_keys w_slice = Inr ''prov|es''"
    by (simp add: w_keys_def w_slice_def)
  have v: "kv_Slice (rc_view w_rc) (sl_Cluster w_slice) (sl_Name w_slice) = Inr w_slice"
    by (simp add: w_rc_def NewAPIReconciler_def w_view_def w_slices_def w_slice_def)
  have u: "''/fx/prov/es/clusters/cons/api'' = normalizeRootPathPrefix ''/fx'' @ sl_Cluster w_slice @ ''/''
      @ sl_Name w_slice @ ''/clusters/'' @ ''cons'' @ ''/api''"
    by (simp add: normalizeRootPathPrefix_def HasSuffix_def w_slice_def)
  have t: "target_of w_lc ''cons'' = Some \<lparr>cl_Name = ''cons'', cl_Wildcard = False\<rparr>"
    by (simp add: target_of_def w_lc_def)
  have "''/api'' = '''' \<or> HasPrefix ''/api'' ''/''" by (simp add: HasPrefix_def)
  from request_reaches_reconciled_domain [OF w_keys_law k v _ _ _ _ _ _ this t u, of w_ctx w_st0]
  obtain pre ctx' where "resolveRootPath w_lc ''/fx'' ''/fx/prov/es/clusters/cons/api'' w_ctx = (True, pre, ctx')"
    "process w_keys w_rc ''prov|es'' w_st0 = reconcile w_rc (Some w_slice) (ctx_DomainKey ctx') w_st0"
    by (auto simp: w_slice_def)
  then show ?thesis by blast
qed

section \<open>What an authorized request is served\<close>



end
